theory Spec2Isabelle
  imports Complex_Main "HOL-Library.Word" "HOL-Library.AList"
begin

section \<open>JavaScript values at the query boundary\<close>

text \<open>
  A JavaScript number is a double. The finite doubles are rationals, and the comparisons
  of the source (\<open><\<close>, \<open>></\<close> against 1 and 100) are exact on them; the three
  non-finite doubles are kept apart, since every comparison with \<open>NaN\<close> is false.
\<close>

datatype jsnum = Fin rat | NaN | PosInf | NegInf

fun js_lt :: "jsnum \<Rightarrow> jsnum \<Rightarrow> bool" where
  "js_lt NaN _ = False"
| "js_lt _ NaN = False"
| "js_lt (Fin a) (Fin b) = (a < b)"
| "js_lt (Fin _) PosInf = True"
| "js_lt (Fin _) NegInf = False"
| "js_lt PosInf _ = False"
| "js_lt NegInf NegInf = False"
| "js_lt NegInf _ = True"

definition js_gt :: "jsnum \<Rightarrow> jsnum \<Rightarrow> bool" where
  "js_gt a b = js_lt b a"

text \<open>The values an argument record can hold (\<open>Record<string, unknown></\<close>).\<close>

datatype jsval =
    JUndefined
  | JNull
  | JBool bool
  | JNum jsnum
  | JStr string
  | JArray "jsval list"
  | JObject "(string \<times> jsval) list"

type_synonym args = "string \<rightharpoonup> jsval"

text \<open>Reading a property that the record does not have gives \<open>undefined\<close>.\<close>

definition property :: "args \<Rightarrow> string \<Rightarrow> jsval" where
  "property a k = (case a k of None \<Rightarrow> JUndefined | Some v \<Rightarrow> v)"

datatype error = Error string

fun message :: "error \<Rightarrow> string" where
  "message (Error m) = m"

section \<open>Request validation (index.ts)\<close>

record CatalogSearchRequest =
  cat_query :: string
  cat_client :: "string option"
  cat_limit :: "jsnum option"

record ChunksSearchRequest =
  chk_query :: string
  chk_client :: "string option"
  chk_source :: "string option"
  chk_limit :: "jsnum option"

record AllChunksSearchRequest =
  all_query :: string
  all_limit :: "jsnum option"

text \<open>\<open>clients.join(', ')\<close>\<close>

fun join :: "string \<Rightarrow> string list \<Rightarrow> string" where
  "join sep [] = []"
| "join sep [x] = x"
| "join sep (x # y # ys) = x @ sep @ join sep (y # ys)"

text \<open>
  The three blocks of the validators, each in the order of the source: the block is
  skipped when the property is \<open>undefined\<close>, throws on a value of the wrong type
  or outside the accepted set, and otherwise hands the value on as it is.
\<close>

definition check_client :: "string list \<Rightarrow> jsval \<Rightarrow> error + string option" where
  "check_client clients v =
     (case v of
        JUndefined \<Rightarrow> Inr None
      | JStr c \<Rightarrow>
          if c \<in> set clients then Inr (Some c)
          else Inl (Error (''Invalid client. Must be one of: '' @ join '', '' clients))
      | _ \<Rightarrow> Inl (Error ''Client must be a string''))"

definition check_source :: "jsval \<Rightarrow> error + string option" where
  "check_source v =
     (case v of
        JUndefined \<Rightarrow> Inr None
      | JStr s \<Rightarrow> Inr (Some s)
      | _ \<Rightarrow> Inl (Error ''Source must be a string''))"

definition check_limit :: "jsval \<Rightarrow> error + jsnum option" where
  "check_limit v =
     (case v of
        JUndefined \<Rightarrow> Inr None
      | JNum n \<Rightarrow>
          if js_lt n (Fin 1) \<or> js_gt n (Fin 100)
          then Inl (Error ''Limit must be a number between 1 and 100'')
          else Inr (Some n)
      | _ \<Rightarrow> Inl (Error ''Limit must be a number between 1 and 100''))"

definition validateCatalogSearchRequest ::
  "string list \<Rightarrow> args \<Rightarrow> error + CatalogSearchRequest" where
  "validateCatalogSearchRequest clients a =
     (case property a ''query'' of
        JStr q \<Rightarrow>
          (case check_client clients (property a ''client'') of
             Inl e \<Rightarrow> Inl e
           | Inr c \<Rightarrow>
               (case check_limit (property a ''limit'') of
                  Inl e \<Rightarrow> Inl e
                | Inr l \<Rightarrow> Inr \<lparr>cat_query = q, cat_client = c, cat_limit = l\<rparr>))
      | _ \<Rightarrow> Inl (Error ''Query must be a string''))"

definition validateChunksSearchRequest ::
  "string list \<Rightarrow> args \<Rightarrow> error + ChunksSearchRequest" where
  "validateChunksSearchRequest clients a =
     (case property a ''query'' of
        JStr q \<Rightarrow>
          (case check_client clients (property a ''client'') of
             Inl e \<Rightarrow> Inl e
           | Inr c \<Rightarrow>
               (case check_source (property a ''source'') of
                  Inl e \<Rightarrow> Inl e
                | Inr s \<Rightarrow>
                    (case check_limit (property a ''limit'') of
                       Inl e \<Rightarrow> Inl e
                     | Inr l \<Rightarrow>
                         Inr \<lparr>chk_query = q, chk_client = c, chk_source = s, chk_limit = l\<rparr>)))
      | _ \<Rightarrow> Inl (Error ''Query must be a string''))"

definition validateAllChunksSearchRequest :: "args \<Rightarrow> error + AllChunksSearchRequest" where
  "validateAllChunksSearchRequest a =
     (case property a ''query'' of
        JStr q \<Rightarrow>
          (case check_limit (property a ''limit'') of
             Inl e \<Rightarrow> Inl e
           | Inr l \<Rightarrow> Inr \<lparr>all_query = q, all_limit = l\<rparr>)
      | _ \<Rightarrow> Inl (Error ''Query must be a string''))"

text \<open>
  The conditions of the claim, in its words. A property is supplied when it is not
  \<open>undefined\<close>; the query is a string when \<open>typeof\<close> says so; a supplied client is a
  member of the configured list when it is a string of that list; a supplied limit is out
  of range when it is not a number, below 1 or above 100.
\<close>

definition supplied :: "jsval \<Rightarrow> bool" where
  "supplied v = (v \<noteq> JUndefined)"

definition is_string :: "jsval \<Rightarrow> bool" where
  "is_string v = (case v of JStr _ \<Rightarrow> True | _ \<Rightarrow> False)"

definition configured_client :: "string list \<Rightarrow> jsval \<Rightarrow> bool" where
  "configured_client clients v = (case v of JStr c \<Rightarrow> c \<in> set clients | _ \<Rightarrow> False)"

definition limit_out_of_range :: "jsval \<Rightarrow> bool" where
  "limit_out_of_range v =
     (case v of JNum n \<Rightarrow> js_lt n (Fin 1) \<or> js_gt n (Fin 100) | _ \<Rightarrow> True)"

definition throws :: "error + 'a \<Rightarrow> bool" where
  "throws r = (case r of Inl _ \<Rightarrow> True | Inr _ \<Rightarrow> False)"

text \<open>A property of the returned request holds the argument's own value, or is absent with it.\<close>

definition carried_str :: "jsval \<Rightarrow> string option \<Rightarrow> bool" where
  "carried_str v r = (case r of None \<Rightarrow> v = JUndefined | Some s \<Rightarrow> v = JStr s)"

definition carried_num :: "jsval \<Rightarrow> jsnum option \<Rightarrow> bool" where
  "carried_num v r = (case r of None \<Rightarrow> v = JUndefined | Some n \<Rightarrow> v = JNum n)"

section \<open>Numbers used as limits\<close>

text \<open>
  A limit stays a JavaScript number from the request to the store call. The model divides
  and rounds on the exact rational; on the integer limits 1..100 and any realistic number
  of tenants this is what the double arithmetic gives.
\<close>

text \<open>\<open>value || 10\<close>: an absent limit, 0 and \<open>NaN\<close> are falsy.\<close>

definition limit_or_default :: "jsnum option \<Rightarrow> jsnum" where
  "limit_or_default l =
     (case l of
        None \<Rightarrow> Fin 10
      | Some NaN \<Rightarrow> Fin 10
      | Some (Fin r) \<Rightarrow> (if r = 0 then Fin 10 else Fin r)
      | Some n \<Rightarrow> n)"

text \<open>\<open>limit / count\<close>, with the count a length.\<close>

definition js_div_length :: "jsnum \<Rightarrow> nat \<Rightarrow> jsnum" where
  "js_div_length l n =
     (case l of
        Fin r \<Rightarrow>
          if n = 0 then (if r = 0 then NaN else if 0 < r then PosInf else NegInf)
          else Fin (r / of_nat n)
      | _ \<Rightarrow> l)"

definition Math_ceil :: "jsnum \<Rightarrow> jsnum" where
  "Math_ceil x = (case x of Fin r \<Rightarrow> Fin (of_int \<lceil>r\<rceil>) | _ \<Rightarrow> x)"

text \<open>
  \<open>xs.slice(0, end)\<close>: the end is truncated towards zero (\<open>NaN\<close> counts as 0), a
  negative end counts from the back, and the result is cut to the list.
\<close>

definition slice0 :: "jsnum \<Rightarrow> 'a list \<Rightarrow> 'a list" where
  "slice0 end xs =
     (case end of
        NaN \<Rightarrow> []
      | PosInf \<Rightarrow> xs
      | NegInf \<Rightarrow> []
      | Fin r \<Rightarrow>
          (let len = int (length xs);
               relEnd = (if r < 0 then \<lceil>r\<rceil> else \<lfloor>r\<rfloor>);
               final = (if relEnd < 0 then max (len + relEnd) 0 else min relEnd len)
           in take (nat final) xs))"

section \<open>Configuration (config.ts) and types (types.ts)\<close>

datatype collection_type = catalog_t | chunks_t

record CollectionConfig =
  cc_name :: string
  cc_type :: collection_type
  cc_client :: string
  cc_description :: "string option"

text \<open>The two collections of every client, in the order of the loop of config.ts.\<close>

definition collections :: "string list \<Rightarrow> CollectionConfig list" where
  "collections clients =
     concat (map (\<lambda>client.
       [\<lparr>cc_name = client @ ''_catalog'', cc_type = catalog_t, cc_client = client,
          cc_description = Some (''Document catalog for '' @ client)\<rparr>,
        \<lparr>cc_name = client @ ''_chunks'', cc_type = chunks_t, cc_client = client,
          cc_description = Some (''Document chunks for '' @ client)\<rparr>]) clients)"

record Document =
  source :: string
  hash :: string
  content :: string
  created_at :: "string option"

record CatalogEntry = Document +
  overview :: string

record DocumentChunk = Document +
  chunk_index :: nat
  chunk_total :: nat
  chunk_content :: string

type_synonym payload = "(string \<times> jsval) list"

record metadata =
  md_collection :: string
  md_chunk_index :: "jsval option"
  md_chunk_total :: "jsval option"
  md_overview :: "jsval option"

datatype result_type = type_catalog | type_chunk

text \<open>
  A search result. Its score is a finite number (the store's answer arrives as JSON);
  source and content are whatever the stored payload holds under those keys, since
  the source only casts them.
\<close>

record SearchResult =
  res_type :: result_type
  score :: rat
  res_source :: jsval
  res_content :: jsval
  res_metadata :: metadata

section \<open>The collaborators: vector store and embedding backend\<close>

type_synonym vector = "rat list"

record point =
  pt_vector :: vector
  pt_payload :: payload

text \<open>A collection holds its points by id; a store holds its collections by name.\<close>

type_synonym collection = "(nat \<times> point) list"

record search_params =
  sp_vector :: vector
  sp_limit :: jsnum
  sp_with_payload :: bool
  sp_filter_source :: "string option"

record ScoredPoint =
  hit_id :: nat
  hit_score :: "rat option"
  hit_payload :: "payload option"

datatype search_response = Hits "ScoredPoint list" | NotAnArray

text \<open>Every call that leaves the process is logged, in order.\<close>

datatype call =
    GetCollections
  | Sleep nat
  | Embed string
  | Upsert string nat point
  | Search string search_params

record world =
  store :: "string \<rightharpoonup> collection"
  log :: "call list"

text \<open>
  What the collaborators answer. The store's similarity search is given the name of one
  collection, the points of that collection and the request, and nothing else of the
  store; \<open>getCollections_fault\<close> is indexed by the number of \<open>getCollections\<close> calls
  made so far, so that an unreachable store can come back. \<open>sha256\<close> is the digest of
  \<open>crypto.createHash("sha256")\<close>, \<open>URL_fault\<close> says whether \<open>new URL\<close> rejects a
  string, and \<open>now\<close> is \<open>new Date().toISOString()\<close>.
\<close>

record environment =
  QDRANT_URL :: "string option"
  clients :: "string list"
  URL_fault :: "string \<Rightarrow> error option"
  sha256 :: "string \<Rightarrow> 256 word"
  embedding :: "string \<Rightarrow> error + vector"
  getCollections_fault :: "nat \<Rightarrow> error option"
  upsert_fault :: "string \<Rightarrow> nat \<Rightarrow> error option"
  similarity :: "string \<Rightarrow> collection \<Rightarrow> search_params \<Rightarrow> error + search_response"
  now :: string

definition logged :: "call \<Rightarrow> world \<Rightarrow> world" where
  "logged c w = w\<lparr>log := log w @ [c]\<rparr>"

fun is_GetCollections :: "call \<Rightarrow> bool" where
  "is_GetCollections GetCollections = True"
| "is_GetCollections _ = False"

definition attempts :: "world \<Rightarrow> nat" where
  "attempts w = length (filter is_GetCollections (log w))"

definition client_getCollections :: "environment \<Rightarrow> world \<Rightarrow> (error + unit) \<times> world" where
  "client_getCollections env w =
     (case getCollections_fault env (attempts w) of
        Some e \<Rightarrow> (Inl e, logged GetCollections w)
      | None \<Rightarrow> (Inr (), logged GetCollections w))"

definition sleep :: "nat \<Rightarrow> world \<Rightarrow> world" where
  "sleep ms w = logged (Sleep ms) w"

definition embedQuery :: "environment \<Rightarrow> string \<Rightarrow> world \<Rightarrow> (error + vector) \<times> world" where
  "embedQuery env text w = (embedding env text, logged (Embed text) w)"

text \<open>An upsert replaces the point of the same id or adds a new one.\<close>

definition client_upsert ::
  "environment \<Rightarrow> string \<Rightarrow> nat \<Rightarrow> point \<Rightarrow> world \<Rightarrow> (error + unit) \<times> world" where
  "client_upsert env name pid pt w =
     (let w1 = logged (Upsert name pid pt) w in
      case upsert_fault env name pid of
        Some e \<Rightarrow> (Inl e, w1)
      | None \<Rightarrow>
          (case store w name of
             None \<Rightarrow> (Inl (Error (''Not found: Collection '' @ name @ '' does not exist'')), w1)
           | Some c \<Rightarrow> (Inr (), w1\<lparr>store := (store w)(name \<mapsto> AList.update pid pt c)\<rparr>)))"

definition client_search ::
  "environment \<Rightarrow> string \<Rightarrow> search_params \<Rightarrow> world \<Rightarrow> (error + search_response) \<times> world" where
  "client_search env name params w =
     (case store w name of
        None \<Rightarrow>
          (Inl (Error (''Not found: Collection '' @ name @ '' does not exist'')),
           logged (Search name params) w)
      | Some c \<Rightarrow> (similarity env name c params, logged (Search name params) w))"

section \<open>QdrantPersistence (persistence/qdrant.ts)\<close>

record QdrantPersistence =
  initialized :: bool
  registry :: "(string \<times> CollectionConfig) list"

text \<open>
  The field \<open>collections\<close> of the class is a \<open>Map\<close> from names to configurations,
  here \<open>registry\<close>: \<open>set\<close> replaces the entry of a name where it stands or appends a
  new one, \<open>has\<close> asks for a name, \<open>values\<close> lists in insertion order.
\<close>

definition Map_set :: "string \<Rightarrow> 'v \<Rightarrow> (string \<times> 'v) list \<Rightarrow> (string \<times> 'v) list" where
  "Map_set k v m = AList.update k v m"

definition Map_has :: "(string \<times> 'v) list \<Rightarrow> string \<Rightarrow> bool" where
  "Map_has m k = (map_of m k \<noteq> None)"

definition Map_values :: "(string \<times> 'v) list \<Rightarrow> 'v list" where
  "Map_values m = map snd m"

definition startsWith :: "string \<Rightarrow> string \<Rightarrow> bool" where
  "startsWith s p = (take (length p) s = p)"

text \<open>
  The constructor. It checks the configured URL, parses it, and registers every configured
  collection; it contacts neither collaborator, and the world is returned as it came.
\<close>

definition QdrantPersistence_new ::
  "environment \<Rightarrow> world \<Rightarrow> (error + QdrantPersistence) \<times> world" where
  "QdrantPersistence_new env w =
     (case QDRANT_URL env of
        None \<Rightarrow> (Inl (Error ''QDRANT_URL environment variable is required''), w)
      | Some url \<Rightarrow>
          if url = [] then (Inl (Error ''QDRANT_URL environment variable is required''), w)
          else if \<not> startsWith url ''http://'' \<and> \<not> startsWith url ''https://''
          then (Inl (Error ''QDRANT_URL must start with http:// or https://''), w)
          else
            (case URL_fault env url of
               Some e \<Rightarrow> (Inl e, w)
             | None \<Rightarrow>
                 (Inr \<lparr>initialized = False,
                       registry = fold (\<lambda>c m. Map_set (cc_name c) c m)
                                    (collections (clients env)) []\<rparr>, w)))"

text \<open>
  The loop of \<open>connect\<close>: one attempt per round, a wait of \<open>delay\<close> after a failed
  attempt that is not the last, and the delay doubled.
\<close>

function connect_loop ::
  "environment \<Rightarrow> nat \<Rightarrow> nat \<Rightarrow> QdrantPersistence \<Rightarrow> world
     \<Rightarrow> (error + unit) \<times> QdrantPersistence \<times> world" where
  "connect_loop env retries delay this w =
     (if retries > 0 then
        (case client_getCollections env w of
           (Inr _, w1) \<Rightarrow> (Inr (), this\<lparr>initialized := True\<rparr>, w1)
         | (Inl e, w1) \<Rightarrow>
             (let retries' = retries - 1 in
              if retries' = 0
              then (Inl (Error (''Failed to connect to Qdrant: '' @ message e)), this, w1)
              else connect_loop env retries' (delay * 2) this (sleep delay w1)))
      else (Inr (), this, w))"
  by pat_completeness auto
termination
  by (relation "measure (\<lambda>(env, retries, delay, this, w). retries)") auto

definition connect ::
  "environment \<Rightarrow> QdrantPersistence \<Rightarrow> world \<Rightarrow> (error + unit) \<times> QdrantPersistence \<times> world" where
  "connect env this w =
     (if initialized this then (Inr (), this, w) else connect_loop env 3 2000 this w)"

text \<open>
  \<open>hashString\<close>: the digest as a buffer of 32 bytes, most significant first, and the
  unsigned 32-bit big-endian number read at offset 0. \<open>readUInt32BE\<close> throws when the
  four bytes do not lie inside the buffer.
\<close>

definition digest :: "256 word \<Rightarrow> 8 word list" where
  "digest d = map (\<lambda>i. ucast (drop_bit (8 * (31 - i)) d)) [0..<32]"

definition readUInt32BE :: "8 word list \<Rightarrow> nat \<Rightarrow> error + nat" where
  "readUInt32BE buffer offset =
     (if offset + 4 \<le> length buffer
      then Inr (unat (buffer ! offset) * 2 ^ 24 + unat (buffer ! (offset + 1)) * 2 ^ 16
                + unat (buffer ! (offset + 2)) * 2 ^ 8 + unat (buffer ! (offset + 3)))
      else Inl (Error ''ERR_OUT_OF_RANGE''))"

definition hashString :: "environment \<Rightarrow> string \<Rightarrow> error + nat" where
  "hashString env str = readUInt32BE (digest (sha256 env str)) 0"

text \<open>A chunk index in a template string: its decimal digits.\<close>

fun decimal :: "nat \<Rightarrow> string" where
  "decimal n =
     (if n < 10 then [char_of (48 + n)] else decimal (n div 10) @ [char_of (48 + n mod 10)])"

declare decimal.simps [simp del]

text \<open>\<open>created_at || new Date().toISOString()\<close>: an absent or empty stamp is falsy.\<close>

definition created_at_or_now :: "environment \<Rightarrow> string option \<Rightarrow> string" where
  "created_at_or_now env c =
     (case c of None \<Rightarrow> now env | Some t \<Rightarrow> if t = [] then now env else t)"

text \<open>The points that the two store operations upsert: the vector and the payload.\<close>

definition catalog_point :: "environment \<Rightarrow> CatalogEntry \<Rightarrow> vector \<Rightarrow> point" where
  "catalog_point env entry vector =
     \<lparr>pt_vector = vector,
      pt_payload =
        [(''source'', JStr (source entry)),
         (''hash'', JStr (hash entry)),
         (''content'', JStr (content entry)),
         (''overview'', JStr (overview entry)),
         (''created_at'', JStr (created_at_or_now env (created_at entry))),
         (''type'', JStr ''catalog'')]\<rparr>"

definition chunk_point :: "environment \<Rightarrow> DocumentChunk \<Rightarrow> vector \<Rightarrow> point" where
  "chunk_point env chunk vector =
     \<lparr>pt_vector = vector,
      pt_payload =
        [(''source'', JStr (source chunk)),
         (''hash'', JStr (hash chunk)),
         (''content'', JStr (content chunk)),
         (''chunk_content'', JStr (chunk_content chunk)),
         (''chunk_index'', JNum (Fin (of_nat (chunk_index chunk)))),
         (''chunk_total'', JNum (Fin (of_nat (chunk_total chunk)))),
         (''created_at'', JStr (created_at_or_now env (created_at chunk))),
         (''type'', JStr ''chunk'')]\<rparr>"

definition storeCatalogEntry ::
  "environment \<Rightarrow> CatalogEntry \<Rightarrow> string \<Rightarrow> QdrantPersistence \<Rightarrow> world
     \<Rightarrow> (error + unit) \<times> QdrantPersistence \<times> world" where
  "storeCatalogEntry env entry client this w =
     (case connect env this w of
        (Inl e, this1, w1) \<Rightarrow> (Inl e, this1, w1)
      | (Inr _, this1, w1) \<Rightarrow>
          (let collectionName = client @ ''_catalog'' in
           if \<not> Map_has (registry this1) collectionName
           then (Inl (Error (''Collection not found: '' @ collectionName)), this1, w1)
           else
             (case embedQuery env (overview entry) w1 of
                (Inl e, w2) \<Rightarrow> (Inl e, this1, w2)
              | (Inr vector, w2) \<Rightarrow>
                  (case hashString env (source entry) of
                     Inl e \<Rightarrow> (Inl e, this1, w2)
                   | Inr pid \<Rightarrow>
                       (case client_upsert env collectionName pid
                               (catalog_point env entry vector) w2 of
                          (r, w3) \<Rightarrow> (r, this1, w3))))))"

definition storeDocumentChunk ::
  "environment \<Rightarrow> DocumentChunk \<Rightarrow> string \<Rightarrow> QdrantPersistence \<Rightarrow> world
     \<Rightarrow> (error + unit) \<times> QdrantPersistence \<times> world" where
  "storeDocumentChunk env chunk client this w =
     (case connect env this w of
        (Inl e, this1, w1) \<Rightarrow> (Inl e, this1, w1)
      | (Inr _, this1, w1) \<Rightarrow>
          (let collectionName = client @ ''_chunks'' in
           if \<not> Map_has (registry this1) collectionName
           then (Inl (Error (''Collection not found: '' @ collectionName)), this1, w1)
           else
             (case embedQuery env (chunk_content chunk) w1 of
                (Inl e, w2) \<Rightarrow> (Inl e, this1, w2)
              | (Inr vector, w2) \<Rightarrow>
                  (case hashString env (source chunk @ ''-'' @ decimal (chunk_index chunk)) of
                     Inl e \<Rightarrow> (Inl e, this1, w2)
                   | Inr pid \<Rightarrow>
                       (case client_upsert env collectionName pid
                               (chunk_point env chunk vector) w2 of
                          (r, w3) \<Rightarrow> (r, this1, w3))))))"

text \<open>
  The searches build a fresh client from the configured URL (or the local default) before
  anything else; \<open>new URL\<close> is the one step of that which can throw.
\<close>

definition freshClient :: "environment \<Rightarrow> error + unit" where
  "freshClient env =
     (case URL_fault env (case QDRANT_URL env of None \<Rightarrow> ''http://localhost:6333'' | Some u \<Rightarrow> u) of
        Some e \<Rightarrow> Inl e
      | None \<Rightarrow> Inr ())"

text \<open>\<open>result.payload?.key\<close> and \<open>result.score || 0\<close>\<close>

definition payload_prop :: "payload option \<Rightarrow> string \<Rightarrow> jsval" where
  "payload_prop p k =
     (case p of
        None \<Rightarrow> JUndefined
      | Some kv \<Rightarrow> (case map_of kv k of None \<Rightarrow> JUndefined | Some v \<Rightarrow> v))"

definition score_or_zero :: "ScoredPoint \<Rightarrow> rat" where
  "score_or_zero result = (case hit_score result of None \<Rightarrow> 0 | Some x \<Rightarrow> x)"

definition catalog_result :: "string \<Rightarrow> ScoredPoint \<Rightarrow> SearchResult" where
  "catalog_result collectionName result =
     \<lparr>res_type = type_catalog,
      score = score_or_zero result,
      res_source = payload_prop (hit_payload result) ''source'',
      res_content = payload_prop (hit_payload result) ''overview'',
      res_metadata =
        \<lparr>md_collection = collectionName, md_chunk_index = None, md_chunk_total = None,
         md_overview = Some (payload_prop (hit_payload result) ''overview'')\<rparr>\<rparr>"

definition chunk_result :: "string \<Rightarrow> ScoredPoint \<Rightarrow> SearchResult" where
  "chunk_result collectionName result =
     \<lparr>res_type = type_chunk,
      score = score_or_zero result,
      res_source = payload_prop (hit_payload result) ''source'',
      res_content = payload_prop (hit_payload result) ''chunk_content'',
      res_metadata =
        \<lparr>md_collection = collectionName,
         md_chunk_index = Some (payload_prop (hit_payload result) ''chunk_index''),
         md_chunk_total = Some (payload_prop (hit_payload result) ''chunk_total''),
         md_overview = None\<rparr>\<rparr>"

definition QdrantPersistence_searchCatalog ::
  "environment \<Rightarrow> string \<Rightarrow> string \<Rightarrow> jsnum \<Rightarrow> world
     \<Rightarrow> (error + SearchResult list) \<times> world" where
  "QdrantPersistence_searchCatalog env query client limit w =
     (case freshClient env of
        Inl e \<Rightarrow> (Inl e, w)
      | Inr _ \<Rightarrow>
          (let collectionName = client @ ''_catalog'' in
           case embedQuery env query w of
             (Inl e, w1) \<Rightarrow> (Inl e, w1)
           | (Inr queryVector, w1) \<Rightarrow>
               (case client_search env collectionName
                       \<lparr>sp_vector = queryVector, sp_limit = limit, sp_with_payload = True,
                        sp_filter_source = None\<rparr> w1 of
                  (Inl e, w2) \<Rightarrow> (Inl e, w2)
                | (Inr NotAnArray, w2) \<Rightarrow> (Inr [], w2)
                | (Inr (Hits results), w2) \<Rightarrow>
                    (Inr (map (catalog_result collectionName) results), w2))))"

text \<open>\<open>if (source)\<close>: the filter is added for a source that is given and not empty.\<close>

definition QdrantPersistence_searchChunks ::
  "environment \<Rightarrow> string \<Rightarrow> string \<Rightarrow> string option \<Rightarrow> jsnum \<Rightarrow> world
     \<Rightarrow> (error + SearchResult list) \<times> world" where
  "QdrantPersistence_searchChunks env query client src limit w =
     (case freshClient env of
        Inl e \<Rightarrow> (Inl e, w)
      | Inr _ \<Rightarrow>
          (let collectionName = client @ ''_chunks'' in
           case embedQuery env query w of
             (Inl e, w1) \<Rightarrow> (Inl e, w1)
           | (Inr queryVector, w1) \<Rightarrow>
               (case client_search env collectionName
                       \<lparr>sp_vector = queryVector, sp_limit = limit, sp_with_payload = True,
                        sp_filter_source =
                          (case src of None \<Rightarrow> None
                           | Some s \<Rightarrow> if s = [] then None else Some s)\<rparr> w1 of
                  (Inl e, w2) \<Rightarrow> (Inl e, w2)
                | (Inr NotAnArray, w2) \<Rightarrow> (Inr [], w2)
                | (Inr (Hits results), w2) \<Rightarrow>
                    (Inr (map (chunk_result collectionName) results), w2))))"

text \<open>
  \<open>results.sort((a, b) => b.score - a.score)\<close>: the sort of the language is stable, and
  the sign of the difference of two finite scores is the sign of their comparison.
\<close>

definition sort_by_score :: "SearchResult list \<Rightarrow> SearchResult list" where
  "sort_by_score results = sort_key (\<lambda>r. - score r) results"

text \<open>
  The loop of \<open>searchAllChunks\<close> over the chunk collections: a failed search is caught
  and the loop goes on, an answer that is not an array is skipped.
\<close>

fun searchAllChunks_loop ::
  "environment \<Rightarrow> vector \<Rightarrow> jsnum \<Rightarrow> nat \<Rightarrow> CollectionConfig list \<Rightarrow> SearchResult list \<Rightarrow> world
     \<Rightarrow> SearchResult list \<times> world" where
  "searchAllChunks_loop env queryVector limit n [] results w = (results, w)"
| "searchAllChunks_loop env queryVector limit n (collection # rest) results w =
     (case client_search env (cc_name collection)
             \<lparr>sp_vector = queryVector, sp_limit = Math_ceil (js_div_length limit n),
              sp_with_payload = True, sp_filter_source = None\<rparr> w of
        (Inl e, w1) \<Rightarrow> searchAllChunks_loop env queryVector limit n rest results w1
      | (Inr NotAnArray, w1) \<Rightarrow> searchAllChunks_loop env queryVector limit n rest results w1
      | (Inr (Hits collectionResults), w1) \<Rightarrow>
          searchAllChunks_loop env queryVector limit n rest
            (results @ map (chunk_result (cc_name collection)) collectionResults) w1)"

definition chunkCollections :: "QdrantPersistence \<Rightarrow> CollectionConfig list" where
  "chunkCollections this = filter (\<lambda>c. cc_type c = chunks_t) (Map_values (registry this))"

definition QdrantPersistence_searchAllChunks ::
  "environment \<Rightarrow> string \<Rightarrow> jsnum \<Rightarrow> QdrantPersistence \<Rightarrow> world
     \<Rightarrow> (error + SearchResult list) \<times> world" where
  "QdrantPersistence_searchAllChunks env query limit this w =
     (case freshClient env of
        Inl e \<Rightarrow> (Inl e, w)
      | Inr _ \<Rightarrow>
          (case embedQuery env query w of
             (Inl e, w1) \<Rightarrow> (Inr [], w1)
           | (Inr queryVector, w1) \<Rightarrow>
               if chunkCollections this = [] then (Inr [], w1)
               else
                 (case searchAllChunks_loop env queryVector limit
                         (length (chunkCollections this)) (chunkCollections this) [] w1 of
                    (results, w2) \<Rightarrow> (Inr (slice0 limit (sort_by_score results)), w2))))"

section \<open>RagManager (index.ts)\<close>

record RagManager =
  qdrant :: QdrantPersistence

definition RagManager_new :: "environment \<Rightarrow> world \<Rightarrow> (error + RagManager) \<times> world" where
  "RagManager_new env w =
     (case QdrantPersistence_new env w of
        (Inl e, w1) \<Rightarrow> (Inl e, w1)
      | (Inr q, w1) \<Rightarrow> (Inr \<lparr>qdrant = q\<rparr>, w1))"

text \<open>\<open>if (client)\<close>: a client that is absent or the empty string is falsy.\<close>

definition truthy :: "string option \<Rightarrow> bool" where
  "truthy c = (case c of None \<Rightarrow> False | Some s \<Rightarrow> s \<noteq> [])"

fun searchCatalog_loop ::
  "environment \<Rightarrow> string \<Rightarrow> jsnum \<Rightarrow> string list \<Rightarrow> SearchResult list \<Rightarrow> world
     \<Rightarrow> SearchResult list \<times> world" where
  "searchCatalog_loop env query limit [] results w = (results, w)"
| "searchCatalog_loop env query limit (clientName # rest) results w =
     (case QdrantPersistence_searchCatalog env query clientName
             (Math_ceil (js_div_length limit (length (clients env)))) w of
        (Inl e, w1) \<Rightarrow> searchCatalog_loop env query limit rest results w1
      | (Inr clientResults, w1) \<Rightarrow>
          searchCatalog_loop env query limit rest (results @ clientResults) w1)"

definition RagManager_searchCatalog ::
  "environment \<Rightarrow> string \<Rightarrow> string option \<Rightarrow> jsnum \<Rightarrow> world
     \<Rightarrow> (error + SearchResult list) \<times> world" where
  "RagManager_searchCatalog env query client limit w =
     (if truthy client then QdrantPersistence_searchCatalog env query (the client) limit w
      else
        (case searchCatalog_loop env query limit (clients env) [] w of
           (results, w1) \<Rightarrow> (Inr (slice0 limit (sort_by_score results)), w1)))"

fun searchChunks_loop ::
  "environment \<Rightarrow> string \<Rightarrow> string option \<Rightarrow> jsnum \<Rightarrow> string list \<Rightarrow> SearchResult list \<Rightarrow> world
     \<Rightarrow> SearchResult list \<times> world" where
  "searchChunks_loop env query src limit [] results w = (results, w)"
| "searchChunks_loop env query src limit (clientName # rest) results w =
     (case QdrantPersistence_searchChunks env query clientName src
             (Math_ceil (js_div_length limit (length (clients env)))) w of
        (Inl e, w1) \<Rightarrow> searchChunks_loop env query src limit rest results w1
      | (Inr clientResults, w1) \<Rightarrow>
          searchChunks_loop env query src limit rest (results @ clientResults) w1)"

definition RagManager_searchChunks ::
  "environment \<Rightarrow> string \<Rightarrow> string option \<Rightarrow> string option \<Rightarrow> jsnum \<Rightarrow> world
     \<Rightarrow> (error + SearchResult list) \<times> world" where
  "RagManager_searchChunks env query client src limit w =
     (if truthy client then QdrantPersistence_searchChunks env query (the client) src limit w
      else
        (case searchChunks_loop env query src limit (clients env) [] w of
           (results, w1) \<Rightarrow> (Inr (slice0 limit (sort_by_score results)), w1)))"

definition RagManager_searchAllChunks ::
  "environment \<Rightarrow> string \<Rightarrow> jsnum \<Rightarrow> RagManager \<Rightarrow> world
     \<Rightarrow> (error + SearchResult list) \<times> world" where
  "RagManager_searchAllChunks env query limit this w =
     (case QdrantPersistence_searchAllChunks env query limit (qdrant this) w of
        (Inl e, w1) \<Rightarrow> (Inr [], w1)
      | (Inr results, w1) \<Rightarrow> (Inr results, w1))"

section \<open>The searches as the request handler calls them\<close>

text \<open>
  The request handler of index.ts validates the arguments of a search tool and calls the
  manager with the fields of the validated request, the limit defaulting to 10.
\<close>

definition catalog_search ::
  "environment \<Rightarrow> CatalogSearchRequest \<Rightarrow> world \<Rightarrow> (error + SearchResult list) \<times> world" where
  "catalog_search env validated w =
     RagManager_searchCatalog env (cat_query validated) (cat_client validated)
       (limit_or_default (cat_limit validated)) w"

definition chunks_search ::
  "environment \<Rightarrow> ChunksSearchRequest \<Rightarrow> world \<Rightarrow> (error + SearchResult list) \<times> world" where
  "chunks_search env validated w =
     RagManager_searchChunks env (chk_query validated) (chk_client validated)
       (chk_source validated) (limit_or_default (chk_limit validated)) w"

definition all_chunks_search ::
  "environment \<Rightarrow> AllChunksSearchRequest \<Rightarrow> RagManager \<Rightarrow> world
     \<Rightarrow> (error + SearchResult list) \<times> world" where
  "all_chunks_search env validated this w =
     RagManager_searchAllChunks env (all_query validated)
       (limit_or_default (all_limit validated)) this w"

section \<open>Start of the server\<close>

text \<open>
  config.ts ends the process with exit code 1 when \<open>QDRANT_URL\<close> is missing or empty;
  otherwise the module creates the server, whose constructor creates the manager and with
  it the persistence layer, outside any handler: an exception there is uncaught.
\<close>

datatype startup = Exit nat | Uncaught error | Constructed RagManager

definition startup :: "environment \<Rightarrow> world \<Rightarrow> startup \<times> world" where
  "startup env w =
     (if (case QDRANT_URL env of None \<Rightarrow> True | Some u \<Rightarrow> u = []) then (Exit 1, w)
      else
        (case RagManager_new env w of
           (Inl e, w1) \<Rightarrow> (Uncaught e, w1)
         | (Inr m, w1) \<Rightarrow> (Constructed m, w1)))"

section \<open>Observing a run\<close>

text \<open>
  The calls issued between two worlds; the calls that \<open>connect\<close> makes (contacting the
  store for its collections, and waiting); the point ids of the upserts and the collections
  named by the searches among a run of calls.
\<close>

definition issued :: "world \<Rightarrow> world \<Rightarrow> call list" where
  "issued w w' = drop (length (log w)) (log w')"

fun is_connecting :: "call \<Rightarrow> bool" where
  "is_connecting GetCollections = True"
| "is_connecting (Sleep _) = True"
| "is_connecting _ = False"

fun upsert_ids :: "call list \<Rightarrow> nat list" where
  "upsert_ids [] = []"
| "upsert_ids (Upsert name pid pt # cs) = pid # upsert_ids cs"
| "upsert_ids (c # cs) = upsert_ids cs"

fun search_names :: "call list \<Rightarrow> string list" where
  "search_names [] = []"
| "search_names (Search name p # cs) = name # search_names cs"
| "search_names (c # cs) = search_names cs"

text \<open>The value of a run of bytes read as one unsigned big-endian number.\<close>

definition be_value :: "8 word list \<Rightarrow> nat" where
  "be_value bytes = foldl (\<lambda>acc b. acc * 256 + unat b) 0 bytes"

text \<open>
  What a search makes of the store's answer, the request it sends (the query vector, the
  limit, payloads wanted, and the source filter when a source is given), and the calls of
  one single-tenant search: the embedding, then the search.
\<close>

definition chunk_answer :: "string \<Rightarrow> error + search_response \<Rightarrow> error + SearchResult list" where
  "chunk_answer name r =
     (case r of Inl e \<Rightarrow> Inl e | Inr NotAnArray \<Rightarrow> Inr []
      | Inr (Hits results) \<Rightarrow> Inr (map (chunk_result name) results))"

definition catalog_answer :: "string \<Rightarrow> error + search_response \<Rightarrow> error + SearchResult list" where
  "catalog_answer name r =
     (case r of Inl e \<Rightarrow> Inl e | Inr NotAnArray \<Rightarrow> Inr []
      | Inr (Hits results) \<Rightarrow> Inr (map (catalog_result name) results))"

definition search_request :: "vector \<Rightarrow> jsnum \<Rightarrow> string option \<Rightarrow> search_params" where
  "search_request v lmt src =
     \<lparr>sp_vector = v, sp_limit = lmt, sp_with_payload = True,
      sp_filter_source = (case src of None \<Rightarrow> None | Some s \<Rightarrow> if s = [] then None else Some s)\<rparr>"

definition chunk_calls :: "environment \<Rightarrow> string \<Rightarrow> string \<Rightarrow> string option \<Rightarrow> jsnum \<Rightarrow> call list" where
  "chunk_calls env q client src lmt =
     (case freshClient env of
        Inl e \<Rightarrow> []
      | Inr _ \<Rightarrow>
          (case embedding env q of
             Inl e \<Rightarrow> [Embed q]
           | Inr v \<Rightarrow> [Embed q, Search (client @ ''_chunks'') (search_request v lmt src)]))"

definition catalog_calls :: "environment \<Rightarrow> string \<Rightarrow> string \<Rightarrow> jsnum \<Rightarrow> call list" where
  "catalog_calls env q client lmt =
     (case freshClient env of
        Inl e \<Rightarrow> []
      | Inr _ \<Rightarrow>
          (case embedding env q of
             Inl e \<Rightarrow> [Embed q]
           | Inr v \<Rightarrow> [Embed q, Search (client @ ''_catalog'') (search_request v lmt None)]))"

text \<open>
  What a fan-out keeps of one tenant (its results, or nothing when its search failed), and
  a list sorted by descending score.
\<close>

definition hits_or_nothing :: "error + 'a list \<Rightarrow> 'a list" where
  "hits_or_nothing r = (case r of Inl e \<Rightarrow> [] | Inr results \<Rightarrow> results)"

definition descending :: "SearchResult list \<Rightarrow> bool" where
  "descending results = sorted_wrt (\<lambda>a b. score b \<le> score a) results"

text \<open>
  A persistence object whose registry is the one its constructor builds, and a store URL
  that is missing or begins with neither scheme.
\<close>

definition configured :: "environment \<Rightarrow> QdrantPersistence \<Rightarrow> bool" where
  "configured env this \<longleftrightarrow>
     registry this = fold (\<lambda>c m. Map_set (cc_name c) c m) (collections (clients env)) []"

definition invalid_store_URL :: "string option \<Rightarrow> bool" where
  "invalid_store_URL u =
     (case u of None \<Rightarrow> True
      | Some url \<Rightarrow> \<not> startsWith url ''http://'' \<and> \<not> startsWith url ''https://'')"

section \<open>Concrete inputs\<close>

text \<open>
  Two tenants; a store that refuses the first two connection attempts and answers a search
  with every point of the collection, scored by its id; stand-ins for the digest and the
  embedding. Then an object as the constructor leaves it, an empty store, and a store with
  two chunks of one tenant and one of the other.
\<close>

definition demo_env :: environment where
  "demo_env =
     \<lparr>QDRANT_URL = Some ''http://localhost:6333'',
      clients = [''work'', ''personal''],
      URL_fault = (\<lambda>_. None),
      sha256 = (\<lambda>s. push_bit 224 (of_nat (length s))),
      embedding = (\<lambda>t. Inr [of_nat (length t)]),
      getCollections_fault = (\<lambda>n. if n < 2 then Some (Error ''fetch failed'') else None),
      upsert_fault = (\<lambda>_ _. None),
      similarity = (\<lambda>name c p.
        Inr (Hits (map (\<lambda>(i, pt). \<lparr>hit_id = i, hit_score = Some (1 / of_nat (Suc i)),
                                   hit_payload = Some (pt_payload pt)\<rparr>) c))),
      now = ''2024-01-01T00:00:00.000Z''\<rparr>"

definition demo_this :: QdrantPersistence where
  "demo_this =
     \<lparr>initialized = False,
      registry = fold (\<lambda>c m. Map_set (cc_name c) c m) (collections (clients demo_env)) []\<rparr>"

definition demo_world :: world where
  "demo_world =
     \<lparr>store = [''work_catalog'' \<mapsto> [], ''work_chunks'' \<mapsto> [],
               ''personal_catalog'' \<mapsto> [], ''personal_chunks'' \<mapsto> []],
      log = []\<rparr>"

definition seeded_world :: world where
  "seeded_world =
     \<lparr>store =
        [''work_catalog'' \<mapsto> [],
         ''work_chunks'' \<mapsto>
           [(4, \<lparr>pt_vector = [1], pt_payload = [(''source'', JStr ''w1.md'')]\<rparr>),
            (9, \<lparr>pt_vector = [3], pt_payload = [(''source'', JStr ''w3.md'')]\<rparr>)],
         ''personal_catalog'' \<mapsto> [],
         ''personal_chunks'' \<mapsto>
           [(6, \<lparr>pt_vector = [2], pt_payload = [(''source'', JStr ''p2.md'')]\<rparr>)]],
      log = []\<rparr>"

text \<open>
  Variations: a store that never answers, an embedding backend that is down, a store whose
  search of one tenant's chunk collection times out, and a later run.
\<close>

definition unreachable_env :: environment where
  "unreachable_env = demo_env\<lparr>getCollections_fault := (\<lambda>n. Some (Error ''fetch failed''))\<rparr>"

definition down_env :: environment where
  "down_env =
     demo_env\<lparr>embedding :=
       (\<lambda>t. Inl (Error ''LM Studio embeddings failed: Service Unavailable''))\<rparr>"

definition failing_env :: environment where
  "failing_env =
     demo_env\<lparr>similarity := (\<lambda>name c p.
       if name = ''work_chunks'' then Inl (Error ''timeout'') else similarity demo_env name c p)\<rparr>"

definition later_env :: environment where
  "later_env = demo_env\<lparr>now := ''2025-06-01T00:00:00.000Z''\<rparr>"

text \<open>A document, its only chunk, and the same document with new content.\<close>

definition demo_entry :: CatalogEntry where
  "demo_entry =
     \<lparr>source = ''docs/a.md'', hash = ''9f86d081'', content = ''alpha beta'',
      created_at = None, overview = ''about alpha''\<rparr>"

definition demo_chunk :: DocumentChunk where
  "demo_chunk =
     \<lparr>source = ''docs/a.md'', hash = ''9f86d081'', content = ''alpha beta'',
      created_at = None, chunk_index = 0, chunk_total = 1, chunk_content = ''alpha beta''\<rparr>"

definition revised_entry :: CatalogEntry where
  "revised_entry = demo_entry\<lparr>content := ''gamma delta'', hash := ''60303ae2''\<rparr>"

text \<open>Argument records of the search tools.\<close>

definition args_with_unknown_client :: args where
  "args_with_unknown_client = [''query'' \<mapsto> JStr ''notes'', ''client'' \<mapsto> JStr ''nobody'']"

definition args_with_zero_limit :: args where
  "args_with_zero_limit = [''query'' \<mapsto> JStr ''notes'', ''limit'' \<mapsto> JNum (Fin 0)]"

definition args_query_only :: args where
  "args_query_only = [''query'' \<mapsto> JStr ''notes'']"

definition args_well_formed :: args where
  "args_well_formed =
     [''query'' \<mapsto> JStr ''notes'', ''client'' \<mapsto> JStr ''work'',
      ''source'' \<mapsto> JStr ''a.md'', ''limit'' \<mapsto> JNum (Fin 5)]"

section \<open>Properties of request validation\<close>

lemma check_client_throws:
  "throws (check_client cs v) \<longleftrightarrow> supplied v \<and> \<not> configured_client cs v"
  by (cases v) (simp_all add: check_client_def throws_def supplied_def configured_client_def)

lemma check_limit_throws:
  "throws (check_limit v) \<longleftrightarrow> supplied v \<and> limit_out_of_range v"
  by (cases v) (simp_all add: check_limit_def throws_def supplied_def limit_out_of_range_def)

lemma check_source_throws:
  "throws (check_source v) \<longleftrightarrow> supplied v \<and> \<not> is_string v"
  by (cases v) (simp_all add: check_source_def throws_def supplied_def is_string_def)

lemma check_client_returns:
  "check_client cs v = Inr r \<Longrightarrow>
     carried_str v r \<and> (\<forall>c. r = Some c \<longrightarrow> c \<in> set cs)"
  by (cases v) (auto simp: check_client_def carried_str_def split: if_splits)

lemma check_source_returns: "check_source v = Inr r \<Longrightarrow> carried_str v r"
  by (cases v) (auto simp: check_source_def carried_str_def)

lemma check_limit_returns:
  "check_limit v = Inr r \<Longrightarrow>
     carried_num v r \<and> (\<forall>n. r = Some n \<longrightarrow> \<not> js_lt n (Fin 1) \<and> \<not> js_gt n (Fin 100))"
  by (cases v) (auto simp: check_limit_def carried_num_def split: if_splits)

lemma validateCatalog_throws:
  "throws (validateCatalogSearchRequest cs a) \<longleftrightarrow>
     \<not> is_string (property a ''query'')
     \<or> throws (check_client cs (property a ''client''))
     \<or> throws (check_limit (property a ''limit''))"
  by (cases "property a ''query''")
     (simp_all add: validateCatalogSearchRequest_def is_string_def throws_def split: sum.splits)

lemma validateChunks_throws:
  "throws (validateChunksSearchRequest cs a) \<longleftrightarrow>
     \<not> is_string (property a ''query'')
     \<or> throws (check_client cs (property a ''client''))
     \<or> throws (check_source (property a ''source''))
     \<or> throws (check_limit (property a ''limit''))"
  by (cases "property a ''query''")
     (auto simp: validateChunksSearchRequest_def is_string_def throws_def split: sum.splits)

lemma validateAllChunks_throws:
  "throws (validateAllChunksSearchRequest a) \<longleftrightarrow>
     \<not> is_string (property a ''query'') \<or> throws (check_limit (property a ''limit''))"
  by (cases "property a ''query''")
     (simp_all add: validateAllChunksSearchRequest_def is_string_def throws_def split: sum.splits)

lemma validateCatalog_returns:
  assumes "validateCatalogSearchRequest cs a = Inr r"
  shows "property a ''query'' = JStr (cat_query r)
       \<and> check_client cs (property a ''client'') = Inr (cat_client r)
       \<and> check_limit (property a ''limit'') = Inr (cat_limit r)"
  using assms
  by (cases "property a ''query''")
     (auto simp: validateCatalogSearchRequest_def split: sum.splits)

lemma validateChunks_returns:
  assumes "validateChunksSearchRequest cs a = Inr r"
  shows "property a ''query'' = JStr (chk_query r)
       \<and> check_client cs (property a ''client'') = Inr (chk_client r)
       \<and> check_source (property a ''source'') = Inr (chk_source r)
       \<and> check_limit (property a ''limit'') = Inr (chk_limit r)"
  using assms
  by (cases "property a ''query''")
     (auto simp: validateChunksSearchRequest_def split: sum.splits)

lemma validateAllChunks_returns:
  assumes "validateAllChunksSearchRequest a = Inr r"
  shows "property a ''query'' = JStr (all_query r)
       \<and> check_limit (property a ''limit'') = Inr (all_limit r)"
  using assms
  by (cases "property a ''query''")
     (auto simp: validateAllChunksSearchRequest_def split: sum.splits)

text \<open>
  Claim C3, as the code has it. The catalog and chunk validators throw exactly when the
  query is not a string, a supplied client is not a configured client, a supplied limit is
  out of range (not a number, below 1 or above 100), or, for the chunk validator, a
  supplied source is not a string. The cross-tenant validator throws exactly when the query
  is not a string or a supplied limit is out of range: it never reads a client property,
  and its request has no client. Every returned request holds the arguments it was given,
  unchanged; a client in it is a configured client and a limit in it has passed the two
  comparisons of the range check.
\<close>

theorem validation_at_query_boundary:
  "(throws (validateCatalogSearchRequest cs a) \<longleftrightarrow>
      \<not> is_string (property a ''query'')
      \<or> (supplied (property a ''client'') \<and> \<not> configured_client cs (property a ''client''))
      \<or> (supplied (property a ''limit'') \<and> limit_out_of_range (property a ''limit'')))
 \<and> (throws (validateChunksSearchRequest cs a) \<longleftrightarrow>
      \<not> is_string (property a ''query'')
      \<or> (supplied (property a ''client'') \<and> \<not> configured_client cs (property a ''client''))
      \<or> (supplied (property a ''source'') \<and> \<not> is_string (property a ''source''))
      \<or> (supplied (property a ''limit'') \<and> limit_out_of_range (property a ''limit'')))
 \<and> (throws (validateAllChunksSearchRequest a) \<longleftrightarrow>
      \<not> is_string (property a ''query'')
      \<or> (supplied (property a ''limit'') \<and> limit_out_of_range (property a ''limit'')))
 \<and> validateAllChunksSearchRequest (a(''client'' := v)) = validateAllChunksSearchRequest a
 \<and> (\<forall>r. validateCatalogSearchRequest cs a = Inr r \<longrightarrow>
        property a ''query'' = JStr (cat_query r)
      \<and> carried_str (property a ''client'') (cat_client r)
      \<and> carried_num (property a ''limit'') (cat_limit r)
      \<and> (\<forall>c. cat_client r = Some c \<longrightarrow> c \<in> set cs)
      \<and> (\<forall>n. cat_limit r = Some n \<longrightarrow> \<not> js_lt n (Fin 1) \<and> \<not> js_gt n (Fin 100)))
 \<and> (\<forall>r. validateChunksSearchRequest cs a = Inr r \<longrightarrow>
        property a ''query'' = JStr (chk_query r)
      \<and> carried_str (property a ''client'') (chk_client r)
      \<and> carried_str (property a ''source'') (chk_source r)
      \<and> carried_num (property a ''limit'') (chk_limit r)
      \<and> (\<forall>c. chk_client r = Some c \<longrightarrow> c \<in> set cs)
      \<and> (\<forall>n. chk_limit r = Some n \<longrightarrow> \<not> js_lt n (Fin 1) \<and> \<not> js_gt n (Fin 100)))
 \<and> (\<forall>r. validateAllChunksSearchRequest a = Inr r \<longrightarrow>
        property a ''query'' = JStr (all_query r)
      \<and> carried_num (property a ''limit'') (all_limit r)
      \<and> (\<forall>n. all_limit r = Some n \<longrightarrow> \<not> js_lt n (Fin 1) \<and> \<not> js_gt n (Fin 100)))"
proof -
  have t1: "throws (validateCatalogSearchRequest cs a) \<longleftrightarrow>
      \<not> is_string (property a ''query'')
      \<or> (supplied (property a ''client'') \<and> \<not> configured_client cs (property a ''client''))
      \<or> (supplied (property a ''limit'') \<and> limit_out_of_range (property a ''limit''))"
    by (simp only: validateCatalog_throws check_client_throws check_limit_throws)
  have t2: "throws (validateChunksSearchRequest cs a) \<longleftrightarrow>
      \<not> is_string (property a ''query'')
      \<or> (supplied (property a ''client'') \<and> \<not> configured_client cs (property a ''client''))
      \<or> (supplied (property a ''source'') \<and> \<not> is_string (property a ''source''))
      \<or> (supplied (property a ''limit'') \<and> limit_out_of_range (property a ''limit''))"
    by (simp only: validateChunks_throws check_client_throws check_limit_throws
        check_source_throws)
  have t3: "throws (validateAllChunksSearchRequest a) \<longleftrightarrow>
      \<not> is_string (property a ''query'')
      \<or> (supplied (property a ''limit'') \<and> limit_out_of_range (property a ''limit''))"
    by (simp only: validateAllChunks_throws check_limit_throws)
  have t4: "validateAllChunksSearchRequest (a(''client'' := v)) = validateAllChunksSearchRequest a"
  proof -
    have p: "property (a(''client'' := v)) ''limit'' = property a ''limit''"
            "property (a(''client'' := v)) ''query'' = property a ''query''"
      by (simp_all add: property_def)
    show ?thesis unfolding validateAllChunksSearchRequest_def p ..
  qed
  have r1: "\<forall>r. validateCatalogSearchRequest cs a = Inr r \<longrightarrow>
        property a ''query'' = JStr (cat_query r)
      \<and> carried_str (property a ''client'') (cat_client r)
      \<and> carried_num (property a ''limit'') (cat_limit r)
      \<and> (\<forall>c. cat_client r = Some c \<longrightarrow> c \<in> set cs)
      \<and> (\<forall>n. cat_limit r = Some n \<longrightarrow> \<not> js_lt n (Fin 1) \<and> \<not> js_gt n (Fin 100))"
    using validateCatalog_returns check_client_returns check_limit_returns by blast
  have r2: "\<forall>r. validateChunksSearchRequest cs a = Inr r \<longrightarrow>
        property a ''query'' = JStr (chk_query r)
      \<and> carried_str (property a ''client'') (chk_client r)
      \<and> carried_str (property a ''source'') (chk_source r)
      \<and> carried_num (property a ''limit'') (chk_limit r)
      \<and> (\<forall>c. chk_client r = Some c \<longrightarrow> c \<in> set cs)
      \<and> (\<forall>n. chk_limit r = Some n \<longrightarrow> \<not> js_lt n (Fin 1) \<and> \<not> js_gt n (Fin 100))"
    using validateChunks_returns check_client_returns check_limit_returns check_source_returns
    by blast
  have r3: "\<forall>r. validateAllChunksSearchRequest a = Inr r \<longrightarrow>
        property a ''query'' = JStr (all_query r)
      \<and> carried_num (property a ''limit'') (all_limit r)
      \<and> (\<forall>n. all_limit r = Some n \<longrightarrow> \<not> js_lt n (Fin 1) \<and> \<not> js_gt n (Fin 100))"
    using validateAllChunks_returns check_limit_returns by blast
  from t1 t2 t3 t4 r1 r2 r3 show ?thesis by (intro conjI)
qed

text \<open>
  Claim C3 as stated fails on the cross-tenant validator: given a client that is not
  configured, it returns a request (without the client) instead of throwing.
\<close>

theorem validation_unknown_client_counterexample:
  "supplied (property args_with_unknown_client ''client'')
   \<and> \<not> configured_client [''work'', ''personal''] (property args_with_unknown_client ''client'')
   \<and> \<not> throws (validateAllChunksSearchRequest args_with_unknown_client)
   \<and> validateAllChunksSearchRequest args_with_unknown_client
       = Inr \<lparr>all_query = ''notes'', all_limit = None\<rparr>"
  by (simp add: args_with_unknown_client_def property_def supplied_def configured_client_def
      validateAllChunksSearchRequest_def check_limit_def throws_def)

theorem validation_at_query_boundary_witness:
  "supplied (property args_with_unknown_client ''client'')
   \<and> \<not> configured_client [''work'', ''personal''] (property args_with_unknown_client ''client'')
   \<and> throws (validateCatalogSearchRequest [''work'', ''personal''] args_with_unknown_client)
   \<and> throws (validateChunksSearchRequest [''work'', ''personal''] args_with_unknown_client)
   \<and> validateAllChunksSearchRequest (args_with_unknown_client(''client'' := None))
       = validateAllChunksSearchRequest args_with_unknown_client"
proof -
  have h: "supplied (property args_with_unknown_client ''client'')
      \<and> \<not> configured_client [''work'', ''personal''] (property args_with_unknown_client ''client'')"
    by (simp add: args_with_unknown_client_def property_def supplied_def configured_client_def)
  show ?thesis
    using h validation_at_query_boundary
      [of "[''work'', ''personal'']" args_with_unknown_client None]
    by blast
qed

text \<open>
  The range check is made of the two comparisons of the source, and both are false on
  \<open>NaN\<close>: a limit that is \<open>NaN\<close> is handed on.
\<close>

lemma check_limit_NaN: "check_limit (JNum NaN) = Inr (Some NaN)"
  by (simp add: check_limit_def js_gt_def)

lemma validate_well_formed:
  "validateChunksSearchRequest [''work'', ''personal''] args_well_formed
     = Inr \<lparr>chk_query = ''notes'', chk_client = Some ''work'',
            chk_source = Some ''a.md'', chk_limit = Some (Fin 5)\<rparr>"
  by (simp add: args_well_formed_def property_def validateChunksSearchRequest_def
      check_client_def check_limit_def check_source_def js_gt_def)

lemma validate_zero_limit:
  "validateCatalogSearchRequest [''work'', ''personal''] args_with_zero_limit
     = Inl (Error ''Limit must be a number between 1 and 100'')"
  by (simp add: args_with_zero_limit_def property_def validateCatalogSearchRequest_def
      check_client_def check_limit_def js_gt_def)


section \<open>Connecting to the store\<close>

lemma attempts_logged [simp]:
  "attempts (logged c w) = (if is_GetCollections c then Suc (attempts w) else attempts w)"
  by (simp add: attempts_def logged_def)

lemma log_logged [simp]: "log (logged c w) = log w @ [c]"
  by (simp add: logged_def)

lemma store_logged [simp]: "store (logged c w) = store w"
  by (simp add: logged_def)

lemma connect_loop_1:
  "connect_loop env (Suc 0) d this w =
     (case getCollections_fault env (attempts w) of
        None \<Rightarrow> (Inr (), this\<lparr>initialized := True\<rparr>, logged GetCollections w)
      | Some e \<Rightarrow> (Inl (Error (''Failed to connect to Qdrant: '' @ message e)), this,
                   logged GetCollections w))"
  by (simp add: client_getCollections_def split: option.splits)

lemma connect_loop_Suc:
  "connect_loop env (Suc (Suc r)) d this w =
     (case getCollections_fault env (attempts w) of
        None \<Rightarrow> (Inr (), this\<lparr>initialized := True\<rparr>, logged GetCollections w)
      | Some e \<Rightarrow> connect_loop env (Suc r) (d * 2) this (sleep d (logged GetCollections w)))"
  by (simp add: client_getCollections_def split: option.splits)

lemma connect_unfold:
  "connect env this w =
    (if initialized this then (Inr (), this, w) else
     (case getCollections_fault env (attempts w) of
        None \<Rightarrow> (Inr (), this\<lparr>initialized := True\<rparr>, w\<lparr>log := log w @ [GetCollections]\<rparr>)
      | Some e1 \<Rightarrow>
       (case getCollections_fault env (attempts w + 1) of
          None \<Rightarrow> (Inr (), this\<lparr>initialized := True\<rparr>,
                    w\<lparr>log := log w @ [GetCollections, Sleep 2000, GetCollections]\<rparr>)
        | Some e2 \<Rightarrow>
         (case getCollections_fault env (attempts w + 2) of
            None \<Rightarrow> (Inr (), this\<lparr>initialized := True\<rparr>,
               w\<lparr>log := log w @ [GetCollections, Sleep 2000, GetCollections, Sleep 4000, GetCollections]\<rparr>)
          | Some e3 \<Rightarrow> (Inl (Error (''Failed to connect to Qdrant: '' @ message e3)), this,
               w\<lparr>log := log w @ [GetCollections, Sleep 2000, GetCollections, Sleep 4000, GetCollections]\<rparr>)))))"
proof -
  have 3: "(3::nat) = Suc (Suc (Suc 0))" by simp
  show ?thesis
    unfolding connect_def 3 connect_loop_Suc connect_loop_1
    by (simp add: sleep_def logged_def attempts_def split: option.splits)
qed

lemma attempts_append:
  "attempts (w\<lparr>log := log w @ cs\<rparr>) = attempts w + length (filter is_GetCollections cs)"
  by (simp add: attempts_def)

text \<open>
  Claim C7. Once initialized, \<open>connect\<close> returns at once and contacts nothing. Otherwise
  it makes at most three attempts: it returns on the first that succeeds, having set
  \<open>initialized\<close>; it waits 2000 ms after a first failure and 4000 ms after a second;
  and after a third failure it throws, without a further wait, leaving \<open>initialized\<close>
  unset.
\<close>

theorem connect_bounded_retry:
  "(initialized this \<longrightarrow> connect env this w = (Inr (), this, w))
 \<and> (\<not> initialized this \<longrightarrow>
      (getCollections_fault env (attempts w) = None \<longrightarrow>
         connect env this w
           = (Inr (), this\<lparr>initialized := True\<rparr>, w\<lparr>log := log w @ [GetCollections]\<rparr>))
    \<and> (\<forall>e1. getCollections_fault env (attempts w) = Some e1
           \<and> getCollections_fault env (attempts w + 1) = None \<longrightarrow>
         connect env this w
           = (Inr (), this\<lparr>initialized := True\<rparr>,
              w\<lparr>log := log w @ [GetCollections, Sleep 2000, GetCollections]\<rparr>))
    \<and> (\<forall>e1 e2. getCollections_fault env (attempts w) = Some e1
           \<and> getCollections_fault env (attempts w + 1) = Some e2
           \<and> getCollections_fault env (attempts w + 2) = None \<longrightarrow>
         connect env this w
           = (Inr (), this\<lparr>initialized := True\<rparr>,
              w\<lparr>log := log w @ [GetCollections, Sleep 2000, GetCollections, Sleep 4000,
                                GetCollections]\<rparr>))
    \<and> (\<forall>e1 e2 e3. getCollections_fault env (attempts w) = Some e1
           \<and> getCollections_fault env (attempts w + 1) = Some e2
           \<and> getCollections_fault env (attempts w + 2) = Some e3 \<longrightarrow>
         connect env this w
           = (Inl (Error (''Failed to connect to Qdrant: '' @ message e3)), this,
              w\<lparr>log := log w @ [GetCollections, Sleep 2000, GetCollections, Sleep 4000,
                                GetCollections]\<rparr>)))
 \<and> attempts (snd (snd (connect env this w))) \<le> attempts w + 3"
proof -
  have bound: "attempts (snd (snd (connect env this w))) \<le> attempts w + 3"
    by (simp add: connect_unfold attempts_append split: option.splits)
  show ?thesis
    using bound by (simp add: connect_unfold)
qed

theorem connect_bounded_retry_witness:
  "\<not> initialized demo_this
   \<and> getCollections_fault demo_env (attempts demo_world) = Some (Error ''fetch failed'')
   \<and> getCollections_fault demo_env (attempts demo_world + 1) = Some (Error ''fetch failed'')
   \<and> getCollections_fault demo_env (attempts demo_world + 2) = None
   \<and> connect demo_env demo_this demo_world
       = (Inr (), demo_this\<lparr>initialized := True\<rparr>,
          demo_world\<lparr>log := log demo_world @ [GetCollections, Sleep 2000, GetCollections,
                                              Sleep 4000, GetCollections]\<rparr>)
   \<and> connect demo_env (demo_this\<lparr>initialized := True\<rparr>) demo_world
       = (Inr (), demo_this\<lparr>initialized := True\<rparr>, demo_world)"
proof -
  have h: "\<not> initialized demo_this
      \<and> getCollections_fault demo_env (attempts demo_world) = Some (Error ''fetch failed'')
      \<and> getCollections_fault demo_env (attempts demo_world + 1) = Some (Error ''fetch failed'')
      \<and> getCollections_fault demo_env (attempts demo_world + 2) = None"
    by (simp add: demo_this_def demo_env_def demo_world_def attempts_def)
  have i: "initialized (demo_this\<lparr>initialized := True\<rparr>)" by simp
  show ?thesis
    using h i connect_bounded_retry [of demo_this demo_env demo_world]
      connect_bounded_retry [of "demo_this\<lparr>initialized := True\<rparr>" demo_env demo_world]
    by blast
qed

section \<open>Construction\<close>

lemma QdrantPersistence_new_world: "snd (QdrantPersistence_new env w) = w"
  by (simp add: QdrantPersistence_new_def split: option.splits)

lemma RagManager_new_world: "snd (RagManager_new env w) = w"
  using QdrantPersistence_new_world [of env w]
  by (auto simp: RagManager_new_def split: prod.splits sum.splits)

lemma QdrantPersistence_new_invalid:
  "invalid_store_URL (QDRANT_URL env) \<Longrightarrow> throws (fst (QdrantPersistence_new env w))"
  by (auto simp: invalid_store_URL_def QdrantPersistence_new_def throws_def split: option.splits)

text \<open>
  Claim C8. With a store URL that is missing or begins with neither \<open>http://\<close> nor
  \<open>https://\<close>, the constructor of the persistence layer throws, and so does the
  constructor of the manager that creates it; the server is never constructed, and no call
  has been made to the store or to the embedding backend.
\<close>

theorem invalid_store_URL_is_fatal:
  assumes "invalid_store_URL (QDRANT_URL env)"
  shows "throws (fst (QdrantPersistence_new env w))
       \<and> snd (QdrantPersistence_new env w) = w
       \<and> throws (fst (RagManager_new env w))
       \<and> snd (RagManager_new env w) = w
       \<and> (\<forall>m. fst (startup env w) \<noteq> Constructed m)
       \<and> snd (startup env w) = w"
proof -
  have 1: "throws (fst (QdrantPersistence_new env w))"
    using assms by (rule QdrantPersistence_new_invalid)
  then have 2: "throws (fst (RagManager_new env w))"
    by (auto simp: RagManager_new_def throws_def split: prod.splits sum.splits)
  then have 3: "\<forall>m. fst (startup env w) \<noteq> Constructed m"
    by (auto simp: startup_def throws_def split: prod.splits sum.splits)
  have 4: "snd (startup env w) = w"
    using RagManager_new_world [of env w]
    by (auto simp: startup_def split: prod.splits sum.splits)
  from 1 2 3 4 show ?thesis
    by (simp add: QdrantPersistence_new_world RagManager_new_world)
qed

theorem invalid_store_URL_is_fatal_witness:
  "invalid_store_URL (QDRANT_URL (demo_env\<lparr>QDRANT_URL := Some ''localhost:6333''\<rparr>))
   \<and> QdrantPersistence_new (demo_env\<lparr>QDRANT_URL := Some ''localhost:6333''\<rparr>) demo_world
       = (Inl (Error ''QDRANT_URL must start with http:// or https://''), demo_world)
   \<and> throws (fst (RagManager_new (demo_env\<lparr>QDRANT_URL := Some ''localhost:6333''\<rparr>) demo_world))
   \<and> log (snd (startup (demo_env\<lparr>QDRANT_URL := Some ''localhost:6333''\<rparr>) demo_world)) = []"
proof -
  have h: "invalid_store_URL (QDRANT_URL (demo_env\<lparr>QDRANT_URL := Some ''localhost:6333''\<rparr>))"
    by (simp add: invalid_store_URL_def startsWith_def)
  have e: "QdrantPersistence_new (demo_env\<lparr>QDRANT_URL := Some ''localhost:6333''\<rparr>) demo_world
       = (Inl (Error ''QDRANT_URL must start with http:// or https://''), demo_world)"
    by (simp add: QdrantPersistence_new_def startsWith_def)
  have l: "log demo_world = []" by (simp add: demo_world_def)
  show ?thesis
    using h e l
      invalid_store_URL_is_fatal [OF h, of demo_world]
    by simp
qed

section \<open>The point id\<close>

lemma length_digest: "length (digest d) = 32"
  by (simp add: digest_def)

lemma four_bytes:
  assumes "4 \<le> length xs"
  obtains a b c d rest where "xs = a # b # c # d # rest"
proof -
  from assms obtain a xs1 where 1: "xs = a # xs1" "3 \<le> length xs1" by (cases xs) auto
  then obtain b xs2 where 2: "xs1 = b # xs2" "2 \<le> length xs2" by (cases xs1) auto
  then obtain c xs3 where 3: "xs2 = c # xs3" "1 \<le> length xs3" by (cases xs2) auto
  then obtain d xs4 where 4: "xs3 = d # xs4" by (cases xs3) auto
  from 1 2 3 4 have "xs = a # b # c # d # xs4" by simp
  then show ?thesis by (rule that)
qed

lemma take4_Cons: "take 4 (a # b # c # d # rest) = [a, b, c, d]"
proof -
  have "take (Suc (Suc (Suc (Suc 0)))) (a # b # c # d # rest) = [a, b, c, d]" by simp
  moreover have "(4::nat) = Suc (Suc (Suc (Suc 0)))" by simp
  ultimately show ?thesis by metis
qed

lemma readUInt32BE_Cons:
  "readUInt32BE (a # b # c # d # rest) 0
     = Inr (unat a * 2 ^ 24 + unat b * 2 ^ 16 + unat c * 2 ^ 8 + unat d)"
proof -
  have n: "(a # b # c # d # rest) ! 0 = a" "(a # b # c # d # rest) ! 1 = b"
    "(a # b # c # d # rest) ! 2 = c" "(a # b # c # d # rest) ! 3 = d"
    by (simp_all add: nth_Cons')
  show ?thesis unfolding readUInt32BE_def using n by simp
qed

lemma be_value4: "be_value [a, b, c, d] = unat a * 2 ^ 24 + unat b * 2 ^ 16 + unat c * 2 ^ 8 + unat d"
  by (simp add: be_value_def)

lemma readUInt32BE_be_value:
  assumes "4 \<le> length buffer"
  shows "readUInt32BE buffer 0 = Inr (be_value (take 4 buffer))"
proof -
  from assms obtain a b c d rest where "buffer = a # b # c # d # rest" by (rule four_bytes)
  then show ?thesis by (simp only: readUInt32BE_Cons take4_Cons be_value4)
qed

lemma byte_bound: "unat (b :: 8 word) < 256"
  using unsigned_less [of b, where ?'a = nat] by simp

lemma be_value4_bound: "be_value [a, b, c, d] < 2 ^ 32"
  using byte_bound [of a] byte_bound [of b] byte_bound [of c] byte_bound [of d]
  by (simp add: be_value4)

lemma be_value_take4_bound:
  assumes "4 \<le> length buffer"
  shows "be_value (take 4 buffer) < 2 ^ 32"
proof -
  from assms obtain a b c d rest where "buffer = a # b # c # d # rest" by (rule four_bytes)
  then show ?thesis by (simp only: take4_Cons be_value4_bound)
qed

lemma hashString_value:
  "hashString env s = Inr (be_value (take 4 (digest (sha256 env s))))"
  by (simp add: hashString_def readUInt32BE_be_value length_digest)

lemma hashString_bound: "hashString env s = Inr n \<Longrightarrow> n < 2 ^ 32"
  using be_value_take4_bound [of "digest (sha256 env s)"]
  by (simp add: hashString_value length_digest)

lemma hashString_collision: "\<exists>s1 s2. s1 \<noteq> s2 \<and> hashString env s1 = hashString env s2"
proof (rule ccontr)
  assume "\<not> ?thesis"
  then have inj: "inj (hashString env)" by (auto simp: inj_on_def)
  have "range (hashString env) \<subseteq> Inr ` {..< 2 ^ 32}"
  proof
    fix x assume "x \<in> range (hashString env)"
    then obtain s where x: "x = hashString env s" by auto
    with hashString_value obtain n where n: "x = Inr n" by metis
    moreover from n x have "n < 2 ^ 32" using hashString_bound [of env s n] by simp
    ultimately show "x \<in> Inr ` {..< 2 ^ 32}" by blast
  qed
  then have "finite (range (hashString env))" by (rule finite_subset) simp
  with inj have "finite (UNIV :: string set)" by (rule finite_imageD [rotated]) 
  then show False using infinite_UNIV_listI by blast
qed


section \<open>Writing to the store\<close>

lemma connect_effect:
  assumes "connect env this w = (r, this1, w1)"
  shows "registry this1 = registry this \<and> store w1 = store w
       \<and> (\<exists>cs. log w1 = log w @ cs \<and> (\<forall>c \<in> set cs. is_connecting c))
       \<and> (r = Inr () \<longrightarrow> initialized this1)
       \<and> (\<forall>e. r = Inl e \<longrightarrow> this1 = this)"
  using assms
  by (auto simp: connect_unfold split: if_splits option.splits)

lemma issued_append: "log w1 = log w @ cs \<Longrightarrow> issued w w1 = cs"
  by (simp add: issued_def)

lemma log_embedQuery:
  "embedQuery env t w = (r, w1) \<Longrightarrow> log w1 = log w @ [Embed t] \<and> store w1 = store w \<and> r = embedding env t"
  by (auto simp: embedQuery_def)

lemma client_upsert_effect:
  assumes "client_upsert env name pid pt w = (r, w1)"
  shows "log w1 = log w @ [Upsert name pid pt]
       \<and> (\<forall>n. n \<noteq> name \<longrightarrow> store w1 n = store w n)
       \<and> (throws r \<longrightarrow> store w1 = store w)
       \<and> (\<not> throws r \<longrightarrow> (\<exists>c. store w name = Some c \<and> store w1 name = Some (AList.update pid pt c)))"
  using assms
  by (auto simp: client_upsert_def Let_def throws_def split: option.splits)

lemma hashString_Inr: "\<exists>pid. hashString env s = Inr pid"
  by (simp add: hashString_value)

lemma storeCatalogEntry_unfold:
  assumes "connect env this w = (rc, this1, w1)"
  shows "storeCatalogEntry env entry client this w =
    (case rc of
       Inl e \<Rightarrow> (Inl e, this1, w1)
     | Inr _ \<Rightarrow>
        if \<not> Map_has (registry this) (client @ ''_catalog'')
        then (Inl (Error (''Collection not found: '' @ client @ ''_catalog'')), this1, w1)
        else
          (case embedding env (overview entry) of
             Inl e \<Rightarrow> (Inl e, this1, logged (Embed (overview entry)) w1)
           | Inr v \<Rightarrow>
               (fst (client_upsert env (client @ ''_catalog'')
                       (be_value (take 4 (digest (sha256 env (source entry)))))
                       (catalog_point env entry v) (logged (Embed (overview entry)) w1)),
                this1,
                snd (client_upsert env (client @ ''_catalog'')
                       (be_value (take 4 (digest (sha256 env (source entry)))))
                       (catalog_point env entry v) (logged (Embed (overview entry)) w1)))))"
  using assms connect_effect [OF assms]
  by (simp add: storeCatalogEntry_def embedQuery_def hashString_value
      split: sum.splits prod.splits)

lemma storeDocumentChunk_unfold:
  assumes "connect env this w = (rc, this1, w1)"
  shows "storeDocumentChunk env chunk client this w =
    (case rc of
       Inl e \<Rightarrow> (Inl e, this1, w1)
     | Inr _ \<Rightarrow>
        if \<not> Map_has (registry this) (client @ ''_chunks'')
        then (Inl (Error (''Collection not found: '' @ client @ ''_chunks'')), this1, w1)
        else
          (case embedding env (chunk_content chunk) of
             Inl e \<Rightarrow> (Inl e, this1, logged (Embed (chunk_content chunk)) w1)
           | Inr v \<Rightarrow>
               (fst (client_upsert env (client @ ''_chunks'')
                       (be_value (take 4 (digest (sha256 env
                          (source chunk @ ''-'' @ decimal (chunk_index chunk))))))
                       (chunk_point env chunk v) (logged (Embed (chunk_content chunk)) w1)),
                this1,
                snd (client_upsert env (client @ ''_chunks'')
                       (be_value (take 4 (digest (sha256 env
                          (source chunk @ ''-'' @ decimal (chunk_index chunk))))))
                       (chunk_point env chunk v) (logged (Embed (chunk_content chunk)) w1)))))"
  using assms connect_effect [OF assms]
  by (simp add: storeDocumentChunk_def embedQuery_def hashString_value
      split: sum.splits prod.splits)

lemma client_upsert_log [simp]:
  "log (snd (client_upsert env name pid pt w)) = log w @ [Upsert name pid pt]"
  by (simp add: client_upsert_def Let_def split: option.splits)

lemma client_upsert_other:
  "n \<noteq> name \<Longrightarrow> store (snd (client_upsert env name pid pt w)) n = store w n"
  by (simp add: client_upsert_def Let_def split: option.splits)

lemma client_upsert_throws:
  "throws (fst (client_upsert env name pid pt w)) \<Longrightarrow>
     store (snd (client_upsert env name pid pt w)) = store w"
  by (simp add: client_upsert_def Let_def throws_def split: option.splits)

lemma client_upsert_returns:
  "\<not> throws (fst (client_upsert env name pid pt w)) \<Longrightarrow>
     \<exists>c. store w name = Some c
       \<and> store (snd (client_upsert env name pid pt w)) name = Some (AList.update pid pt c)"
  by (simp add: client_upsert_def Let_def throws_def split: option.splits)

lemma throws_simps [simp]: "throws (Inl e)" "\<not> throws (Inr x)"
  by (simp_all add: throws_def)

lemma storeCatalogEntry_effect:
  assumes run: "storeCatalogEntry env entry client this w = (r, this2, w2)"
  defines "name \<equiv> client @ ''_catalog''"
  defines "pid \<equiv> be_value (take 4 (digest (sha256 env (source entry))))"
  shows "registry this2 = registry this"
    and "\<forall>n. n \<noteq> name \<longrightarrow> store w2 n = store w n"
    and "throws r \<longrightarrow> store w2 = store w"
    and "\<exists>cs. log w2 = log w @ cs
          \<and> (\<forall>c \<in> set cs. is_connecting c \<or> c = Embed (overview entry)
                \<or> (\<exists>v. c = Upsert name pid (catalog_point env entry v)))"
    and "\<not> Map_has (registry this) name \<longrightarrow>
           throws r \<and> (\<exists>cs. log w2 = log w @ cs \<and> (\<forall>c \<in> set cs. is_connecting c))"
    and "\<not> throws r \<longrightarrow>
           (\<exists>c v. store w name = Some c \<and> embedding env (overview entry) = Inr v
              \<and> store w2 name = Some (AList.update pid (catalog_point env entry v) c))"
proof -
  obtain rc this1 w1 where c: "connect env this w = (rc, this1, w1)"
    by (cases "connect env this w") auto
  note ce = connect_effect [OF c]
  note u = storeCatalogEntry_unfold [OF c, of entry client, folded name_def pid_def]
  from ce obtain cs where cs: "log w1 = log w @ cs" "\<forall>c \<in> set cs. is_connecting c" by blast
  from ce have st: "store w1 = store w" and rg: "registry this1 = registry this" by simp_all
  let ?w1' = "logged (Embed (overview entry)) w1"
  consider
      (down) e where "rc = Inl e" "r = Inl e" "this2 = this1" "w2 = w1"
    | (unknown) "rc = Inr ()" "\<not> Map_has (registry this) name" "throws r" "this2 = this1" "w2 = w1"
    | (noembed) e where "rc = Inr ()" "Map_has (registry this) name"
        "embedding env (overview entry) = Inl e" "r = Inl e" "this2 = this1" "w2 = ?w1'"
    | (upsert) v where "rc = Inr ()" "Map_has (registry this) name"
        "embedding env (overview entry) = Inr v"
        "r = fst (client_upsert env name pid (catalog_point env entry v) ?w1')"
        "this2 = this1"
        "w2 = snd (client_upsert env name pid (catalog_point env entry v) ?w1')"
    using run unfolding u by (cases rc; cases "embedding env (overview entry)"; auto split: if_splits)
  note cases = this
  show "registry this2 = registry this"
    by (rule cases) (simp_all add: rg)
  show "\<forall>n. n \<noteq> name \<longrightarrow> store w2 n = store w n"
    by (rule cases) (simp_all add: st client_upsert_other)
  show "throws r \<longrightarrow> store w2 = store w"
    by (rule cases) (simp_all add: st client_upsert_throws)
  show "\<exists>cs. log w2 = log w @ cs
          \<and> (\<forall>c \<in> set cs. is_connecting c \<or> c = Embed (overview entry)
                \<or> (\<exists>v. c = Upsert name pid (catalog_point env entry v)))"
  proof (rule cases)
    fix e assume "rc = Inl e" "r = Inl e" "this2 = this1" "w2 = w1"
    with cs show ?thesis by auto
  next
    assume "w2 = w1"
    with cs show ?thesis by auto
  next
    fix e assume "w2 = ?w1'"
    with cs have "log w2 = log w @ (cs @ [Embed (overview entry)])" by simp
    moreover have "\<forall>c \<in> set (cs @ [Embed (overview entry)]). is_connecting c \<or> c = Embed (overview entry)
                \<or> (\<exists>v. c = Upsert name pid (catalog_point env entry v))"
      using cs by auto
    ultimately show ?thesis by blast
  next
    fix v assume "w2 = snd (client_upsert env name pid (catalog_point env entry v) ?w1')"
    with cs have "log w2 = log w @ (cs @ [Embed (overview entry), Upsert name pid (catalog_point env entry v)])"
      by simp
    moreover have "\<forall>c \<in> set (cs @ [Embed (overview entry), Upsert name pid (catalog_point env entry v)]).
                is_connecting c \<or> c = Embed (overview entry)
                \<or> (\<exists>v. c = Upsert name pid (catalog_point env entry v))"
      using cs by auto
    ultimately show ?thesis by blast
  qed
  show "\<not> Map_has (registry this) name \<longrightarrow>
           throws r \<and> (\<exists>cs. log w2 = log w @ cs \<and> (\<forall>c \<in> set cs. is_connecting c))"
    using cs by (rule_tac cases) auto
  show "\<not> throws r \<longrightarrow>
           (\<exists>c v. store w name = Some c \<and> embedding env (overview entry) = Inr v
              \<and> store w2 name = Some (AList.update pid (catalog_point env entry v) c))"
  proof (rule cases)
    fix v assume a: "embedding env (overview entry) = Inr v"
        "r = fst (client_upsert env name pid (catalog_point env entry v) ?w1')"
        "w2 = snd (client_upsert env name pid (catalog_point env entry v) ?w1')"
    show ?thesis
    proof
      assume "\<not> throws r"
      with a client_upsert_returns [of env name pid "catalog_point env entry v" ?w1']
      show "\<exists>c v. store w name = Some c \<and> embedding env (overview entry) = Inr v
              \<and> store w2 name = Some (AList.update pid (catalog_point env entry v) c)"
        by (simp add: st)
    qed
  qed simp_all
qed

lemma storeDocumentChunk_effect:
  assumes run: "storeDocumentChunk env chunk client this w = (r, this2, w2)"
  defines "name \<equiv> client @ ''_chunks''"
  defines "pid \<equiv> be_value (take 4 (digest (sha256 env (source chunk @ ''-'' @ decimal (chunk_index chunk)))))"
  shows "registry this2 = registry this"
    and "\<forall>n. n \<noteq> name \<longrightarrow> store w2 n = store w n"
    and "throws r \<longrightarrow> store w2 = store w"
    and "\<exists>cs. log w2 = log w @ cs
          \<and> (\<forall>c \<in> set cs. is_connecting c \<or> c = Embed (chunk_content chunk)
                \<or> (\<exists>v. c = Upsert name pid (chunk_point env chunk v)))"
    and "\<not> Map_has (registry this) name \<longrightarrow>
           throws r \<and> (\<exists>cs. log w2 = log w @ cs \<and> (\<forall>c \<in> set cs. is_connecting c))"
    and "\<not> throws r \<longrightarrow>
           (\<exists>c v. store w name = Some c \<and> embedding env (chunk_content chunk) = Inr v
              \<and> store w2 name = Some (AList.update pid (chunk_point env chunk v) c))"
proof -
  obtain rc this1 w1 where c: "connect env this w = (rc, this1, w1)"
    by (cases "connect env this w") auto
  note ce = connect_effect [OF c]
  note u = storeDocumentChunk_unfold [OF c, of chunk client, folded name_def pid_def]
  from ce obtain cs where cs: "log w1 = log w @ cs" "\<forall>c \<in> set cs. is_connecting c" by blast
  from ce have st: "store w1 = store w" and rg: "registry this1 = registry this" by simp_all
  let ?w1' = "logged (Embed (chunk_content chunk)) w1"
  consider
      (down) e where "rc = Inl e" "r = Inl e" "this2 = this1" "w2 = w1"
    | (unknown) "rc = Inr ()" "\<not> Map_has (registry this) name" "throws r" "this2 = this1" "w2 = w1"
    | (noembed) e where "rc = Inr ()" "Map_has (registry this) name"
        "embedding env (chunk_content chunk) = Inl e" "r = Inl e" "this2 = this1" "w2 = ?w1'"
    | (upsert) v where "rc = Inr ()" "Map_has (registry this) name"
        "embedding env (chunk_content chunk) = Inr v"
        "r = fst (client_upsert env name pid (chunk_point env chunk v) ?w1')"
        "this2 = this1"
        "w2 = snd (client_upsert env name pid (chunk_point env chunk v) ?w1')"
    using run unfolding u by (cases rc; cases "embedding env (chunk_content chunk)"; auto split: if_splits)
  note cases = this
  show "registry this2 = registry this"
    by (rule cases) (simp_all add: rg)
  show "\<forall>n. n \<noteq> name \<longrightarrow> store w2 n = store w n"
    by (rule cases) (simp_all add: st client_upsert_other)
  show "throws r \<longrightarrow> store w2 = store w"
    by (rule cases) (simp_all add: st client_upsert_throws)
  show "\<exists>cs. log w2 = log w @ cs
          \<and> (\<forall>c \<in> set cs. is_connecting c \<or> c = Embed (chunk_content chunk)
                \<or> (\<exists>v. c = Upsert name pid (chunk_point env chunk v)))"
  proof (rule cases)
    fix e assume "rc = Inl e" "r = Inl e" "this2 = this1" "w2 = w1"
    with cs show ?thesis by auto
  next
    assume "w2 = w1"
    with cs show ?thesis by auto
  next
    fix e assume "w2 = ?w1'"
    with cs have "log w2 = log w @ (cs @ [Embed (chunk_content chunk)])" by simp
    moreover have "\<forall>c \<in> set (cs @ [Embed (chunk_content chunk)]). is_connecting c \<or> c = Embed (chunk_content chunk)
                \<or> (\<exists>v. c = Upsert name pid (chunk_point env chunk v))"
      using cs by auto
    ultimately show ?thesis by blast
  next
    fix v assume "w2 = snd (client_upsert env name pid (chunk_point env chunk v) ?w1')"
    with cs have "log w2 = log w @ (cs @ [Embed (chunk_content chunk), Upsert name pid (chunk_point env chunk v)])"
      by simp
    moreover have "\<forall>c \<in> set (cs @ [Embed (chunk_content chunk), Upsert name pid (chunk_point env chunk v)]).
                is_connecting c \<or> c = Embed (chunk_content chunk)
                \<or> (\<exists>v. c = Upsert name pid (chunk_point env chunk v))"
      using cs by auto
    ultimately show ?thesis by blast
  qed
  show "\<not> Map_has (registry this) name \<longrightarrow>
           throws r \<and> (\<exists>cs. log w2 = log w @ cs \<and> (\<forall>c \<in> set cs. is_connecting c))"
    using cs by (rule_tac cases) auto
  show "\<not> throws r \<longrightarrow>
           (\<exists>c v. store w name = Some c \<and> embedding env (chunk_content chunk) = Inr v
              \<and> store w2 name = Some (AList.update pid (chunk_point env chunk v) c))"
  proof (rule cases)
    fix v assume a: "embedding env (chunk_content chunk) = Inr v"
        "r = fst (client_upsert env name pid (chunk_point env chunk v) ?w1')"
        "w2 = snd (client_upsert env name pid (chunk_point env chunk v) ?w1')"
    show ?thesis
    proof
      assume "\<not> throws r"
      with a client_upsert_returns [of env name pid "chunk_point env chunk v" ?w1']
      show "\<exists>c v. store w name = Some c \<and> embedding env (chunk_content chunk) = Inr v
              \<and> store w2 name = Some (AList.update pid (chunk_point env chunk v) c)"
        by (simp add: st)
    qed
  qed simp_all
qed

section \<open>Searching one tenant\<close>

lemma client_search_store [simp]: "store (snd (client_search env name p w)) = store w"
  by (simp add: client_search_def split: option.splits)

lemma client_search_log [simp]: "log (snd (client_search env name p w)) = log w @ [Search name p]"
  by (simp add: client_search_def split: option.splits)

lemma client_search_reads:
  "store w name = store w' name \<Longrightarrow>
     fst (client_search env name p w) = fst (client_search env name p w')"
  by (simp add: client_search_def split: option.splits)

lemma searchChunks_unfold:
  "QdrantPersistence_searchChunks env q client src lmt w =
     (case freshClient env of
        Inl e \<Rightarrow> (Inl e, w)
      | Inr _ \<Rightarrow>
          (case embedding env q of
             Inl e \<Rightarrow> (Inl e, logged (Embed q) w)
           | Inr v \<Rightarrow>
               (chunk_answer (client @ ''_chunks'')
                  (fst (client_search env (client @ ''_chunks'') (search_request v lmt src)
                         (logged (Embed q) w))),
                snd (client_search env (client @ ''_chunks'') (search_request v lmt src)
                       (logged (Embed q) w)))))"
  by (auto simp: QdrantPersistence_searchChunks_def Let_def embedQuery_def chunk_answer_def
      search_request_def split: sum.splits prod.splits search_response.splits)

lemma searchCatalog_unfold:
  "QdrantPersistence_searchCatalog env q client lmt w =
     (case freshClient env of
        Inl e \<Rightarrow> (Inl e, w)
      | Inr _ \<Rightarrow>
          (case embedding env q of
             Inl e \<Rightarrow> (Inl e, logged (Embed q) w)
           | Inr v \<Rightarrow>
               (catalog_answer (client @ ''_catalog'')
                  (fst (client_search env (client @ ''_catalog'') (search_request v lmt None)
                         (logged (Embed q) w))),
                snd (client_search env (client @ ''_catalog'') (search_request v lmt None)
                       (logged (Embed q) w)))))"
  by (auto simp: QdrantPersistence_searchCatalog_def Let_def embedQuery_def catalog_answer_def
      search_request_def split: sum.splits prod.splits search_response.splits)

lemma searchChunks_store [simp]:
  "store (snd (QdrantPersistence_searchChunks env q client src lmt w)) = store w"
  by (simp add: searchChunks_unfold split: sum.splits)

lemma searchCatalog_store [simp]:
  "store (snd (QdrantPersistence_searchCatalog env q client lmt w)) = store w"
  by (simp add: searchCatalog_unfold split: sum.splits)

lemma searchChunks_reads:
  assumes "store w (client @ ''_chunks'') = store w' (client @ ''_chunks'')"
  shows "fst (QdrantPersistence_searchChunks env q client src lmt w)
       = fst (QdrantPersistence_searchChunks env q client src lmt w')"
proof -
  have "fst (client_search env (client @ ''_chunks'') p (logged (Embed q) w))
      = fst (client_search env (client @ ''_chunks'') p (logged (Embed q) w'))" for p
    using assms by (intro client_search_reads) simp
  then show ?thesis by (simp add: searchChunks_unfold split: sum.splits)
qed

lemma searchCatalog_reads:
  assumes "store w (client @ ''_catalog'') = store w' (client @ ''_catalog'')"
  shows "fst (QdrantPersistence_searchCatalog env q client lmt w)
       = fst (QdrantPersistence_searchCatalog env q client lmt w')"
proof -
  have "fst (client_search env (client @ ''_catalog'') p (logged (Embed q) w))
      = fst (client_search env (client @ ''_catalog'') p (logged (Embed q) w'))" for p
    using assms by (intro client_search_reads) simp
  then show ?thesis by (simp add: searchCatalog_unfold split: sum.splits)
qed

lemma searchChunks_issued:
  "issued w (snd (QdrantPersistence_searchChunks env q client src lmt w)) =
     (case freshClient env of
        Inl e \<Rightarrow> []
      | Inr _ \<Rightarrow>
          (case embedding env q of
             Inl e \<Rightarrow> [Embed q]
           | Inr v \<Rightarrow> [Embed q, Search (client @ ''_chunks'') (search_request v lmt src)]))"
  by (simp add: searchChunks_unfold issued_def split: sum.splits)

lemma searchCatalog_issued:
  "issued w (snd (QdrantPersistence_searchCatalog env q client lmt w)) =
     (case freshClient env of
        Inl e \<Rightarrow> []
      | Inr _ \<Rightarrow>
          (case embedding env q of
             Inl e \<Rightarrow> [Embed q]
           | Inr v \<Rightarrow> [Embed q, Search (client @ ''_catalog'') (search_request v lmt None)]))"
  by (simp add: searchCatalog_unfold issued_def split: sum.splits)

section \<open>Writes for unconfigured tenants\<close>

lemma demo_registry:
  "registry demo_this =
     [(''work_catalog'', \<lparr>cc_name = ''work_catalog'', cc_type = catalog_t, cc_client = ''work'',
          cc_description = Some ''Document catalog for work''\<rparr>),
      (''work_chunks'', \<lparr>cc_name = ''work_chunks'', cc_type = chunks_t, cc_client = ''work'',
          cc_description = Some ''Document chunks for work''\<rparr>),
      (''personal_catalog'', \<lparr>cc_name = ''personal_catalog'', cc_type = catalog_t,
          cc_client = ''personal'', cc_description = Some ''Document catalog for personal''\<rparr>),
      (''personal_chunks'', \<lparr>cc_name = ''personal_chunks'', cc_type = chunks_t,
          cc_client = ''personal'', cc_description = Some ''Document chunks for personal''\<rparr>)]"
  by (simp add: demo_this_def demo_env_def collections_def Map_set_def)

text \<open>
  Claim C10 as stated fails while the store cannot be reached: \<open>connect\<close> comes first,
  and the write for an unconfigured tenant then throws the connection error, not
  \<open>Collection not found\<close>.
\<close>

theorem unconfigured_write_counterexample:
  "\<not> Map_has (registry demo_this) (''nobody'' @ ''_catalog'')
   \<and> fst (storeCatalogEntry unreachable_env demo_entry ''nobody'' demo_this demo_world)
       = Inl (Error ''Failed to connect to Qdrant: fetch failed'')
   \<and> fst (storeCatalogEntry unreachable_env demo_entry ''nobody'' demo_this demo_world)
       \<noteq> Inl (Error (''Collection not found: '' @ ''nobody'' @ ''_catalog''))"
proof -
  have c: "connect unreachable_env demo_this demo_world
      = (Inl (Error ''Failed to connect to Qdrant: fetch failed''), demo_this,
         demo_world\<lparr>log := log demo_world @ [GetCollections, Sleep 2000, GetCollections,
                                             Sleep 4000, GetCollections]\<rparr>)"
    by (simp add: connect_unfold unreachable_env_def demo_this_def)
  show ?thesis
    by (simp add: storeCatalogEntry_unfold [OF c] demo_registry Map_has_def)
qed

text \<open>
  Claim C10, as the code has it. A write for a client whose catalog (respectively chunk)
  collection is not registered always throws, the only calls issued are those of
  \<open>connect\<close> (no embedding, no upsert), and the store is left as it was; the error is
  \<open>Collection not found\<close> when \<open>connect\<close> succeeds and the connection error when it
  does not. A chunk search asks the registry nothing: for any client name it embeds the
  query and, when that succeeds, sends the search to the store.
\<close>

theorem unconfigured_write_is_refused:
  "(\<not> Map_has (registry this) (client @ ''_catalog'') \<longrightarrow>
      (case storeCatalogEntry env entry client this w of
         (r, this2, w2) \<Rightarrow>
           throws r \<and> store w2 = store w \<and> (\<forall>c \<in> set (issued w w2). is_connecting c)
         \<and> (case fst (connect env this w) of
               Inl e \<Rightarrow> r = Inl e
             | Inr _ \<Rightarrow> r = Inl (Error (''Collection not found: '' @ client @ ''_catalog'')))))
 \<and> (\<not> Map_has (registry this) (client @ ''_chunks'') \<longrightarrow>
      (case storeDocumentChunk env chunk client this w of
         (r, this2, w2) \<Rightarrow>
           throws r \<and> store w2 = store w \<and> (\<forall>c \<in> set (issued w w2). is_connecting c)
         \<and> (case fst (connect env this w) of
               Inl e \<Rightarrow> r = Inl e
             | Inr _ \<Rightarrow> r = Inl (Error (''Collection not found: '' @ client @ ''_chunks'')))))
 \<and> (freshClient env = Inr () \<longrightarrow>
      issued w (snd (QdrantPersistence_searchChunks env q client src lmt w))
        = (case embedding env q of
             Inl e \<Rightarrow> [Embed q]
           | Inr v \<Rightarrow> [Embed q, Search (client @ ''_chunks'') (search_request v lmt src)]))"
proof -
  obtain rc this1 w1 where c: "connect env this w = (rc, this1, w1)"
    by (cases "connect env this w") auto
  have 1: "\<not> Map_has (registry this) (client @ ''_catalog'') \<longrightarrow>
      (case storeCatalogEntry env entry client this w of
         (r, this2, w2) \<Rightarrow>
           throws r \<and> store w2 = store w \<and> (\<forall>c \<in> set (issued w w2). is_connecting c)
         \<and> (case fst (connect env this w) of
               Inl e \<Rightarrow> r = Inl e
             | Inr _ \<Rightarrow> r = Inl (Error (''Collection not found: '' @ client @ ''_catalog''))))"
  proof
    assume h: "\<not> Map_has (registry this) (client @ ''_catalog'')"
    obtain r this2 w2 where run: "storeCatalogEntry env entry client this w = (r, this2, w2)"
      by (cases "storeCatalogEntry env entry client this w") auto
    from storeCatalogEntry_effect(3,5) [OF run] h
    have "throws r" "store w2 = store w" "\<forall>c \<in> set (issued w w2). is_connecting c"
      by (auto simp: issued_def)
    moreover have "case rc of Inl e \<Rightarrow> r = Inl e
        | Inr _ \<Rightarrow> r = Inl (Error (''Collection not found: '' @ client @ ''_catalog''))"
      using run h unfolding storeCatalogEntry_unfold [OF c] by (auto split: sum.splits)
    ultimately show "case storeCatalogEntry env entry client this w of
         (r, this2, w2) \<Rightarrow>
           throws r \<and> store w2 = store w \<and> (\<forall>c \<in> set (issued w w2). is_connecting c)
         \<and> (case fst (connect env this w) of
               Inl e \<Rightarrow> r = Inl e
             | Inr _ \<Rightarrow> r = Inl (Error (''Collection not found: '' @ client @ ''_catalog'')))"
      by (simp add: run c)
  qed
  have 2: "\<not> Map_has (registry this) (client @ ''_chunks'') \<longrightarrow>
      (case storeDocumentChunk env chunk client this w of
         (r, this2, w2) \<Rightarrow>
           throws r \<and> store w2 = store w \<and> (\<forall>c \<in> set (issued w w2). is_connecting c)
         \<and> (case fst (connect env this w) of
               Inl e \<Rightarrow> r = Inl e
             | Inr _ \<Rightarrow> r = Inl (Error (''Collection not found: '' @ client @ ''_chunks''))))"
  proof
    assume h: "\<not> Map_has (registry this) (client @ ''_chunks'')"
    obtain r this2 w2 where run: "storeDocumentChunk env chunk client this w = (r, this2, w2)"
      by (cases "storeDocumentChunk env chunk client this w") auto
    from storeDocumentChunk_effect(3,5) [OF run] h
    have "throws r" "store w2 = store w" "\<forall>c \<in> set (issued w w2). is_connecting c"
      by (auto simp: issued_def)
    moreover have "case rc of Inl e \<Rightarrow> r = Inl e
        | Inr _ \<Rightarrow> r = Inl (Error (''Collection not found: '' @ client @ ''_chunks''))"
      using run h unfolding storeDocumentChunk_unfold [OF c] by (auto split: sum.splits)
    ultimately show "case storeDocumentChunk env chunk client this w of
         (r, this2, w2) \<Rightarrow>
           throws r \<and> store w2 = store w \<and> (\<forall>c \<in> set (issued w w2). is_connecting c)
         \<and> (case fst (connect env this w) of
               Inl e \<Rightarrow> r = Inl e
             | Inr _ \<Rightarrow> r = Inl (Error (''Collection not found: '' @ client @ ''_chunks'')))"
      by (simp add: run c)
  qed
  have 3: "freshClient env = Inr () \<longrightarrow>
      issued w (snd (QdrantPersistence_searchChunks env q client src lmt w))
        = (case embedding env q of
             Inl e \<Rightarrow> [Embed q]
           | Inr v \<Rightarrow> [Embed q, Search (client @ ''_chunks'') (search_request v lmt src)])"
    by (simp add: searchChunks_issued)
  from 1 2 3 show ?thesis by blast
qed

lemma freshClient_demo: "freshClient demo_env = Inr ()"
  by (simp add: freshClient_def demo_env_def)

lemma connect_demo:
  "connect demo_env demo_this demo_world
     = (Inr (), demo_this\<lparr>initialized := True\<rparr>,
        demo_world\<lparr>log := [GetCollections, Sleep 2000, GetCollections, Sleep 4000,
                              GetCollections]\<rparr>)"
  by (simp add: connect_unfold demo_env_def demo_this_def demo_world_def attempts_def)

theorem unconfigured_write_is_refused_witness:
  "\<not> Map_has (registry demo_this) (''nobody'' @ ''_catalog'')
   \<and> \<not> Map_has (registry demo_this) (''nobody'' @ ''_chunks'')
   \<and> freshClient demo_env = Inr ()
   \<and> fst (storeCatalogEntry demo_env demo_entry ''nobody'' demo_this demo_world)
       = Inl (Error ''Collection not found: nobody_catalog'')
   \<and> store (snd (snd (storeDocumentChunk demo_env demo_chunk ''nobody'' demo_this demo_world)))
       = store demo_world
   \<and> issued demo_world
        (snd (QdrantPersistence_searchChunks demo_env ''alpha'' ''nobody'' None (Fin 5) demo_world))
       = [Embed ''alpha'', Search ''nobody_chunks'' (search_request [5] (Fin 5) None)]"
proof -
  have h: "\<not> Map_has (registry demo_this) (''nobody'' @ ''_catalog'')"
      "\<not> Map_has (registry demo_this) (''nobody'' @ ''_chunks'')"
    by (simp_all add: demo_registry Map_has_def)
  have e: "embedding demo_env ''alpha'' = Inr [5]" by (simp add: demo_env_def)
  show ?thesis
    using h freshClient_demo e
      unconfigured_write_is_refused [where this = demo_this and client = "''nobody''"
        and env = demo_env and entry = demo_entry and w = demo_world and chunk = demo_chunk
        and q = "''alpha''" and src = None and lmt = "Fin 5"]
    by (auto simp: connect_demo split: prod.splits)
qed

section \<open>Point identity of the writes\<close>

lemma upsert_ids_append [simp]: "upsert_ids (xs @ ys) = upsert_ids xs @ upsert_ids ys"
  by (induction xs rule: upsert_ids.induct) simp_all

lemma upsert_ids_connecting: "\<forall>c \<in> set cs. is_connecting c \<Longrightarrow> upsert_ids cs = []"
  by (induction cs rule: upsert_ids.induct) simp_all

lemma storeCatalogEntry_upserts:
  assumes run: "storeCatalogEntry env entry client this w = (r, this2, w2)"
  shows "upsert_ids (issued w w2) = [] \<or>
         upsert_ids (issued w w2) = [be_value (take 4 (digest (sha256 env (source entry))))]"
    and "\<not> throws r \<Longrightarrow>
         upsert_ids (issued w w2) = [be_value (take 4 (digest (sha256 env (source entry))))]"
proof -
  obtain rc this1 w1 where c: "connect env this w = (rc, this1, w1)"
    by (cases "connect env this w") auto
  from connect_effect [OF c] obtain cs where
    cs: "log w1 = log w @ cs" "\<forall>c \<in> set cs. is_connecting c" by blast
  from cs(2) have n: "upsert_ids cs = []" by (rule upsert_ids_connecting)
  have i: "issued w w1 = cs" using cs(1) by (rule issued_append)
  show "upsert_ids (issued w w2) = [] \<or>
         upsert_ids (issued w w2) = [be_value (take 4 (digest (sha256 env (source entry))))]"
    using run n cs(1) unfolding storeCatalogEntry_unfold [OF c]
    by (auto simp: issued_def split: sum.splits if_splits)
  show "upsert_ids (issued w w2) = [be_value (take 4 (digest (sha256 env (source entry))))]"
    if "\<not> throws r"
    using run n cs(1) that unfolding storeCatalogEntry_unfold [OF c]
    by (auto simp: issued_def split: sum.splits if_splits)
qed

lemma storeDocumentChunk_upserts:
  assumes run: "storeDocumentChunk env chunk client this w = (r, this2, w2)"
  shows "upsert_ids (issued w w2) = [] \<or>
         upsert_ids (issued w w2) = [be_value (take 4 (digest (sha256 env
            (source chunk @ ''-'' @ decimal (chunk_index chunk)))))]"
    and "\<not> throws r \<Longrightarrow>
         upsert_ids (issued w w2) = [be_value (take 4 (digest (sha256 env
            (source chunk @ ''-'' @ decimal (chunk_index chunk)))))]"
proof -
  obtain rc this1 w1 where c: "connect env this w = (rc, this1, w1)"
    by (cases "connect env this w") auto
  from connect_effect [OF c] obtain cs where
    cs: "log w1 = log w @ cs" "\<forall>c \<in> set cs. is_connecting c" by blast
  from cs(2) have n: "upsert_ids cs = []" by (rule upsert_ids_connecting)
  show "upsert_ids (issued w w2) = [] \<or>
         upsert_ids (issued w w2) = [be_value (take 4 (digest (sha256 env
            (source chunk @ ''-'' @ decimal (chunk_index chunk)))))]"
    using run n cs(1) unfolding storeDocumentChunk_unfold [OF c]
    by (auto simp: issued_def split: sum.splits if_splits)
  show "upsert_ids (issued w w2) = [be_value (take 4 (digest (sha256 env
            (source chunk @ ''-'' @ decimal (chunk_index chunk)))))]"
    if "\<not> throws r"
    using run n cs(1) that unfolding storeDocumentChunk_unfold [OF c]
    by (auto simp: issued_def split: sum.splits if_splits)
qed

lemma update_twice_keys:
  "map fst (AList.update k v (AList.update k v' c)) = map fst (AList.update k v' c)"
  by (simp add: update_keys)

lemma update_lookup: "map_of (AList.update k v c) k = Some v"
  by (simp add: update_conv')

lemma update_once:
  "length (filter (\<lambda>p. fst p = k) (AList.update k v c))
     = (if k \<in> fst ` set c then length (filter (\<lambda>p. fst p = k) c) else 1)"
  by (induction c) auto

lemma hashString_same_digest: "sha256 env' = sha256 env \<Longrightarrow> hashString env' s = hashString env s"
  by (simp add: hashString_def)

lemma catalog_overwrite:
  assumes run1: "storeCatalogEntry env entry client this w = (r1, this1, w1)"
    and run2: "storeCatalogEntry env' entry' client this1 w1 = (r2, this2, w2)"
    and ok: "\<not> throws r1" "\<not> throws r2"
    and same: "sha256 env' = sha256 env" "source entry' = source entry"
  shows "\<exists>c1 c2 v. store w1 (client @ ''_catalog'') = Some c1
           \<and> store w2 (client @ ''_catalog'') = Some c2
           \<and> map fst c2 = map fst c1
           \<and> map_of c2 (be_value (take 4 (digest (sha256 env (source entry)))))
               = Some (catalog_point env' entry' v)"
proof -
  from storeCatalogEntry_effect(6) [OF run1] ok(1) obtain c v where
    1: "store w1 (client @ ''_catalog'')
          = Some (AList.update (be_value (take 4 (digest (sha256 env (source entry)))))
                    (catalog_point env entry v) c)"
    by auto
  from storeCatalogEntry_effect(6) [OF run2] ok(2) obtain c' v' where
    2: "store w1 (client @ ''_catalog'') = Some c'"
       "store w2 (client @ ''_catalog'')
          = Some (AList.update (be_value (take 4 (digest (sha256 env' (source entry')))))
                    (catalog_point env' entry' v') c')"
    by auto
  from 1 2(1) have c': "c' = AList.update (be_value (take 4 (digest (sha256 env (source entry)))))
                    (catalog_point env entry v) c"
    by simp
  have k: "be_value (take 4 (digest (sha256 env' (source entry'))))
         = be_value (take 4 (digest (sha256 env (source entry))))"
    using same by simp
  have "map fst (AList.update (be_value (take 4 (digest (sha256 env (source entry)))))
                    (catalog_point env' entry' v') c') = map fst c'"
    unfolding c' by (rule update_twice_keys)
  moreover have "map_of (AList.update (be_value (take 4 (digest (sha256 env (source entry)))))
                    (catalog_point env' entry' v') c')
                  (be_value (take 4 (digest (sha256 env (source entry)))))
                = Some (catalog_point env' entry' v')"
    by (rule update_lookup)
  ultimately show ?thesis
    using 2 unfolding k by blast
qed

lemma chunk_overwrite:
  assumes run1: "storeDocumentChunk env chunk client this w = (r1, this1, w1)"
    and run2: "storeDocumentChunk env' chunk' client this1 w1 = (r2, this2, w2)"
    and ok: "\<not> throws r1" "\<not> throws r2"
    and same: "sha256 env' = sha256 env" "source chunk' = source chunk"
      "chunk_index chunk' = chunk_index chunk"
  shows "\<exists>c1 c2 v. store w1 (client @ ''_chunks'') = Some c1
           \<and> store w2 (client @ ''_chunks'') = Some c2
           \<and> map fst c2 = map fst c1
           \<and> map_of c2 (be_value (take 4 (digest (sha256 env
                 (source chunk @ ''-'' @ decimal (chunk_index chunk))))))
               = Some (chunk_point env' chunk' v)"
proof -
  from storeDocumentChunk_effect(6) [OF run1] ok(1) obtain c v where
    1: "store w1 (client @ ''_chunks'')
          = Some (AList.update (be_value (take 4 (digest (sha256 env
                 (source chunk @ ''-'' @ decimal (chunk_index chunk))))))
                    (chunk_point env chunk v) c)"
    by auto
  from storeDocumentChunk_effect(6) [OF run2] ok(2) obtain c' v' where
    2: "store w1 (client @ ''_chunks'') = Some c'"
       "store w2 (client @ ''_chunks'')
          = Some (AList.update (be_value (take 4 (digest (sha256 env'
                 (source chunk' @ ''-'' @ decimal (chunk_index chunk'))))))
                    (chunk_point env' chunk' v') c')"
    by auto
  let ?pid = "be_value (take 4 (digest (sha256 env
                 (source chunk @ ''-'' @ decimal (chunk_index chunk)))))"
  from 1 2(1) have c': "c' = AList.update ?pid (chunk_point env chunk v) c"
    by simp
  have k: "be_value (take 4 (digest (sha256 env'
                 (source chunk' @ ''-'' @ decimal (chunk_index chunk'))))) = ?pid"
    using same by simp
  have "map fst (AList.update ?pid (chunk_point env' chunk' v') c') = map fst c'"
    unfolding c' by (rule update_twice_keys)
  moreover have "map_of (AList.update ?pid (chunk_point env' chunk' v') c') ?pid
                = Some (chunk_point env' chunk' v')"
    by (rule update_lookup)
  ultimately show ?thesis
    using 2 unfolding k by blast
qed

lemma catalog_id_used:
  "case storeCatalogEntry env entry client this w of
      (r, this1, w1) \<Rightarrow>
        (\<exists>pid. hashString env (source entry) = Inr pid
           \<and> set (upsert_ids (issued w w1)) \<subseteq> {pid}
           \<and> (\<not> throws r \<longrightarrow> upsert_ids (issued w w1) = [pid]))"
proof -
  obtain r this1 w1 where run: "storeCatalogEntry env entry client this w = (r, this1, w1)"
    by (cases "storeCatalogEntry env entry client this w") auto
  let ?pid = "be_value (take 4 (digest (sha256 env (source entry))))"
  from storeCatalogEntry_upserts [OF run]
  have "set (upsert_ids (issued w w1)) \<subseteq> {?pid}"
    "\<not> throws r \<longrightarrow> upsert_ids (issued w w1) = [?pid]"
    by auto
  then have "hashString env (source entry) = Inr ?pid
           \<and> set (upsert_ids (issued w w1)) \<subseteq> {?pid}
           \<and> (\<not> throws r \<longrightarrow> upsert_ids (issued w w1) = [?pid])"
    by (simp add: hashString_value)
  then show ?thesis unfolding run prod.case by (rule exI)
qed

lemma chunk_id_used:
  "case storeDocumentChunk env chunk client this w of
      (r, this1, w1) \<Rightarrow>
        (\<exists>pid. hashString env (source chunk @ ''-'' @ decimal (chunk_index chunk)) = Inr pid
           \<and> set (upsert_ids (issued w w1)) \<subseteq> {pid}
           \<and> (\<not> throws r \<longrightarrow> upsert_ids (issued w w1) = [pid]))"
proof -
  obtain r this1 w1 where run: "storeDocumentChunk env chunk client this w = (r, this1, w1)"
    by (cases "storeDocumentChunk env chunk client this w") auto
  let ?pid = "be_value (take 4 (digest (sha256 env
                (source chunk @ ''-'' @ decimal (chunk_index chunk)))))"
  from storeDocumentChunk_upserts [OF run]
  have "set (upsert_ids (issued w w1)) \<subseteq> {?pid}"
    "\<not> throws r \<longrightarrow> upsert_ids (issued w w1) = [?pid]"
    by auto
  then have "hashString env (source chunk @ ''-'' @ decimal (chunk_index chunk)) = Inr ?pid
           \<and> set (upsert_ids (issued w w1)) \<subseteq> {?pid}
           \<and> (\<not> throws r \<longrightarrow> upsert_ids (issued w w1) = [?pid])"
    by (simp add: hashString_value)
  then show ?thesis unfolding run prod.case by (rule exI)
qed

lemma catalog_rewrite:
  assumes same: "sha256 env' = sha256 env \<and> source entry' = source entry"
  shows "hashString env' (source entry') = hashString env (source entry)
    \<and> (case storeCatalogEntry env entry client this w of
         (r1, this1, w1) \<Rightarrow>
           (case storeCatalogEntry env' entry' client this1 w1 of
              (r2, this2, w2) \<Rightarrow>
                \<not> throws r1 \<and> \<not> throws r2 \<longrightarrow>
                  (\<exists>c1 c2 pid v. hashString env (source entry) = Inr pid
                     \<and> store w1 (client @ ''_catalog'') = Some c1
                     \<and> store w2 (client @ ''_catalog'') = Some c2
                     \<and> map fst c2 = map fst c1
                     \<and> map_of c2 pid = Some (catalog_point env' entry' v))))"
proof -
  obtain r1 this1 w1 where run1: "storeCatalogEntry env entry client this w = (r1, this1, w1)"
    by (cases "storeCatalogEntry env entry client this w") auto
  obtain r2 this2 w2 where run2: "storeCatalogEntry env' entry' client this1 w1 = (r2, this2, w2)"
    by (cases "storeCatalogEntry env' entry' client this1 w1") auto
  have 1: "hashString env' (source entry') = hashString env (source entry)"
    using same by (simp add: hashString_def)
  have 2: "\<not> throws r1 \<and> \<not> throws r2 \<longrightarrow>
                  (\<exists>c1 c2 pid v. hashString env (source entry) = Inr pid
                     \<and> store w1 (client @ ''_catalog'') = Some c1
                     \<and> store w2 (client @ ''_catalog'') = Some c2
                     \<and> map fst c2 = map fst c1
                     \<and> map_of c2 pid = Some (catalog_point env' entry' v))"
  proof
    assume ok: "\<not> throws r1 \<and> \<not> throws r2"
    from catalog_overwrite [OF run1 run2] ok same obtain c1 c2 v where
      "store w1 (client @ ''_catalog'') = Some c1
           \<and> store w2 (client @ ''_catalog'') = Some c2
           \<and> map fst c2 = map fst c1
           \<and> map_of c2 (be_value (take 4 (digest (sha256 env (source entry)))))
               = Some (catalog_point env' entry' v)"
      by blast
    with hashString_value [of env "source entry"]
    show "\<exists>c1 c2 pid v. hashString env (source entry) = Inr pid
                     \<and> store w1 (client @ ''_catalog'') = Some c1
                     \<and> store w2 (client @ ''_catalog'') = Some c2
                     \<and> map fst c2 = map fst c1
                     \<and> map_of c2 pid = Some (catalog_point env' entry' v)"
      by blast
  qed
  from 1 2 show ?thesis unfolding run1 run2 prod.case by (rule conjI)
qed

lemma chunk_rewrite:
  assumes same: "sha256 env' = sha256 env \<and> source chunk' = source chunk
      \<and> chunk_index chunk' = chunk_index chunk"
  shows "hashString env' (source chunk' @ ''-'' @ decimal (chunk_index chunk'))
        = hashString env (source chunk @ ''-'' @ decimal (chunk_index chunk))
    \<and> (case storeDocumentChunk env chunk client this w of
         (r1, this1, w1) \<Rightarrow>
           (case storeDocumentChunk env' chunk' client this1 w1 of
              (r2, this2, w2) \<Rightarrow>
                \<not> throws r1 \<and> \<not> throws r2 \<longrightarrow>
                  (\<exists>c1 c2 pid v.
                       hashString env (source chunk @ ''-'' @ decimal (chunk_index chunk)) = Inr pid
                     \<and> store w1 (client @ ''_chunks'') = Some c1
                     \<and> store w2 (client @ ''_chunks'') = Some c2
                     \<and> map fst c2 = map fst c1
                     \<and> map_of c2 pid = Some (chunk_point env' chunk' v))))"
proof -
  obtain r1 this1 w1 where run1: "storeDocumentChunk env chunk client this w = (r1, this1, w1)"
    by (cases "storeDocumentChunk env chunk client this w") auto
  obtain r2 this2 w2 where run2: "storeDocumentChunk env' chunk' client this1 w1 = (r2, this2, w2)"
    by (cases "storeDocumentChunk env' chunk' client this1 w1") auto
  have 1: "hashString env' (source chunk' @ ''-'' @ decimal (chunk_index chunk'))
        = hashString env (source chunk @ ''-'' @ decimal (chunk_index chunk))"
    using same by (simp add: hashString_def)
  have 2: "\<not> throws r1 \<and> \<not> throws r2 \<longrightarrow>
                  (\<exists>c1 c2 pid v.
                       hashString env (source chunk @ ''-'' @ decimal (chunk_index chunk)) = Inr pid
                     \<and> store w1 (client @ ''_chunks'') = Some c1
                     \<and> store w2 (client @ ''_chunks'') = Some c2
                     \<and> map fst c2 = map fst c1
                     \<and> map_of c2 pid = Some (chunk_point env' chunk' v))"
  proof
    assume ok: "\<not> throws r1 \<and> \<not> throws r2"
    from chunk_overwrite [OF run1 run2] ok same obtain c1 c2 v where
      "store w1 (client @ ''_chunks'') = Some c1
           \<and> store w2 (client @ ''_chunks'') = Some c2
           \<and> map fst c2 = map fst c1
           \<and> map_of c2 (be_value (take 4 (digest (sha256 env
                 (source chunk @ ''-'' @ decimal (chunk_index chunk))))))
               = Some (chunk_point env' chunk' v)"
      by blast
    with hashString_value [of env "source chunk @ ''-'' @ decimal (chunk_index chunk)"]
    show "\<exists>c1 c2 pid v.
                       hashString env (source chunk @ ''-'' @ decimal (chunk_index chunk)) = Inr pid
                     \<and> store w1 (client @ ''_chunks'') = Some c1
                     \<and> store w2 (client @ ''_chunks'') = Some c2
                     \<and> map fst c2 = map fst c1
                     \<and> map_of c2 pid = Some (chunk_point env' chunk' v)"
      by blast
  qed
  from 1 2 show ?thesis unfolding run1 run2 prod.case by (rule conjI)
qed

lemma store_demo_entry:
  "storeCatalogEntry demo_env demo_entry ''work'' demo_this demo_world
     = (Inr (), demo_this\<lparr>initialized := True\<rparr>,
        \<lparr>store = (store demo_world)(''work_catalog'' \<mapsto>
            [(be_value (take 4 (digest (sha256 demo_env ''docs/a.md''))),
              catalog_point demo_env demo_entry [11])]),
         log = [GetCollections, Sleep 2000, GetCollections, Sleep 4000, GetCollections,
                Embed ''about alpha'',
                Upsert ''work_catalog'' (be_value (take 4 (digest (sha256 demo_env ''docs/a.md''))))
                  (catalog_point demo_env demo_entry [11])]\<rparr>)"
proof -
  have e: "embedding demo_env t = Inr [of_nat (length t)]" for t
    by (simp add: demo_env_def)
  have f: "upsert_fault demo_env n p = None" for n p by (simp add: demo_env_def)
  have s: "source demo_entry = ''docs/a.md''" "overview demo_entry = ''about alpha''"
    by (simp_all add: demo_entry_def)
  have m: "Map_has (registry demo_this) (''work'' @ ''_catalog'')"
    by (simp add: demo_registry Map_has_def)
  show ?thesis
    unfolding storeCatalogEntry_unfold [OF connect_demo]
    using m by (simp add: e f s client_upsert_def logged_def demo_world_def)
qed

text \<open>
  Claim C5. The id of the point that \<open>storeCatalogEntry\<close> upserts is \<open>hashString\<close> of
  the source path, and the id of the point that \<open>storeDocumentChunk\<close> upserts is
  \<open>hashString\<close> of the source path, a hyphen and the chunk index: no other id is ever
  upserted, and a write that succeeds upserts exactly that one. The id depends on nothing
  but the digest function, so it is the same in a later run whatever else has changed; and
  writing the same path (and chunk index) again to the same tenant leaves the collection
  with the same ids, the point under that id now being the new one (the store replacing,
  as its contract says, the point of an id that it already holds).
\<close>

theorem point_identity_is_deterministic:
  "(case storeCatalogEntry env entry client this w of
      (r, this1, w1) \<Rightarrow>
        (\<exists>pid. hashString env (source entry) = Inr pid
           \<and> set (upsert_ids (issued w w1)) \<subseteq> {pid}
           \<and> (\<not> throws r \<longrightarrow> upsert_ids (issued w w1) = [pid])))
 \<and> (case storeDocumentChunk env chunk client this w of
      (r, this1, w1) \<Rightarrow>
        (\<exists>pid. hashString env (source chunk @ ''-'' @ decimal (chunk_index chunk)) = Inr pid
           \<and> set (upsert_ids (issued w w1)) \<subseteq> {pid}
           \<and> (\<not> throws r \<longrightarrow> upsert_ids (issued w w1) = [pid])))
 \<and> (sha256 env' = sha256 env \<and> source entry' = source entry \<longrightarrow>
      hashString env' (source entry') = hashString env (source entry)
    \<and> (case storeCatalogEntry env entry client this w of
         (r1, this1, w1) \<Rightarrow>
           (case storeCatalogEntry env' entry' client this1 w1 of
              (r2, this2, w2) \<Rightarrow>
                \<not> throws r1 \<and> \<not> throws r2 \<longrightarrow>
                  (\<exists>c1 c2 pid v. hashString env (source entry) = Inr pid
                     \<and> store w1 (client @ ''_catalog'') = Some c1
                     \<and> store w2 (client @ ''_catalog'') = Some c2
                     \<and> map fst c2 = map fst c1
                     \<and> map_of c2 pid = Some (catalog_point env' entry' v)))))
 \<and> (sha256 env' = sha256 env \<and> source chunk' = source chunk
      \<and> chunk_index chunk' = chunk_index chunk \<longrightarrow>
      hashString env' (source chunk' @ ''-'' @ decimal (chunk_index chunk'))
        = hashString env (source chunk @ ''-'' @ decimal (chunk_index chunk))
    \<and> (case storeDocumentChunk env chunk client this w of
         (r1, this1, w1) \<Rightarrow>
           (case storeDocumentChunk env' chunk' client this1 w1 of
              (r2, this2, w2) \<Rightarrow>
                \<not> throws r1 \<and> \<not> throws r2 \<longrightarrow>
                  (\<exists>c1 c2 pid v.
                       hashString env (source chunk @ ''-'' @ decimal (chunk_index chunk)) = Inr pid
                     \<and> store w1 (client @ ''_chunks'') = Some c1
                     \<and> store w2 (client @ ''_chunks'') = Some c2
                     \<and> map fst c2 = map fst c1
                     \<and> map_of c2 pid = Some (chunk_point env' chunk' v)))))"
proof (intro conjI)
  show "case storeCatalogEntry env entry client this w of
      (r, this1, w1) \<Rightarrow>
        (\<exists>pid. hashString env (source entry) = Inr pid
           \<and> set (upsert_ids (issued w w1)) \<subseteq> {pid}
           \<and> (\<not> throws r \<longrightarrow> upsert_ids (issued w w1) = [pid]))"
    by (rule catalog_id_used)
  show "case storeDocumentChunk env chunk client this w of
      (r, this1, w1) \<Rightarrow>
        (\<exists>pid. hashString env (source chunk @ ''-'' @ decimal (chunk_index chunk)) = Inr pid
           \<and> set (upsert_ids (issued w w1)) \<subseteq> {pid}
           \<and> (\<not> throws r \<longrightarrow> upsert_ids (issued w w1) = [pid]))"
    by (rule chunk_id_used)
qed (rule impI, erule catalog_rewrite, rule impI, erule chunk_rewrite)

lemma connect_initialized:
  "initialized this \<Longrightarrow> connect env this w = (Inr (), this, w)"
  by (simp add: connect_def)

lemma store_revised_entry:
  "\<not> throws (fst (storeCatalogEntry later_env revised_entry ''work''
        (fst (snd (storeCatalogEntry demo_env demo_entry ''work'' demo_this demo_world)))
        (snd (snd (storeCatalogEntry demo_env demo_entry ''work'' demo_this demo_world)))))"
proof -
  have c: "connect later_env (demo_this\<lparr>initialized := True\<rparr>) w
             = (Inr (), demo_this\<lparr>initialized := True\<rparr>, w)" for w
    by (simp add: connect_initialized)
  have e: "embedding later_env t = Inr [of_nat (length t)]" for t
    by (simp add: demo_env_def later_env_def)
  have f: "upsert_fault later_env n p = None" for n p by (simp add: demo_env_def later_env_def)
  have m: "Map_has (registry demo_this) (''work'' @ ''_catalog'')"
    by (simp add: demo_registry Map_has_def)
  show ?thesis
    unfolding store_demo_entry fst_conv snd_conv storeCatalogEntry_unfold [OF c]
    using m by (simp add: e f client_upsert_def logged_def demo_world_def)
qed

theorem point_identity_is_deterministic_witness:
  "sha256 later_env = sha256 demo_env \<and> source revised_entry = source demo_entry
   \<and> \<not> throws (fst (storeCatalogEntry demo_env demo_entry ''work'' demo_this demo_world))
   \<and> \<not> throws (fst (storeCatalogEntry later_env revised_entry ''work''
        (fst (snd (storeCatalogEntry demo_env demo_entry ''work'' demo_this demo_world)))
        (snd (snd (storeCatalogEntry demo_env demo_entry ''work'' demo_this demo_world)))))
   \<and> hashString later_env (source revised_entry) = hashString demo_env (source demo_entry)
   \<and> (\<exists>c1 c2 pid v. hashString demo_env (source demo_entry) = Inr pid
        \<and> store (snd (snd (storeCatalogEntry demo_env demo_entry ''work'' demo_this demo_world)))
             (''work'' @ ''_catalog'') = Some c1
        \<and> store (snd (snd (storeCatalogEntry later_env revised_entry ''work''
             (fst (snd (storeCatalogEntry demo_env demo_entry ''work'' demo_this demo_world)))
             (snd (snd (storeCatalogEntry demo_env demo_entry ''work'' demo_this demo_world))))))
             (''work'' @ ''_catalog'') = Some c2
        \<and> map fst c2 = map fst c1
        \<and> map_of c2 pid = Some (catalog_point later_env revised_entry v))"
proof -
  have h: "sha256 later_env = sha256 demo_env \<and> source revised_entry = source demo_entry"
    by (simp add: later_env_def revised_entry_def)
  have ok1: "\<not> throws (fst (storeCatalogEntry demo_env demo_entry ''work'' demo_this demo_world))"
    by (simp add: store_demo_entry)
  note ok2 = store_revised_entry
  show ?thesis
    using h ok1 ok2
      point_identity_is_deterministic [where env = demo_env and env' = later_env
        and entry = demo_entry and entry' = revised_entry and client = "''work''"
        and this = demo_this and w = demo_world]
    by (simp add: case_prod_beta)
qed

section \<open>Tenant isolation\<close>

lemma chunks_not_catalog: "A @ ''_chunks'' \<noteq> B @ ''_catalog''"
proof
  assume "A @ ''_chunks'' = B @ ''_catalog''"
  then have "last (A @ ''_chunks'') = last (B @ ''_catalog'')" by simp
  then show False by simp
qed

lemma searchChunks_search_names:
  "set (search_names (issued w (snd (QdrantPersistence_searchChunks env q A src lmt w))))
     \<subseteq> {A @ ''_chunks''}"
  by (simp add: searchChunks_issued split: sum.splits)

lemma searchCatalog_search_names:
  "set (search_names (issued w (snd (QdrantPersistence_searchCatalog env q A lmt w))))
     \<subseteq> {A @ ''_catalog''}"
  by (simp add: searchCatalog_issued split: sum.splits)

lemma searchChunks_no_upsert:
  "upsert_ids (issued w (snd (QdrantPersistence_searchChunks env q A src lmt w))) = []"
  by (simp add: searchChunks_issued split: sum.splits)

lemma searchChunks_collection:
  "fst (QdrantPersistence_searchChunks env q A src lmt w) = Inr results \<Longrightarrow>
     \<forall>r \<in> set results. md_collection (res_metadata r) = A @ ''_chunks''"
  by (auto simp: searchChunks_unfold chunk_answer_def chunk_result_def
      split: sum.splits search_response.splits)

lemma searchCatalog_collection:
  "fst (QdrantPersistence_searchCatalog env q A lmt w) = Inr results \<Longrightarrow>
     \<forall>r \<in> set results. md_collection (res_metadata r) = A @ ''_catalog''"
  by (auto simp: searchCatalog_unfold catalog_answer_def catalog_result_def
      split: sum.splits search_response.splits)

lemma chunk_write_local:
  "case storeDocumentChunk env chunk B this w of
     (r, this1, w1) \<Rightarrow> \<forall>n. n \<noteq> B @ ''_chunks'' \<longrightarrow> store w1 n = store w n"
proof -
  obtain r this1 w1 where run: "storeDocumentChunk env chunk B this w = (r, this1, w1)"
    by (cases "storeDocumentChunk env chunk B this w") auto
  from storeDocumentChunk_effect(2) [OF run] show ?thesis by (simp add: run)
qed

lemma catalog_write_local:
  "case storeCatalogEntry env entry B this w of
     (r, this1, w1) \<Rightarrow> \<forall>n. n \<noteq> B @ ''_catalog'' \<longrightarrow> store w1 n = store w n"
proof -
  obtain r this1 w1 where run: "storeCatalogEntry env entry B this w = (r, this1, w1)"
    by (cases "storeCatalogEntry env entry B this w") auto
  from storeCatalogEntry_effect(2) [OF run] show ?thesis by (simp add: run)
qed

lemma chunk_search_after_chunk_write:
  assumes "A \<noteq> B"
  shows "fst (QdrantPersistence_searchChunks env q A src lmt
            (snd (snd (storeDocumentChunk env' chunk B this w))))
       = fst (QdrantPersistence_searchChunks env q A src lmt w)"
proof -
  from assms have "A @ ''_chunks'' \<noteq> B @ ''_chunks''" by simp
  with chunk_write_local [where env = env' and chunk = chunk and B = B and this = this and w = w]
  have "store (snd (snd (storeDocumentChunk env' chunk B this w))) (A @ ''_chunks'')
      = store w (A @ ''_chunks'')"
    by (simp add: case_prod_beta)
  then show ?thesis by (rule searchChunks_reads)
qed

lemma chunk_search_after_catalog_write:
  "fst (QdrantPersistence_searchChunks env q A src lmt
            (snd (snd (storeCatalogEntry env' entry B this w))))
       = fst (QdrantPersistence_searchChunks env q A src lmt w)"
proof -
  from catalog_write_local [where env = env' and entry = entry and B = B and this = this and w = w] chunks_not_catalog [of A B]
  have "store (snd (snd (storeCatalogEntry env' entry B this w))) (A @ ''_chunks'')
      = store w (A @ ''_chunks'')"
    by (simp add: case_prod_beta)
  then show ?thesis by (rule searchChunks_reads)
qed

lemma catalog_search_after_catalog_write:
  assumes "A \<noteq> B"
  shows "fst (QdrantPersistence_searchCatalog env q A lmt
            (snd (snd (storeCatalogEntry env' entry B this w))))
       = fst (QdrantPersistence_searchCatalog env q A lmt w)"
proof -
  from assms have "A @ ''_catalog'' \<noteq> B @ ''_catalog''" by simp
  with catalog_write_local [where env = env' and entry = entry and B = B and this = this and w = w]
  have "store (snd (snd (storeCatalogEntry env' entry B this w))) (A @ ''_catalog'')
      = store w (A @ ''_catalog'')"
    by (simp add: case_prod_beta)
  then show ?thesis by (rule searchCatalog_reads)
qed

lemma catalog_search_after_chunk_write:
  "fst (QdrantPersistence_searchCatalog env q A lmt
            (snd (snd (storeDocumentChunk env' chunk B this w))))
       = fst (QdrantPersistence_searchCatalog env q A lmt w)"
proof -
  from chunk_write_local [where env = env' and chunk = chunk and B = B and this = this and w = w] chunks_not_catalog [of B A]
  have "store (snd (snd (storeDocumentChunk env' chunk B this w))) (A @ ''_catalog'')
      = store w (A @ ''_catalog'')"
    by (simp add: case_prod_beta)
  then show ?thesis by (rule searchCatalog_reads)
qed

text \<open>
  Claim C1. A chunk search scoped to tenant \<open>A\<close> sends its search to the collection
  \<open>A_chunks\<close> and to no other, its answer is the same in any two worlds whose
  \<open>A_chunks\<close> agree, and every result names \<open>A_chunks\<close> as its collection; a
  catalog search does the same with \<open>A_catalog\<close>. A chunk written under tenant
  \<open>B\<close> changes no collection but \<open>B_chunks\<close>. Hence, for \<open>A \<noteq> B\<close>, what a
  search scoped to \<open>A\<close> returns is the same after any write under \<open>B\<close> as before
  it; and a chunk search is not affected by a catalog write of any tenant. The store is
  taken at its contract: it answers a search from the points of the collection that the
  search names.
\<close>

theorem tenant_isolation:
  "(store w (A @ ''_chunks'') = store w' (A @ ''_chunks'') \<longrightarrow>
       fst (QdrantPersistence_searchChunks env q A src lmt w)
         = fst (QdrantPersistence_searchChunks env q A src lmt w'))
 \<and> set (search_names (issued w (snd (QdrantPersistence_searchChunks env q A src lmt w))))
       \<subseteq> {A @ ''_chunks''}
 \<and> (\<forall>results. fst (QdrantPersistence_searchChunks env q A src lmt w) = Inr results \<longrightarrow>
       (\<forall>r \<in> set results. md_collection (res_metadata r) = A @ ''_chunks''))
 \<and> (store w (A @ ''_catalog'') = store w' (A @ ''_catalog'') \<longrightarrow>
       fst (QdrantPersistence_searchCatalog env q A lmt w)
         = fst (QdrantPersistence_searchCatalog env q A lmt w'))
 \<and> set (search_names (issued w (snd (QdrantPersistence_searchCatalog env q A lmt w))))
       \<subseteq> {A @ ''_catalog''}
 \<and> (\<forall>n. n \<noteq> B @ ''_chunks'' \<longrightarrow>
       store (snd (snd (storeDocumentChunk env' chunk B this w))) n = store w n)
 \<and> (A \<noteq> B \<longrightarrow>
       fst (QdrantPersistence_searchChunks env q A src lmt
              (snd (snd (storeDocumentChunk env' chunk B this w))))
         = fst (QdrantPersistence_searchChunks env q A src lmt w)
     \<and> fst (QdrantPersistence_searchCatalog env q A lmt
              (snd (snd (storeCatalogEntry env' entry B this w))))
         = fst (QdrantPersistence_searchCatalog env q A lmt w))
 \<and> fst (QdrantPersistence_searchChunks env q A src lmt
              (snd (snd (storeCatalogEntry env' entry B this w))))
         = fst (QdrantPersistence_searchChunks env q A src lmt w)"
proof (intro conjI allI impI)
  show "fst (QdrantPersistence_searchChunks env q A src lmt w)
         = fst (QdrantPersistence_searchChunks env q A src lmt w')"
    if "store w (A @ ''_chunks'') = store w' (A @ ''_chunks'')"
    using that by (rule searchChunks_reads)
  show "fst (QdrantPersistence_searchCatalog env q A lmt w)
         = fst (QdrantPersistence_searchCatalog env q A lmt w')"
    if "store w (A @ ''_catalog'') = store w' (A @ ''_catalog'')"
    using that by (rule searchCatalog_reads)
  show "store (snd (snd (storeDocumentChunk env' chunk B this w))) n = store w n"
    if "n \<noteq> B @ ''_chunks''" for n
    using that chunk_write_local [where env = env' and chunk = chunk and B = B and this = this and w = w] by (simp add: case_prod_beta)
  show "\<forall>r \<in> set results. md_collection (res_metadata r) = A @ ''_chunks''"
    if "fst (QdrantPersistence_searchChunks env q A src lmt w) = Inr results" for results
    using that by (rule searchChunks_collection)
  show "fst (QdrantPersistence_searchChunks env q A src lmt
              (snd (snd (storeDocumentChunk env' chunk B this w))))
         = fst (QdrantPersistence_searchChunks env q A src lmt w)" if "A \<noteq> B"
    using that by (rule chunk_search_after_chunk_write)
  show "fst (QdrantPersistence_searchCatalog env q A lmt
              (snd (snd (storeCatalogEntry env' entry B this w))))
         = fst (QdrantPersistence_searchCatalog env q A lmt w)" if "A \<noteq> B"
    using that by (rule catalog_search_after_catalog_write)
qed (simp_all only: searchChunks_search_names searchCatalog_search_names
     chunk_search_after_catalog_write)

lemma store_demo_chunk:
  "storeDocumentChunk demo_env demo_chunk ''personal'' demo_this demo_world
     = (Inr (), demo_this\<lparr>initialized := True\<rparr>,
        \<lparr>store = (store demo_world)(''personal_chunks'' \<mapsto>
            [(be_value (take 4 (digest (sha256 demo_env ''docs/a.md-0''))),
              chunk_point demo_env demo_chunk [10])]),
         log = [GetCollections, Sleep 2000, GetCollections, Sleep 4000, GetCollections,
                Embed ''alpha beta'',
                Upsert ''personal_chunks''
                  (be_value (take 4 (digest (sha256 demo_env ''docs/a.md-0''))))
                  (chunk_point demo_env demo_chunk [10])]\<rparr>)"
proof -
  have e: "embedding demo_env t = Inr [of_nat (length t)]" for t
    by (simp add: demo_env_def)
  have f: "upsert_fault demo_env n p = None" for n p by (simp add: demo_env_def)
  have d: "decimal 0 = ''0''" by code_simp
  have s: "source demo_chunk = ''docs/a.md''" "chunk_content demo_chunk = ''alpha beta''"
    "chunk_index demo_chunk = 0"
    by (simp_all add: demo_chunk_def)
  have m: "Map_has (registry demo_this) (''personal'' @ ''_chunks'')"
    by (simp add: demo_registry Map_has_def)
  show ?thesis
    unfolding storeDocumentChunk_unfold [OF connect_demo]
    using m by (simp add: e f s d client_upsert_def logged_def demo_world_def)
qed

lemma search_demo_work:
  "fst (QdrantPersistence_searchChunks demo_env ''alpha'' ''work'' None (Fin 5) demo_world) = Inr []"
proof -
  have e: "embedding demo_env t = Inr [of_nat (length t)]" for t
    by (simp add: demo_env_def)
  have sim: "similarity demo_env name [] p = Inr (Hits [])" for name p
    by (simp add: demo_env_def)
  show ?thesis
    by (simp add: searchChunks_unfold freshClient_demo chunk_answer_def client_search_def
      logged_def demo_world_def e sim)
qed

lemma search_demo_personal:
  "fst (QdrantPersistence_searchChunks demo_env ''alpha'' ''personal'' None (Fin 5)
         (snd (snd (storeDocumentChunk demo_env demo_chunk ''personal'' demo_this demo_world))))
   = Inr [chunk_result ''personal_chunks''
            \<lparr>hit_id = be_value (take 4 (digest (sha256 demo_env ''docs/a.md-0''))),
             hit_score = Some (1 / of_nat (Suc (be_value (take 4 (digest (sha256 demo_env ''docs/a.md-0'')))))),
             hit_payload = Some (pt_payload (chunk_point demo_env demo_chunk [10]))\<rparr>]"
proof -
  have e: "embedding demo_env t = Inr [of_nat (length t)]" for t
    by (simp add: demo_env_def)
  have sim: "similarity demo_env name c p =
       Inr (Hits (map (\<lambda>(i, pt). \<lparr>hit_id = i, hit_score = Some (1 / of_nat (Suc i)),
                                   hit_payload = Some (pt_payload pt)\<rparr>) c))" for name c p
    by (simp add: demo_env_def)
  show ?thesis
    unfolding store_demo_chunk snd_conv
    by (simp add: searchChunks_unfold freshClient_demo chunk_answer_def client_search_def
      logged_def e sim)
qed

theorem tenant_isolation_witness:
  "''work'' \<noteq> ''personal''
   \<and> \<not> throws (fst (storeDocumentChunk demo_env demo_chunk ''personal'' demo_this demo_world))
   \<and> store (snd (snd (storeDocumentChunk demo_env demo_chunk ''personal'' demo_this demo_world)))
        ''work_chunks'' = store demo_world ''work_chunks''
   \<and> fst (QdrantPersistence_searchChunks demo_env ''alpha'' ''work'' None (Fin 5)
         (snd (snd (storeDocumentChunk demo_env demo_chunk ''personal'' demo_this demo_world))))
       = Inr []
   \<and> (\<exists>r. fst (QdrantPersistence_searchChunks demo_env ''alpha'' ''personal'' None (Fin 5)
         (snd (snd (storeDocumentChunk demo_env demo_chunk ''personal'' demo_this demo_world))))
       = Inr [r] \<and> res_source r = JStr ''docs/a.md'')"
proof -
  have h: "''work'' \<noteq> ''personal''" by simp
  have n: "''work_chunks'' \<noteq> ''personal'' @ ''_chunks''" by simp
  have ok: "\<not> throws (fst (storeDocumentChunk demo_env demo_chunk ''personal'' demo_this demo_world))"
    by (simp add: store_demo_chunk)
  have p: "\<exists>r. fst (QdrantPersistence_searchChunks demo_env ''alpha'' ''personal'' None (Fin 5)
         (snd (snd (storeDocumentChunk demo_env demo_chunk ''personal'' demo_this demo_world))))
       = Inr [r] \<and> res_source r = JStr ''docs/a.md''"
    unfolding search_demo_personal
    by (simp add: chunk_result_def payload_prop_def chunk_point_def demo_chunk_def)
  note T = tenant_isolation [where A = "''work''" and B = "''personal''" and env = demo_env
        and env' = demo_env and q = "''alpha''" and src = None and lmt = "Fin 5"
        and w = demo_world and chunk = demo_chunk and this = demo_this]
  from T n have s: "store (snd (snd (storeDocumentChunk demo_env demo_chunk ''personal''
        demo_this demo_world))) ''work_chunks'' = store demo_world ''work_chunks''"
    by blast
  from T h have "fst (QdrantPersistence_searchChunks demo_env ''alpha'' ''work'' None (Fin 5)
         (snd (snd (storeDocumentChunk demo_env demo_chunk ''personal'' demo_this demo_world))))
       = fst (QdrantPersistence_searchChunks demo_env ''alpha'' ''work'' None (Fin 5) demo_world)"
    by blast
  then have a: "fst (QdrantPersistence_searchChunks demo_env ''alpha'' ''work'' None (Fin 5)
         (snd (snd (storeDocumentChunk demo_env demo_chunk ''personal'' demo_this demo_world))))
       = Inr []"
    by (simp only: search_demo_work)
  from h ok s a p show ?thesis by (intro conjI)
qed

text \<open>
  At the manager a search is scoped by a client name that is not empty; the empty name
  counts as no client, and the search then goes to every configured tenant.
\<close>

lemma manager_scoped_search:
  "A \<noteq> [] \<Longrightarrow>
     RagManager_searchChunks env q (Some A) src lmt w
       = QdrantPersistence_searchChunks env q A src lmt w
   \<and> RagManager_searchCatalog env q (Some A) lmt w
       = QdrantPersistence_searchCatalog env q A lmt w"
  by (simp add: RagManager_searchChunks_def RagManager_searchCatalog_def truthy_def)

lemma manager_empty_client: "\<not> truthy (Some [])"
  by (simp add: truthy_def)

section \<open>Fan-out and merge\<close>

lemma descending_sort_by_score: "descending (sort_by_score results)"
proof -
  have "sorted (map (\<lambda>r. - score r) (sort_key (\<lambda>r. - score r) results))"
    by (rule sorted_sort_key)
  then show ?thesis
    by (simp add: descending_def sort_by_score_def sorted_map)
qed

lemma slice0_take: "\<exists>k. slice0 n xs = take k xs"
proof (cases n)
  case (Fin r)
  then show ?thesis by (auto simp: slice0_def Let_def)
next
  case NaN
  then have "slice0 n xs = take 0 xs" by (simp add: slice0_def)
  then show ?thesis ..
next
  case PosInf
  then have "slice0 n xs = take (length xs) xs" by (simp add: slice0_def)
  then show ?thesis ..
next
  case NegInf
  then have "slice0 n xs = take 0 xs" by (simp add: slice0_def)
  then show ?thesis ..
qed

lemma descending_slice0: "descending xs \<Longrightarrow> descending (slice0 n xs)"
proof -
  assume d: "descending xs"
  obtain k where "slice0 n xs = take k xs" using slice0_take by blast
  with d show ?thesis by (simp add: descending_def sorted_wrt_take)
qed

lemma length_slice0:
  assumes "0 \<le> r"
  shows "of_nat (length (slice0 (Fin r) xs)) \<le> r"
proof -
  from assms have f: "0 \<le> \<lfloor>r\<rfloor>" by simp
  then have "length (slice0 (Fin r) xs) \<le> nat \<lfloor>r\<rfloor>"
    using assms by (simp add: slice0_def Let_def)
  then have "(of_nat (length (slice0 (Fin r) xs)) :: rat) \<le> of_nat (nat \<lfloor>r\<rfloor>)"
    by (simp only: of_nat_le_iff)
  also have "\<dots> = of_int \<lfloor>r\<rfloor>" using f by simp
  also have "\<dots> \<le> r" by simp
  finally show ?thesis .
qed

lemma slice0_exact:
  "slice0 (Fin (of_nat n)) xs = take n xs"
  by (simp add: slice0_def Let_def min_def)

lemma ceil_per_tenant:
  "0 < k \<Longrightarrow> Math_ceil (js_div_length (Fin x) k) = Fin (of_int \<lceil>x / of_nat k\<rceil>)"
  by (simp add: Math_ceil_def js_div_length_def)

lemma merged_descending: "descending (slice0 n (sort_by_score results))"
  by (rule descending_slice0) (rule descending_sort_by_score)

lemma searchChunks_log:
  "log (snd (QdrantPersistence_searchChunks env q client src lmt w))
     = log w @ chunk_calls env q client src lmt"
  by (simp add: searchChunks_unfold chunk_calls_def split: sum.splits)

lemma searchCatalog_log:
  "log (snd (QdrantPersistence_searchCatalog env q client lmt w))
     = log w @ catalog_calls env q client lmt"
  by (simp add: searchCatalog_unfold catalog_calls_def split: sum.splits)

lemma searchChunks_same_store:
  "store w' = store w \<Longrightarrow>
     fst (QdrantPersistence_searchChunks env q client src lmt w')
       = fst (QdrantPersistence_searchChunks env q client src lmt w)"
  by (rule searchChunks_reads) simp

lemma searchCatalog_same_store:
  "store w' = store w \<Longrightarrow>
     fst (QdrantPersistence_searchCatalog env q client lmt w')
       = fst (QdrantPersistence_searchCatalog env q client lmt w)"
  by (rule searchCatalog_reads) simp

lemma searchChunks_loop_result:
  "store w' = store w \<Longrightarrow>
   searchChunks_loop env q src lmt cs results w' =
     (results @ concat (map (\<lambda>c. hits_or_nothing (fst (QdrantPersistence_searchChunks env q c src
          (Math_ceil (js_div_length lmt (length (clients env)))) w))) cs),
      w'\<lparr>log := log w' @ concat (map (\<lambda>c. chunk_calls env q c src
          (Math_ceil (js_div_length lmt (length (clients env))))) cs)\<rparr>)"
proof (induction cs arbitrary: results w')
  case Nil
  then show ?case by simp
next
  case (Cons c cs)
  let ?l = "Math_ceil (js_div_length lmt (length (clients env)))"
  let ?run = "QdrantPersistence_searchChunks env q c src ?l w'"
  have st: "store (snd ?run) = store w" using Cons.prems by simp
  have r: "fst ?run = fst (QdrantPersistence_searchChunks env q c src ?l w)"
    using Cons.prems by (rule searchChunks_same_store)
  have lg: "log (snd ?run) = log w' @ chunk_calls env q c src ?l" by (rule searchChunks_log)
  have w: "snd ?run = w'\<lparr>log := log w' @ chunk_calls env q c src ?l\<rparr>"
    by (simp add: searchChunks_unfold chunk_calls_def logged_def client_search_def
        split: sum.splits option.splits)
  show ?case
  proof (cases "fst ?run")
    case (Inl e)
    then have "searchChunks_loop env q src lmt (c # cs) results w'
        = searchChunks_loop env q src lmt cs results (snd ?run)"
      by (cases ?run) simp
    also note Cons.IH [OF st]
    finally show ?thesis using Inl r by (simp add: hits_or_nothing_def w)
  next
    case (Inr rs)
    then have "searchChunks_loop env q src lmt (c # cs) results w'
        = searchChunks_loop env q src lmt cs (results @ rs) (snd ?run)"
      by (cases ?run) simp
    also note Cons.IH [OF st]
    finally show ?thesis using Inr r by (simp add: hits_or_nothing_def w)
  qed
qed

lemma searchCatalog_loop_result:
  "store w' = store w \<Longrightarrow>
   searchCatalog_loop env q lmt cs results w' =
     (results @ concat (map (\<lambda>c. hits_or_nothing (fst (QdrantPersistence_searchCatalog env q c
          (Math_ceil (js_div_length lmt (length (clients env)))) w))) cs),
      w'\<lparr>log := log w' @ concat (map (\<lambda>c. catalog_calls env q c
          (Math_ceil (js_div_length lmt (length (clients env))))) cs)\<rparr>)"
proof (induction cs arbitrary: results w')
  case Nil
  then show ?case by simp
next
  case (Cons c cs)
  let ?l = "Math_ceil (js_div_length lmt (length (clients env)))"
  let ?run = "QdrantPersistence_searchCatalog env q c ?l w'"
  have st: "store (snd ?run) = store w" using Cons.prems by simp
  have r: "fst ?run = fst (QdrantPersistence_searchCatalog env q c ?l w)"
    using Cons.prems by (rule searchCatalog_same_store)
  have w: "snd ?run = w'\<lparr>log := log w' @ catalog_calls env q c ?l\<rparr>"
    by (simp add: searchCatalog_unfold catalog_calls_def logged_def client_search_def
        split: sum.splits option.splits)
  show ?case
  proof (cases "fst ?run")
    case (Inl e)
    then have "searchCatalog_loop env q lmt (c # cs) results w'
        = searchCatalog_loop env q lmt cs results (snd ?run)"
      by (cases ?run) simp
    also note Cons.IH [OF st]
    finally show ?thesis using Inl r by (simp add: hits_or_nothing_def w)
  next
    case (Inr rs)
    then have "searchCatalog_loop env q lmt (c # cs) results w'
        = searchCatalog_loop env q lmt cs (results @ rs) (snd ?run)"
      by (cases ?run) simp
    also note Cons.IH [OF st]
    finally show ?thesis using Inr r by (simp add: hits_or_nothing_def w)
  qed
qed

lemma client_search_world:
  "snd (client_search env name p w) = w\<lparr>log := log w @ [Search name p]\<rparr>"
  by (simp add: client_search_def logged_def split: option.splits)

lemma client_search_same_store:
  "store w' = store w \<Longrightarrow> fst (client_search env name p w') = fst (client_search env name p w)"
  by (rule client_search_reads) simp

lemma searchAllChunks_loop_result:
  "store w' = store w \<Longrightarrow>
   searchAllChunks_loop env v lmt n cs results w' =
     (results @ concat (map (\<lambda>c. hits_or_nothing (chunk_answer (cc_name c)
          (fst (client_search env (cc_name c)
                 (search_request v (Math_ceil (js_div_length lmt n)) None) w)))) cs),
      w'\<lparr>log := log w' @ map (\<lambda>c. Search (cc_name c)
          (search_request v (Math_ceil (js_div_length lmt n)) None)) cs\<rparr>)"
proof (induction cs arbitrary: results w')
  case Nil
  then show ?case by simp
next
  case (Cons c cs)
  let ?p = "search_request v (Math_ceil (js_div_length lmt n)) None"
  let ?run = "client_search env (cc_name c) ?p w'"
  have p: "\<lparr>sp_vector = v, sp_limit = Math_ceil (js_div_length lmt n), sp_with_payload = True,
            sp_filter_source = None\<rparr> = ?p"
    by (simp add: search_request_def)
  have st: "store (snd ?run) = store w" using Cons.prems by simp
  have r: "fst ?run = fst (client_search env (cc_name c) ?p w)"
    using Cons.prems by (rule client_search_same_store)
  have w: "snd ?run = w'\<lparr>log := log w' @ [Search (cc_name c) ?p]\<rparr>"
    by (rule client_search_world)
  have step: "searchAllChunks_loop env v lmt n (c # cs) results w'
        = searchAllChunks_loop env v lmt n cs
            (results @ hits_or_nothing (chunk_answer (cc_name c) (fst ?run))) (snd ?run)"
    unfolding searchAllChunks_loop.simps p
    by (cases ?run)
       (auto simp: hits_or_nothing_def chunk_answer_def split: sum.splits search_response.splits)
  show ?case
    unfolding step Cons.IH [OF st] by (simp add: r w)
qed

lemma searchAllChunks_unfold:
  "QdrantPersistence_searchAllChunks env q lmt this w =
     (case freshClient env of
        Inl e \<Rightarrow> (Inl e, w)
      | Inr _ \<Rightarrow>
          (case embedding env q of
             Inl e \<Rightarrow> (Inr [], logged (Embed q) w)
           | Inr v \<Rightarrow>
               (Inr (slice0 lmt (sort_by_score (concat (map (\<lambda>c. hits_or_nothing
                    (chunk_answer (cc_name c) (fst (client_search env (cc_name c)
                       (search_request v
                          (Math_ceil (js_div_length lmt (length (chunkCollections this)))) None)
                       w))))
                    (chunkCollections this))))),
                w\<lparr>log := log w @ Embed q # map (\<lambda>c. Search (cc_name c)
                     (search_request v
                        (Math_ceil (js_div_length lmt (length (chunkCollections this)))) None))
                     (chunkCollections this)\<rparr>)))"
proof (cases "freshClient env")
  case (Inl e)
  then show ?thesis by (simp add: QdrantPersistence_searchAllChunks_def)
next
  case (Inr u)
  show ?thesis
  proof (cases "embedding env q")
    case (Inl e)
    with Inr show ?thesis by (simp add: QdrantPersistence_searchAllChunks_def embedQuery_def)
  next
    case v: (Inr v)
    have st: "store (w\<lparr>log := log w @ [Embed q]\<rparr>) = store w" by simp
    show ?thesis
    proof (cases "chunkCollections this = []")
      case True
      with Inr v show ?thesis
        by (simp add: QdrantPersistence_searchAllChunks_def embedQuery_def logged_def
            sort_by_score_def slice0_def split: jsnum.splits)
    next
      case False
      with Inr v show ?thesis
        by (simp add: QdrantPersistence_searchAllChunks_def embedQuery_def
            searchAllChunks_loop_result [OF st] logged_def)
    qed
  qed
qed

lemma RagManager_searchChunks_fanout:
  "\<not> truthy client \<Longrightarrow>
   RagManager_searchChunks env q client src lmt w =
     (Inr (slice0 lmt (sort_by_score (concat (map (\<lambda>c. hits_or_nothing
          (fst (QdrantPersistence_searchChunks env q c src
                 (Math_ceil (js_div_length lmt (length (clients env)))) w))) (clients env))))),
      w\<lparr>log := log w @ concat (map (\<lambda>c. chunk_calls env q c src
          (Math_ceil (js_div_length lmt (length (clients env))))) (clients env))\<rparr>)"
  by (simp add: RagManager_searchChunks_def searchChunks_loop_result [OF refl])

lemma RagManager_searchCatalog_fanout:
  "\<not> truthy client \<Longrightarrow>
   RagManager_searchCatalog env q client lmt w =
     (Inr (slice0 lmt (sort_by_score (concat (map (\<lambda>c. hits_or_nothing
          (fst (QdrantPersistence_searchCatalog env q c
                 (Math_ceil (js_div_length lmt (length (clients env)))) w))) (clients env))))),
      w\<lparr>log := log w @ concat (map (\<lambda>c. catalog_calls env q c
          (Math_ceil (js_div_length lmt (length (clients env))))) (clients env))\<rparr>)"
  by (simp add: RagManager_searchCatalog_def searchCatalog_loop_result [OF refl])

lemma RagManager_searchAllChunks_returns:
  "\<exists>results. fst (RagManager_searchAllChunks env q lmt this w) = Inr results
     \<and> descending results
     \<and> (\<forall>x. lmt = Fin x \<and> 0 \<le> x \<longrightarrow> of_nat (length results) \<le> x)"
proof -
  have e: "descending []" by (simp add: descending_def)
  show ?thesis
    by (auto simp: RagManager_searchAllChunks_def searchAllChunks_unfold e merged_descending
        length_slice0 split: sum.splits)
qed

lemma set_update_subset: "set (AList.update k v m) \<subseteq> insert (k, v) (set m)"
  by (induction m) auto

lemma fold_update_entries:
  assumes "\<forall>(k, v) \<in> set m. k = f v \<and> v \<in> S"
  shows "\<forall>(k, v) \<in> set (fold (\<lambda>c m. AList.update (f c) c m) xs m). k = f v \<and> v \<in> S \<union> set xs"
  using assms
proof (induction xs arbitrary: m S)
  case Nil
  then show ?case by auto
next
  case (Cons x xs)
  have "\<forall>(k, v) \<in> set (AList.update (f x) x m). k = f v \<and> v \<in> insert x S"
    using Cons.prems set_update_subset [of "f x" x m] by auto
  from Cons.IH [OF this] show ?case by auto
qed

lemma fold_update_keys:
  "fst ` set (fold (\<lambda>c m. AList.update (f c) c m) xs m) = f ` set xs \<union> fst ` set m"
  by (induction xs arbitrary: m) (auto simp: dom_update)

lemma fold_update_distinct:
  "distinct (map fst m) \<Longrightarrow> distinct (map fst (fold (\<lambda>c m. AList.update (f c) c m) xs m))"
  by (induction xs arbitrary: m) (simp_all add: distinct_update)

lemma update_fresh: "k \<notin> fst ` set m \<Longrightarrow> AList.update k v m = m @ [(k, v)]"
  by (induction m) auto

lemma fold_update_fresh:
  "distinct (map f xs) \<Longrightarrow> f ` set xs \<inter> fst ` set m = {} \<Longrightarrow>
     fold (\<lambda>c m. AList.update (f c) c m) xs m = m @ map (\<lambda>c. (f c, c)) xs"
proof (induction xs arbitrary: m)
  case Nil
  then show ?case by simp
next
  case (Cons x xs)
  from Cons.prems have fresh: "f x \<notin> fst ` set m" by auto
  have "f ` set xs \<inter> fst ` set (m @ [(f x, x)]) = {}"
    using Cons.prems by auto
  with Cons.prems Cons.IH [of "m @ [(f x, x)]"] fresh show ?case
    by (simp add: update_fresh)
qed

lemma collections_member:
  "c \<in> set (collections cs) \<longleftrightarrow>
     (\<exists>client \<in> set cs.
        c = \<lparr>cc_name = client @ ''_catalog'', cc_type = catalog_t, cc_client = client,
             cc_description = Some (''Document catalog for '' @ client)\<rparr>
      \<or> c = \<lparr>cc_name = client @ ''_chunks'', cc_type = chunks_t, cc_client = client,
             cc_description = Some (''Document chunks for '' @ client)\<rparr>)"
  by (auto simp: collections_def)

lemma collections_chunk_type:
  "c \<in> set (collections cs) \<Longrightarrow>
     (cc_type c = chunks_t \<longleftrightarrow> (\<exists>client \<in> set cs. cc_name c = client @ ''_chunks''))"
  using chunks_not_catalog by (auto simp: collections_member)

lemma registry_new:
  "QdrantPersistence_new env w = (Inr this, w') \<Longrightarrow>
     registry this = fold (\<lambda>c m. Map_set (cc_name c) c m) (collections (clients env)) []"
  by (auto simp: QdrantPersistence_new_def split: option.splits if_splits)

lemma chunkCollections_names:
  assumes "configured env this"
  shows "set (map cc_name (chunkCollections this)) = (\<lambda>c. c @ ''_chunks'') ` set (clients env)"
    and "distinct (map cc_name (chunkCollections this))"
proof -
  let ?r = "registry this"
  have r: "?r = fold (\<lambda>c m. AList.update (cc_name c) c m) (collections (clients env)) []"
    using assms by (simp add: configured_def Map_set_def)
  have ent: "\<forall>(k, v) \<in> set ?r. k = cc_name v \<and> v \<in> set (collections (clients env))"
    unfolding r using fold_update_entries [of "[]" cc_name "{}" "collections (clients env)"]
    by simp
  have keys: "fst ` set ?r = cc_name ` set (collections (clients env))"
    unfolding r by (simp add: fold_update_keys)
  have dist: "distinct (map fst ?r)"
    unfolding r by (rule fold_update_distinct) simp
  have names: "map cc_name (map snd ?r) = map fst ?r"
    using ent by (induction ?r) auto
  show "distinct (map cc_name (chunkCollections this))"
    unfolding chunkCollections_def Map_values_def
    using dist names by (metis distinct_map_filter)
  show "set (map cc_name (chunkCollections this)) = (\<lambda>c. c @ ''_chunks'') ` set (clients env)"
  proof (intro equalityI subsetI)
    fix n assume "n \<in> set (map cc_name (chunkCollections this))"
    then obtain c where c: "c \<in> snd ` set ?r" "cc_type c = chunks_t" "n = cc_name c"
      by (auto simp: chunkCollections_def Map_values_def)
    with ent have "c \<in> set (collections (clients env))" by auto
    with c collections_chunk_type [of c "clients env"]
    show "n \<in> (\<lambda>c. c @ ''_chunks'') ` set (clients env)" by auto
  next
    fix n assume "n \<in> (\<lambda>c. c @ ''_chunks'') ` set (clients env)"
    then obtain client where cl: "client \<in> set (clients env)" "n = client @ ''_chunks''" by auto
    then have "n \<in> cc_name ` set (collections (clients env))"
      by (force simp: collections_member)
    with keys obtain k v where kv: "(k, v) \<in> set ?r" "k = n" by force
    with ent have v: "n = cc_name v" "v \<in> set (collections (clients env))" by auto
    with cl collections_chunk_type [of v "clients env"] have "cc_type v = chunks_t" by auto
    with kv v show "n \<in> set (map cc_name (chunkCollections this))"
      by (force simp: chunkCollections_def Map_values_def)
  qed
qed

lemma collections_Cons:
  "collections (c # cs) =
     \<lparr>cc_name = c @ ''_catalog'', cc_type = catalog_t, cc_client = c,
       cc_description = Some (''Document catalog for '' @ c)\<rparr>
     # \<lparr>cc_name = c @ ''_chunks'', cc_type = chunks_t, cc_client = c,
         cc_description = Some (''Document chunks for '' @ c)\<rparr>
     # collections cs"
  by (simp add: collections_def)

lemma collections_names:
  "cc_name ` set (collections cs) = (\<lambda>c. c @ ''_catalog'') ` set cs \<union> (\<lambda>c. c @ ''_chunks'') ` set cs"
  by (induction cs) (auto simp: collections_Cons collections_def)

lemma distinct_collections:
  "distinct cs \<Longrightarrow> distinct (map cc_name (collections cs))"
proof (induction cs)
  case Nil
  then show ?case by (simp add: collections_def)
next
  case (Cons c cs)
  have 1: "c @ ''_catalog'' \<noteq> c @ ''_chunks''" by simp
  have 2: "c @ ''_catalog'' \<notin> cc_name ` set (collections cs)"
    using Cons.prems chunks_not_catalog [of _ c] by (auto simp: collections_names)
  have 3: "c @ ''_chunks'' \<notin> cc_name ` set (collections cs)"
    using Cons.prems chunks_not_catalog [of c] by (auto simp: collections_names)
  from Cons 1 2 3 show ?case by (simp add: collections_Cons)
qed

lemma chunk_collections_of_clients:
  "map cc_name (filter (\<lambda>c. cc_type c = chunks_t) (collections cs)) = map (\<lambda>c. c @ ''_chunks'') cs"
  by (induction cs) (simp_all add: collections_Cons, simp add: collections_def)

lemma chunkCollections_distinct_clients:
  assumes "configured env this" "distinct (clients env)"
  shows "map cc_name (chunkCollections this) = map (\<lambda>c. c @ ''_chunks'') (clients env)"
proof -
  have "registry this = map (\<lambda>c. (cc_name c, c)) (collections (clients env))"
    using assms fold_update_fresh [of cc_name "collections (clients env)" "[]"]
    by (simp add: configured_def Map_set_def distinct_collections)
  then have "Map_values (registry this) = collections (clients env)"
    by (simp add: Map_values_def comp_def)
  then show ?thesis by (simp add: chunkCollections_def chunk_collections_of_clients)
qed

lemma RagManager_searchAllChunks_unfold:
  "RagManager_searchAllChunks env q lmt this w =
     (case freshClient env of
        Inl e \<Rightarrow> (Inr [], w)
      | Inr _ \<Rightarrow>
          (case embedding env q of
             Inl e \<Rightarrow> (Inr [], logged (Embed q) w)
           | Inr v \<Rightarrow>
               (Inr (slice0 lmt (sort_by_score (concat (map (\<lambda>c. hits_or_nothing
                    (chunk_answer (cc_name c) (fst (client_search env (cc_name c)
                       (search_request v
                          (Math_ceil (js_div_length lmt (length (chunkCollections (qdrant this)))))
                          None)
                       w))))
                    (chunkCollections (qdrant this)))))),
                w\<lparr>log := log w @ Embed q # map (\<lambda>c. Search (cc_name c)
                     (search_request v
                        (Math_ceil (js_div_length lmt (length (chunkCollections (qdrant this)))))
                        None))
                     (chunkCollections (qdrant this))\<rparr>)))"
  by (simp add: RagManager_searchAllChunks_def searchAllChunks_unfold split: sum.splits)

text \<open>
  Claim C2. For every query and every limit \<open>N\<close>, \<open>searchAllChunks\<close> returns a list
  sorted by descending score, of length at most \<open>N\<close> (for a limit that is not negative).
  When the fresh client is built and the query is embedded, it sends exactly one search to
  each chunk collection of the registry, in order, each asking for
  \<open>ceil(N / tenantCount)\<close> hits, and returns the concatenation of the answers, sorted by
  \<open>sort_by_score\<close> and cut by \<open>slice0\<close> to \<open>N\<close>. The chunk collections of a
  constructed object are the collections \<open>client_chunks\<close> of the configured clients,
  each once. The catalog and chunk searches without a client merge in the same way, with
  \<open>ceil(N / clients.length)\<close> asked of each client.
\<close>

theorem fanout_merge_is_sorted_and_truncated:
  "(\<exists>results. fst (RagManager_searchAllChunks env q N this w) = Inr results
      \<and> descending results
      \<and> (\<forall>x. N = Fin x \<and> 0 \<le> x \<longrightarrow> of_nat (length results) \<le> x))
 \<and> (\<forall>v. freshClient env = Inr () \<and> embedding env q = Inr v \<longrightarrow>
      RagManager_searchAllChunks env q N this w =
        (Inr (slice0 N (sort_by_score (concat (map (\<lambda>c. hits_or_nothing
             (chunk_answer (cc_name c) (fst (client_search env (cc_name c)
                (search_request v
                   (Math_ceil (js_div_length N (length (chunkCollections (qdrant this))))) None)
                w))))
             (chunkCollections (qdrant this)))))),
         w\<lparr>log := log w @ Embed q # map (\<lambda>c. Search (cc_name c)
              (search_request v
                 (Math_ceil (js_div_length N (length (chunkCollections (qdrant this))))) None))
              (chunkCollections (qdrant this))\<rparr>))
 \<and> (configured env (qdrant this) \<longrightarrow>
      set (map cc_name (chunkCollections (qdrant this)))
        = (\<lambda>c. c @ ''_chunks'') ` set (clients env)
    \<and> distinct (map cc_name (chunkCollections (qdrant this)))
    \<and> (distinct (clients env) \<longrightarrow>
          map cc_name (chunkCollections (qdrant this))
            = map (\<lambda>c. c @ ''_chunks'') (clients env)))
 \<and> (\<forall>x k. 0 < k \<longrightarrow> Math_ceil (js_div_length (Fin x) k) = Fin (of_int \<lceil>x / of_nat k\<rceil>))
 \<and> (\<not> truthy client \<longrightarrow>
      (\<exists>results.
          RagManager_searchChunks env q client src N w =
            (Inr results,
             w\<lparr>log := log w @ concat (map (\<lambda>c. chunk_calls env q c src
                  (Math_ceil (js_div_length N (length (clients env))))) (clients env))\<rparr>)
        \<and> results = slice0 N (sort_by_score (concat (map (\<lambda>c. hits_or_nothing
             (fst (QdrantPersistence_searchChunks env q c src
                    (Math_ceil (js_div_length N (length (clients env)))) w))) (clients env))))
        \<and> descending results
        \<and> (\<forall>x. N = Fin x \<and> 0 \<le> x \<longrightarrow> of_nat (length results) \<le> x))
    \<and> (\<exists>results.
          RagManager_searchCatalog env q client N w =
            (Inr results,
             w\<lparr>log := log w @ concat (map (\<lambda>c. catalog_calls env q c
                  (Math_ceil (js_div_length N (length (clients env))))) (clients env))\<rparr>)
        \<and> results = slice0 N (sort_by_score (concat (map (\<lambda>c. hits_or_nothing
             (fst (QdrantPersistence_searchCatalog env q c
                    (Math_ceil (js_div_length N (length (clients env)))) w))) (clients env))))
        \<and> descending results
        \<and> (\<forall>x. N = Fin x \<and> 0 \<le> x \<longrightarrow> of_nat (length results) \<le> x)))"
proof (intro conjI)
  show "\<exists>results. fst (RagManager_searchAllChunks env q N this w) = Inr results
      \<and> descending results
      \<and> (\<forall>x. N = Fin x \<and> 0 \<le> x \<longrightarrow> of_nat (length results) \<le> x)"
    by (rule RagManager_searchAllChunks_returns)
  show "\<forall>v. freshClient env = Inr () \<and> embedding env q = Inr v \<longrightarrow>
      RagManager_searchAllChunks env q N this w =
        (Inr (slice0 N (sort_by_score (concat (map (\<lambda>c. hits_or_nothing
             (chunk_answer (cc_name c) (fst (client_search env (cc_name c)
                (search_request v
                   (Math_ceil (js_div_length N (length (chunkCollections (qdrant this))))) None)
                w))))
             (chunkCollections (qdrant this)))))),
         w\<lparr>log := log w @ Embed q # map (\<lambda>c. Search (cc_name c)
              (search_request v
                 (Math_ceil (js_div_length N (length (chunkCollections (qdrant this))))) None))
              (chunkCollections (qdrant this))\<rparr>)"
    by (simp add: RagManager_searchAllChunks_unfold)
  show "configured env (qdrant this) \<longrightarrow>
      set (map cc_name (chunkCollections (qdrant this)))
        = (\<lambda>c. c @ ''_chunks'') ` set (clients env)
    \<and> distinct (map cc_name (chunkCollections (qdrant this)))
    \<and> (distinct (clients env) \<longrightarrow>
          map cc_name (chunkCollections (qdrant this))
            = map (\<lambda>c. c @ ''_chunks'') (clients env))"
    using chunkCollections_names [of env "qdrant this"]
      chunkCollections_distinct_clients [of env "qdrant this"]
    by blast
  show "\<forall>x k. 0 < k \<longrightarrow> Math_ceil (js_div_length (Fin x) k) = Fin (of_int \<lceil>x / of_nat k\<rceil>)"
    by (simp add: ceil_per_tenant)
  show "\<not> truthy client \<longrightarrow>
      (\<exists>results.
          RagManager_searchChunks env q client src N w =
            (Inr results,
             w\<lparr>log := log w @ concat (map (\<lambda>c. chunk_calls env q c src
                  (Math_ceil (js_div_length N (length (clients env))))) (clients env))\<rparr>)
        \<and> results = slice0 N (sort_by_score (concat (map (\<lambda>c. hits_or_nothing
             (fst (QdrantPersistence_searchChunks env q c src
                    (Math_ceil (js_div_length N (length (clients env)))) w))) (clients env))))
        \<and> descending results
        \<and> (\<forall>x. N = Fin x \<and> 0 \<le> x \<longrightarrow> of_nat (length results) \<le> x))
    \<and> (\<exists>results.
          RagManager_searchCatalog env q client N w =
            (Inr results,
             w\<lparr>log := log w @ concat (map (\<lambda>c. catalog_calls env q c
                  (Math_ceil (js_div_length N (length (clients env))))) (clients env))\<rparr>)
        \<and> results = slice0 N (sort_by_score (concat (map (\<lambda>c. hits_or_nothing
             (fst (QdrantPersistence_searchCatalog env q c
                    (Math_ceil (js_div_length N (length (clients env)))) w))) (clients env))))
        \<and> descending results
        \<and> (\<forall>x. N = Fin x \<and> 0 \<le> x \<longrightarrow> of_nat (length results) \<le> x))"
    by (simp add: RagManager_searchChunks_fanout RagManager_searchCatalog_fanout
        merged_descending length_slice0)
qed

lemma demo_chunkCollections:
  "chunkCollections demo_this =
     [\<lparr>cc_name = ''work_chunks'', cc_type = chunks_t, cc_client = ''work'',
          cc_description = Some ''Document chunks for work''\<rparr>,
      \<lparr>cc_name = ''personal_chunks'', cc_type = chunks_t,
          cc_client = ''personal'', cc_description = Some ''Document chunks for personal''\<rparr>]"
  by (simp add: chunkCollections_def demo_registry Map_values_def)

lemma demo_configured: "configured demo_env demo_this"
  by (simp add: configured_def demo_this_def)

lemma demo_clients: "clients demo_env = [''work'', ''personal'']"
  by (simp add: demo_env_def)

lemma demo_embedding: "embedding demo_env t = Inr [of_nat (length t)]"
  by (simp add: demo_env_def)

lemma demo_similarity:
  "similarity demo_env name c p =
     Inr (Hits (map (\<lambda>(i, pt). \<lparr>hit_id = i, hit_score = Some (1 / of_nat (Suc i)),
                                 hit_payload = Some (pt_payload pt)\<rparr>) c))"
  by (simp add: demo_env_def)

lemma seeded_work:
  "hits_or_nothing (chunk_answer ''work_chunks''
     (fst (client_search demo_env ''work_chunks'' p seeded_world)))
   = [chunk_result ''work_chunks''
        \<lparr>hit_id = 4, hit_score = Some (1 / 5), hit_payload = Some [(''source'', JStr ''w1.md'')]\<rparr>,
      chunk_result ''work_chunks''
        \<lparr>hit_id = 9, hit_score = Some (1 / 10), hit_payload = Some [(''source'', JStr ''w3.md'')]\<rparr>]"
  by (simp add: client_search_def seeded_world_def demo_similarity chunk_answer_def
      hits_or_nothing_def)

lemma seeded_personal:
  "hits_or_nothing (chunk_answer ''personal_chunks''
     (fst (client_search demo_env ''personal_chunks'' p seeded_world)))
   = [chunk_result ''personal_chunks''
        \<lparr>hit_id = 6, hit_score = Some (1 / 7), hit_payload = Some [(''source'', JStr ''p2.md'')]\<rparr>]"
  by (simp add: client_search_def seeded_world_def demo_similarity chunk_answer_def
      hits_or_nothing_def)

lemma seeded_merge:
  "slice0 (Fin 2) (sort_by_score
     [chunk_result ''work_chunks''
        \<lparr>hit_id = 4, hit_score = Some (1 / 5), hit_payload = Some [(''source'', JStr ''w1.md'')]\<rparr>,
      chunk_result ''work_chunks''
        \<lparr>hit_id = 9, hit_score = Some (1 / 10), hit_payload = Some [(''source'', JStr ''w3.md'')]\<rparr>,
      chunk_result ''personal_chunks''
        \<lparr>hit_id = 6, hit_score = Some (1 / 7), hit_payload = Some [(''source'', JStr ''p2.md'')]\<rparr>])
   = [chunk_result ''work_chunks''
        \<lparr>hit_id = 4, hit_score = Some (1 / 5), hit_payload = Some [(''source'', JStr ''w1.md'')]\<rparr>,
      chunk_result ''personal_chunks''
        \<lparr>hit_id = 6, hit_score = Some (1 / 7), hit_payload = Some [(''source'', JStr ''p2.md'')]\<rparr>]"
  by (simp add: sort_by_score_def slice0_def chunk_result_def score_or_zero_def)

theorem fanout_merge_is_sorted_and_truncated_witness:
  "freshClient demo_env = Inr () \<and> embedding demo_env ''alpha'' = Inr [5]
   \<and> configured demo_env demo_this \<and> distinct (clients demo_env)
   \<and> \<not> truthy None \<and> (0::rat) \<le> 2 \<and> (0::nat) < 2
   \<and> map cc_name (chunkCollections demo_this) = [''work_chunks'', ''personal_chunks'']
   \<and> Math_ceil (js_div_length (Fin 2) 2) = Fin 1
   \<and> RagManager_searchAllChunks demo_env ''alpha'' (Fin 2) \<lparr>qdrant = demo_this\<rparr> seeded_world
       = (Inr [chunk_result ''work_chunks''
                 \<lparr>hit_id = 4, hit_score = Some (1 / 5),
                  hit_payload = Some [(''source'', JStr ''w1.md'')]\<rparr>,
               chunk_result ''personal_chunks''
                 \<lparr>hit_id = 6, hit_score = Some (1 / 7),
                  hit_payload = Some [(''source'', JStr ''p2.md'')]\<rparr>],
          seeded_world\<lparr>log :=
            [Embed ''alpha'', Search ''work_chunks'' (search_request [5] (Fin 1) None),
             Search ''personal_chunks'' (search_request [5] (Fin 1) None)]\<rparr>)
   \<and> (\<exists>results.
        fst (RagManager_searchChunks demo_env ''alpha'' None None (Fin 2) seeded_world)
          = Inr results \<and> descending results \<and> length results \<le> 2)"
proof -
  have h: "freshClient demo_env = Inr () \<and> embedding demo_env ''alpha'' = Inr [5]"
    by (simp add: freshClient_demo demo_embedding)
  have c: "configured demo_env demo_this \<and> distinct (clients demo_env)"
    by (simp add: demo_configured demo_clients)
  have t: "\<not> truthy None" by (simp add: truthy_def)
  note T = fanout_merge_is_sorted_and_truncated [where env = demo_env and q = "''alpha''"
      and N = "Fin 2" and this = "\<lparr>qdrant = demo_this\<rparr>" and w = seeded_world
      and client = None and src = None]
  from T c have n: "map cc_name (chunkCollections demo_this) = [''work_chunks'', ''personal_chunks'']"
    by (simp add: demo_clients)
  from T have m: "Math_ceil (js_div_length (Fin 2) 2) = Fin 1"
    by (simp add: ceil_per_tenant)
  have m': "Math_ceil (js_div_length (Fin 2) (Suc (Suc 0))) = Fin 1"
    by (simp add: Math_ceil_def js_div_length_def)
  have l: "log seeded_world = []" by (simp add: seeded_world_def)
  from T h have "RagManager_searchAllChunks demo_env ''alpha'' (Fin 2) \<lparr>qdrant = demo_this\<rparr> seeded_world
       = (Inr [chunk_result ''work_chunks''
                 \<lparr>hit_id = 4, hit_score = Some (1 / 5),
                  hit_payload = Some [(''source'', JStr ''w1.md'')]\<rparr>,
               chunk_result ''personal_chunks''
                 \<lparr>hit_id = 6, hit_score = Some (1 / 7),
                  hit_payload = Some [(''source'', JStr ''p2.md'')]\<rparr>],
          seeded_world\<lparr>log :=
            [Embed ''alpha'', Search ''work_chunks'' (search_request [5] (Fin 1) None),
             Search ''personal_chunks'' (search_request [5] (Fin 1) None)]\<rparr>)"
    by (simp add: demo_chunkCollections seeded_work seeded_personal seeded_merge m' l)
  moreover from T t have "\<exists>results.
        fst (RagManager_searchChunks demo_env ''alpha'' None None (Fin 2) seeded_world)
          = Inr results \<and> descending results \<and> length results \<le> 2"
    by auto
  ultimately show ?thesis using h c t n m by simp
qed

section \<open>Failure containment in the fan-out\<close>

lemma concat_without_failures:
  "concat (map (\<lambda>c. hits_or_nothing (f c)) xs)
     = concat (map (\<lambda>c. hits_or_nothing (f c)) (filter (\<lambda>c. \<not> throws (f c)) xs))"
  by (induction xs) (auto simp: hits_or_nothing_def throws_def split: sum.splits)

lemma throws_chunk_answer [simp]: "throws (chunk_answer name r) = throws r"
  by (simp add: chunk_answer_def throws_def split: sum.splits search_response.splits)

lemma throws_catalog_answer [simp]: "throws (catalog_answer name r) = throws r"
  by (simp add: catalog_answer_def throws_def split: sum.splits search_response.splits)

lemma searchAllChunks_never_throws:
  "freshClient env = Inr () \<Longrightarrow> \<not> throws (fst (QdrantPersistence_searchAllChunks env q N this w))"
  by (simp add: searchAllChunks_unfold split: sum.splits)

lemma RagManager_searchAllChunks_never_throws:
  "\<not> throws (fst (RagManager_searchAllChunks env q N this w))"
  by (simp add: RagManager_searchAllChunks_unfold split: sum.splits)

text \<open>
  Claim C4. A catalog or chunk search without a client never throws: it returns the merge
  of the results of exactly those clients whose own search did not throw, so a client whose
  search failed contributes nothing and the others are merged as usual. The cross-tenant
  chunk search, once the query is embedded, likewise merges the answers of exactly those
  chunk collections whose search did not throw; no failure of a tenant's search makes it
  throw (it throws only if its own client cannot be built from the configured URL), and
  through the manager it never throws at all.
\<close>

theorem fanout_failure_containment:
  "(\<not> truthy client \<longrightarrow>
      fst (RagManager_searchChunks env q client src N w)
        = Inr (slice0 N (sort_by_score (concat (map
            (\<lambda>c. hits_or_nothing (fst (QdrantPersistence_searchChunks env q c src
                   (Math_ceil (js_div_length N (length (clients env)))) w)))
            (filter (\<lambda>c. \<not> throws (fst (QdrantPersistence_searchChunks env q c src
                   (Math_ceil (js_div_length N (length (clients env)))) w)))
               (clients env))))))
    \<and> fst (RagManager_searchCatalog env q client N w)
        = Inr (slice0 N (sort_by_score (concat (map
            (\<lambda>c. hits_or_nothing (fst (QdrantPersistence_searchCatalog env q c
                   (Math_ceil (js_div_length N (length (clients env)))) w)))
            (filter (\<lambda>c. \<not> throws (fst (QdrantPersistence_searchCatalog env q c
                   (Math_ceil (js_div_length N (length (clients env)))) w)))
               (clients env)))))))
 \<and> (\<forall>v. freshClient env = Inr () \<and> embedding env q = Inr v \<longrightarrow>
      fst (QdrantPersistence_searchAllChunks env q N this w)
        = Inr (slice0 N (sort_by_score (concat (map
            (\<lambda>c. hits_or_nothing (chunk_answer (cc_name c) (fst (client_search env (cc_name c)
                   (search_request v
                      (Math_ceil (js_div_length N (length (chunkCollections this)))) None) w))))
            (filter (\<lambda>c. \<not> throws (fst (client_search env (cc_name c)
                   (search_request v
                      (Math_ceil (js_div_length N (length (chunkCollections this)))) None) w)))
               (chunkCollections this)))))))
 \<and> (freshClient env = Inr () \<longrightarrow>
      \<not> throws (fst (QdrantPersistence_searchAllChunks env q N this w)))
 \<and> \<not> throws (fst (RagManager_searchAllChunks env q N manager w))"
proof (intro conjI impI allI)
  assume c: "\<not> truthy client"
  show "fst (RagManager_searchChunks env q client src N w)
        = Inr (slice0 N (sort_by_score (concat (map
            (\<lambda>c. hits_or_nothing (fst (QdrantPersistence_searchChunks env q c src
                   (Math_ceil (js_div_length N (length (clients env)))) w)))
            (filter (\<lambda>c. \<not> throws (fst (QdrantPersistence_searchChunks env q c src
                   (Math_ceil (js_div_length N (length (clients env)))) w)))
               (clients env))))))"
    unfolding RagManager_searchChunks_fanout [OF c] fst_conv
    by (subst concat_without_failures) (rule refl)
  show "fst (RagManager_searchCatalog env q client N w)
        = Inr (slice0 N (sort_by_score (concat (map
            (\<lambda>c. hits_or_nothing (fst (QdrantPersistence_searchCatalog env q c
                   (Math_ceil (js_div_length N (length (clients env)))) w)))
            (filter (\<lambda>c. \<not> throws (fst (QdrantPersistence_searchCatalog env q c
                   (Math_ceil (js_div_length N (length (clients env)))) w)))
               (clients env))))))"
    unfolding RagManager_searchCatalog_fanout [OF c] fst_conv
    by (subst concat_without_failures) (rule refl)
next
  fix v assume h: "freshClient env = Inr () \<and> embedding env q = Inr v"
  have "concat (map
            (\<lambda>c. hits_or_nothing (chunk_answer (cc_name c) (fst (client_search env (cc_name c)
                   (search_request v
                      (Math_ceil (js_div_length N (length (chunkCollections this)))) None) w))))
            (chunkCollections this))
      = concat (map
            (\<lambda>c. hits_or_nothing (chunk_answer (cc_name c) (fst (client_search env (cc_name c)
                   (search_request v
                      (Math_ceil (js_div_length N (length (chunkCollections this)))) None) w))))
            (filter (\<lambda>c. \<not> throws (fst (client_search env (cc_name c)
                   (search_request v
                      (Math_ceil (js_div_length N (length (chunkCollections this)))) None) w)))
               (chunkCollections this)))"
    using concat_without_failures [of "\<lambda>c. chunk_answer (cc_name c) (fst (client_search env (cc_name c)
                   (search_request v
                      (Math_ceil (js_div_length N (length (chunkCollections this)))) None) w))"
        "chunkCollections this"]
    by simp
  then show "fst (QdrantPersistence_searchAllChunks env q N this w)
        = Inr (slice0 N (sort_by_score (concat (map
            (\<lambda>c. hits_or_nothing (chunk_answer (cc_name c) (fst (client_search env (cc_name c)
                   (search_request v
                      (Math_ceil (js_div_length N (length (chunkCollections this)))) None) w))))
            (filter (\<lambda>c. \<not> throws (fst (client_search env (cc_name c)
                   (search_request v
                      (Math_ceil (js_div_length N (length (chunkCollections this)))) None) w)))
               (chunkCollections this))))))"
    using h by (simp add: searchAllChunks_unfold)
next
  assume "freshClient env = Inr ()"
  then show "\<not> throws (fst (QdrantPersistence_searchAllChunks env q N this w))"
    by (rule searchAllChunks_never_throws)
next
  show "\<not> throws (fst (RagManager_searchAllChunks env q N manager w))"
    by (rule RagManager_searchAllChunks_never_throws)
qed

lemma failing_env_simps:
  "freshClient failing_env = Inr ()"
  "embedding failing_env t = Inr [of_nat (length t)]"
  "clients failing_env = [''work'', ''personal'']"
  "similarity failing_env ''work_chunks'' c p = Inl (Error ''timeout'')"
  "similarity failing_env ''personal_chunks'' c p =
     Inr (Hits (map (\<lambda>(i, pt). \<lparr>hit_id = i, hit_score = Some (1 / of_nat (Suc i)),
                                 hit_payload = Some (pt_payload pt)\<rparr>) c))"
  by (simp_all add: failing_env_def freshClient_def demo_env_def)

lemma failing_work:
  "fst (client_search failing_env ''work_chunks'' p (seeded_world\<lparr>log := l\<rparr>))
     = Inl (Error ''timeout'')"
  by (simp add: client_search_def seeded_world_def failing_env_simps)

lemma failing_personal:
  "fst (client_search failing_env ''personal_chunks'' p (seeded_world\<lparr>log := l\<rparr>))
     = Inr (Hits [\<lparr>hit_id = 6, hit_score = Some (1 / 7),
                   hit_payload = Some [(''source'', JStr ''p2.md'')]\<rparr>])"
  by (simp add: client_search_def seeded_world_def failing_env_simps)

lemma seeded_log: "seeded_world\<lparr>log := log seeded_world\<rparr> = seeded_world"
  by simp

lemma ceil_2_2: "Math_ceil (js_div_length (Fin 2) (Suc (Suc 0))) = Fin 1"
  by (simp add: Math_ceil_def js_div_length_def)

lemma slice_one: "slice0 (Fin 2) (sort_by_score [x]) = [x]"
  by (simp add: slice0_def sort_by_score_def)

theorem fanout_failure_containment_witness:
  "\<not> truthy None
   \<and> freshClient failing_env = Inr () \<and> embedding failing_env ''alpha'' = Inr [5]
   \<and> throws (fst (client_search failing_env ''work_chunks''
                    (search_request [5] (Fin 1) None) seeded_world))
   \<and> fst (QdrantPersistence_searchAllChunks failing_env ''alpha'' (Fin 2) demo_this seeded_world)
       = Inr [chunk_result ''personal_chunks''
                \<lparr>hit_id = 6, hit_score = Some (1 / 7),
                 hit_payload = Some [(''source'', JStr ''p2.md'')]\<rparr>]
   \<and> fst (RagManager_searchChunks failing_env ''alpha'' None None (Fin 2) seeded_world)
       = Inr [chunk_result ''personal_chunks''
                \<lparr>hit_id = 6, hit_score = Some (1 / 7),
                 hit_payload = Some [(''source'', JStr ''p2.md'')]\<rparr>]"
proof -
  have t: "\<not> truthy None" by (simp add: truthy_def)
  have h: "freshClient failing_env = Inr () \<and> embedding failing_env ''alpha'' = Inr [5]"
    by (simp add: failing_env_simps)
  have fw: "fst (client_search failing_env ''work_chunks'' p seeded_world) = Inl (Error ''timeout'')"
    for p using failing_work [of p "log seeded_world"] by (simp only: seeded_log)
  have fp: "fst (client_search failing_env ''personal_chunks'' p seeded_world)
     = Inr (Hits [\<lparr>hit_id = 6, hit_score = Some (1 / 7),
                   hit_payload = Some [(''source'', JStr ''p2.md'')]\<rparr>])"
    for p using failing_personal [of p "log seeded_world"] by (simp only: seeded_log)
  note T = fanout_failure_containment [where env = failing_env and q = "''alpha''"
      and N = "Fin 2" and this = demo_this and w = seeded_world and client = None
      and src = None]
  from T h have a: "fst (QdrantPersistence_searchAllChunks failing_env ''alpha'' (Fin 2)
        demo_this seeded_world)
       = Inr [chunk_result ''personal_chunks''
                \<lparr>hit_id = 6, hit_score = Some (1 / 7),
                 hit_payload = Some [(''source'', JStr ''p2.md'')]\<rparr>]"
    by (simp add: demo_chunkCollections fw fp ceil_2_2 chunk_answer_def hits_or_nothing_def
        slice_one)
  have sw: "fst (QdrantPersistence_searchChunks failing_env ''alpha'' ''work'' None (Fin 1)
               seeded_world) = Inl (Error ''timeout'')"
    by (simp add: searchChunks_unfold failing_env_simps logged_def failing_work chunk_answer_def)
  have sp: "fst (QdrantPersistence_searchChunks failing_env ''alpha'' ''personal'' None (Fin 1)
               seeded_world)
       = Inr [chunk_result ''personal_chunks''
                \<lparr>hit_id = 6, hit_score = Some (1 / 7),
                 hit_payload = Some [(''source'', JStr ''p2.md'')]\<rparr>]"
    by (simp add: searchChunks_unfold failing_env_simps logged_def failing_personal
        chunk_answer_def)
  from T t have b: "fst (RagManager_searchChunks failing_env ''alpha'' None None (Fin 2)
        seeded_world)
       = Inr [chunk_result ''personal_chunks''
                \<lparr>hit_id = 6, hit_score = Some (1 / 7),
                 hit_payload = Some [(''source'', JStr ''p2.md'')]\<rparr>]"
    by (simp add: failing_env_simps sw sp ceil_2_2 hits_or_nothing_def slice_one)
  have c: "throws (fst (client_search failing_env ''work_chunks''
                    (search_request [5] (Fin 1) None) seeded_world))"
    by (simp add: fw)
  from t h c a b show ?thesis by simp
qed

section \<open>Outcomes of a validated query\<close>

lemma validated_limit:
  assumes "check_limit v = Inr l"
  shows "\<exists>x. limit_or_default l = Fin x \<and> 1 \<le> x \<and> x \<le> 100"
proof (cases l)
  case None
  then show ?thesis by (simp add: limit_or_default_def)
next
  case (Some n)
  with check_limit_returns [OF assms]
  have r: "\<not> js_lt n (Fin 1)" "\<not> js_gt n (Fin 100)" by simp_all
  show ?thesis
  proof (cases n)
    case (Fin r)
    with r Some show ?thesis by (auto simp: limit_or_default_def js_gt_def)
  next
    case NaN
    with Some show ?thesis by (simp add: limit_or_default_def)
  next
    case PosInf
    with r show ?thesis by (simp add: js_gt_def)
  next
    case NegInf
    with r show ?thesis by simp
  qed
qed

lemma searchChunks_answer:
  "fst (QdrantPersistence_searchChunks env q c src N w) =
     (case freshClient env of
        Inl e \<Rightarrow> Inl e
      | Inr _ \<Rightarrow>
          (case embedding env q of
             Inl e \<Rightarrow> Inl e
           | Inr v \<Rightarrow>
               chunk_answer (c @ ''_chunks'')
                 (fst (client_search env (c @ ''_chunks'') (search_request v N src) w))))"
proof -
  have "fst (client_search env n p (logged (Embed q) w)) = fst (client_search env n p w)" for n p
    by (rule client_search_same_store) simp
  then show ?thesis by (simp add: searchChunks_unfold split: sum.splits)
qed

lemma searchCatalog_answer:
  "fst (QdrantPersistence_searchCatalog env q c N w) =
     (case freshClient env of
        Inl e \<Rightarrow> Inl e
      | Inr _ \<Rightarrow>
          (case embedding env q of
             Inl e \<Rightarrow> Inl e
           | Inr v \<Rightarrow>
               catalog_answer (c @ ''_catalog'')
                 (fst (client_search env (c @ ''_catalog'') (search_request v N None) w))))"
proof -
  have "fst (client_search env n p (logged (Embed q) w)) = fst (client_search env n p w)" for n p
    by (rule client_search_same_store) simp
  then show ?thesis by (simp add: searchCatalog_unfold split: sum.splits)
qed

lemma fanout_returns:
  assumes "\<not> truthy client" "N = Fin x" "0 \<le> x"
  shows "\<exists>results. fst (RagManager_searchChunks env q client src N w) = Inr results
           \<and> descending results \<and> of_nat (length results) \<le> x"
    and "\<exists>results. fst (RagManager_searchCatalog env q client N w) = Inr results
           \<and> descending results \<and> of_nat (length results) \<le> x"
  using assms
  by (simp_all add: RagManager_searchChunks_fanout RagManager_searchCatalog_fanout
      merged_descending length_slice0)

lemma all_chunks_search_total:
  assumes "validateAllChunksSearchRequest a = Inr rq"
  shows "\<exists>results x. fst (all_chunks_search env rq this w) = Inr results
       \<and> descending results
       \<and> limit_or_default (all_limit rq) = Fin x \<and> of_nat (length results) \<le> x"
proof -
  from validateAllChunks_returns [OF assms] validated_limit
  obtain x where x: "limit_or_default (all_limit rq) = Fin x" "1 \<le> x" by blast
  from RagManager_searchAllChunks_returns
    [of env "all_query rq" "limit_or_default (all_limit rq)" this w]
  obtain results where "fst (RagManager_searchAllChunks env (all_query rq)
        (limit_or_default (all_limit rq)) this w) = Inr results" "descending results"
      "\<forall>y. limit_or_default (all_limit rq) = Fin y \<and> 0 \<le> y \<longrightarrow> of_nat (length results) \<le> y"
    by blast
  with x show ?thesis by (auto simp: all_chunks_search_def)
qed

lemma chunks_search_total:
  assumes "validateChunksSearchRequest (clients env) a = Inr rq"
  shows "(\<not> truthy (chk_client rq) \<longrightarrow>
           (\<exists>results x. fst (chunks_search env rq w) = Inr results \<and> descending results
              \<and> limit_or_default (chk_limit rq) = Fin x \<and> of_nat (length results) \<le> x))
       \<and> (\<forall>c. chk_client rq = Some c \<and> c \<noteq> [] \<longrightarrow>
             c \<in> set (clients env)
           \<and> fst (chunks_search env rq w) =
               (case freshClient env of
                  Inl e \<Rightarrow> Inl e
                | Inr _ \<Rightarrow>
                    (case embedding env (chk_query rq) of
                       Inl e \<Rightarrow> Inl e
                     | Inr v \<Rightarrow>
                         chunk_answer (c @ ''_chunks'')
                           (fst (client_search env (c @ ''_chunks'')
                              (search_request v (limit_or_default (chk_limit rq))
                                 (chk_source rq)) w)))))"
proof (intro conjI impI allI)
  from validateChunks_returns [OF assms] validated_limit
  obtain x where x: "limit_or_default (chk_limit rq) = Fin x" "1 \<le> x" by blast
  assume "\<not> truthy (chk_client rq)"
  from fanout_returns(1) [OF this x(1), of env "chk_query rq" "chk_source rq" w] x
  show "\<exists>results x. fst (chunks_search env rq w) = Inr results \<and> descending results
              \<and> limit_or_default (chk_limit rq) = Fin x \<and> of_nat (length results) \<le> x"
    by (auto simp: chunks_search_def)
next
  fix c assume c: "chk_client rq = Some c \<and> c \<noteq> []"
  with validateChunks_returns [OF assms] check_client_returns
  show "c \<in> set (clients env)" by blast
  from c have "truthy (chk_client rq)" by (simp add: truthy_def)
  with c show "fst (chunks_search env rq w) =
               (case freshClient env of
                  Inl e \<Rightarrow> Inl e
                | Inr _ \<Rightarrow>
                    (case embedding env (chk_query rq) of
                       Inl e \<Rightarrow> Inl e
                     | Inr v \<Rightarrow>
                         chunk_answer (c @ ''_chunks'')
                           (fst (client_search env (c @ ''_chunks'')
                              (search_request v (limit_or_default (chk_limit rq))
                                 (chk_source rq)) w))))"
    by (simp add: chunks_search_def RagManager_searchChunks_def searchChunks_answer)
qed

lemma catalog_search_total:
  assumes "validateCatalogSearchRequest (clients env) a = Inr rq"
  shows "(\<not> truthy (cat_client rq) \<longrightarrow>
           (\<exists>results x. fst (catalog_search env rq w) = Inr results \<and> descending results
              \<and> limit_or_default (cat_limit rq) = Fin x \<and> of_nat (length results) \<le> x))
       \<and> (\<forall>c. cat_client rq = Some c \<and> c \<noteq> [] \<longrightarrow>
             c \<in> set (clients env)
           \<and> fst (catalog_search env rq w) =
               (case freshClient env of
                  Inl e \<Rightarrow> Inl e
                | Inr _ \<Rightarrow>
                    (case embedding env (cat_query rq) of
                       Inl e \<Rightarrow> Inl e
                     | Inr v \<Rightarrow>
                         catalog_answer (c @ ''_catalog'')
                           (fst (client_search env (c @ ''_catalog'')
                              (search_request v (limit_or_default (cat_limit rq)) None) w)))))"
proof (intro conjI impI allI)
  from validateCatalog_returns [OF assms] validated_limit
  obtain x where x: "limit_or_default (cat_limit rq) = Fin x" "1 \<le> x" by blast
  assume "\<not> truthy (cat_client rq)"
  from fanout_returns(2) [OF this x(1), of env "cat_query rq" w] x
  show "\<exists>results x. fst (catalog_search env rq w) = Inr results \<and> descending results
              \<and> limit_or_default (cat_limit rq) = Fin x \<and> of_nat (length results) \<le> x"
    by (auto simp: catalog_search_def)
next
  fix c assume c: "cat_client rq = Some c \<and> c \<noteq> []"
  with validateCatalog_returns [OF assms] check_client_returns
  show "c \<in> set (clients env)" by blast
  from c have "truthy (cat_client rq)" by (simp add: truthy_def)
  with c show "fst (catalog_search env rq w) =
               (case freshClient env of
                  Inl e \<Rightarrow> Inl e
                | Inr _ \<Rightarrow>
                    (case embedding env (cat_query rq) of
                       Inl e \<Rightarrow> Inl e
                     | Inr v \<Rightarrow>
                         catalog_answer (c @ ''_catalog'')
                           (fst (client_search env (c @ ''_catalog'')
                              (search_request v (limit_or_default (cat_limit rq)) None) w))))"
    by (simp add: catalog_search_def RagManager_searchCatalog_def searchCatalog_answer)
qed

text \<open>
  Claim C6, as the code has it. For every request that validation accepts: the
  cross-tenant chunk search returns a list sorted by descending score, no longer than the
  limit, whatever the collaborators do; so does a catalog or chunk search without a client.
  A catalog or chunk search with a client that is not the empty string, which validation
  has found among the configured clients, returns the store's hits as the store ordered
  them when the query is embedded and the store answers, and throws the error of the
  embedding backend or of the store when one of them fails.
\<close>

theorem query_outcomes:
  "(\<forall>rq. validateAllChunksSearchRequest a = Inr rq \<longrightarrow>
      (\<exists>results x. fst (all_chunks_search env rq this w) = Inr results
         \<and> descending results
         \<and> limit_or_default (all_limit rq) = Fin x \<and> of_nat (length results) \<le> x))
 \<and> (\<forall>rq. validateChunksSearchRequest (clients env) a = Inr rq \<longrightarrow>
      (\<not> truthy (chk_client rq) \<longrightarrow>
           (\<exists>results x. fst (chunks_search env rq w) = Inr results \<and> descending results
              \<and> limit_or_default (chk_limit rq) = Fin x \<and> of_nat (length results) \<le> x))
       \<and> (\<forall>c. chk_client rq = Some c \<and> c \<noteq> [] \<longrightarrow>
             c \<in> set (clients env)
           \<and> fst (chunks_search env rq w) =
               (case freshClient env of
                  Inl e \<Rightarrow> Inl e
                | Inr _ \<Rightarrow>
                    (case embedding env (chk_query rq) of
                       Inl e \<Rightarrow> Inl e
                     | Inr v \<Rightarrow>
                         chunk_answer (c @ ''_chunks'')
                           (fst (client_search env (c @ ''_chunks'')
                              (search_request v (limit_or_default (chk_limit rq))
                                 (chk_source rq)) w))))))
 \<and> (\<forall>rq. validateCatalogSearchRequest (clients env) a = Inr rq \<longrightarrow>
      (\<not> truthy (cat_client rq) \<longrightarrow>
           (\<exists>results x. fst (catalog_search env rq w) = Inr results \<and> descending results
              \<and> limit_or_default (cat_limit rq) = Fin x \<and> of_nat (length results) \<le> x))
       \<and> (\<forall>c. cat_client rq = Some c \<and> c \<noteq> [] \<longrightarrow>
             c \<in> set (clients env)
           \<and> fst (catalog_search env rq w) =
               (case freshClient env of
                  Inl e \<Rightarrow> Inl e
                | Inr _ \<Rightarrow>
                    (case embedding env (cat_query rq) of
                       Inl e \<Rightarrow> Inl e
                     | Inr v \<Rightarrow>
                         catalog_answer (c @ ''_catalog'')
                           (fst (client_search env (c @ ''_catalog'')
                              (search_request v (limit_or_default (cat_limit rq)) None) w))))))"
  by (intro conjI)
     ((rule allI, rule impI, erule all_chunks_search_total),
      (rule allI, rule impI, erule chunks_search_total),
      (rule allI, rule impI, erule catalog_search_total))

text \<open>
  Claim C6 as stated fails for a search scoped to a client: with the embedding backend
  down, the validated chunk search does not return a list but throws the backend's error.
\<close>

theorem backend_error_counterexample:
  "validateChunksSearchRequest (clients down_env) args_well_formed
     = Inr \<lparr>chk_query = ''notes'', chk_client = Some ''work'',
            chk_source = Some ''a.md'', chk_limit = Some (Fin 5)\<rparr>
   \<and> fst (chunks_search down_env
            \<lparr>chk_query = ''notes'', chk_client = Some ''work'',
             chk_source = Some ''a.md'', chk_limit = Some (Fin 5)\<rparr> demo_world)
       = Inl (Error ''LM Studio embeddings failed: Service Unavailable'')"
proof -
  have c: "clients down_env = [''work'', ''personal'']"
    by (simp add: down_env_def demo_env_def)
  have f: "freshClient down_env = Inr ()"
    by (simp add: freshClient_def down_env_def demo_env_def)
  have e: "embedding down_env t = Inl (Error ''LM Studio embeddings failed: Service Unavailable'')"
    for t by (simp add: down_env_def)
  show ?thesis
    by (simp add: c validate_well_formed chunks_search_def RagManager_searchChunks_def
        truthy_def searchChunks_answer f e limit_or_default_def)
qed

lemma validate_query_only:
  "validateChunksSearchRequest [''work'', ''personal''] args_query_only
     = Inr \<lparr>chk_query = ''notes'', chk_client = None, chk_source = None, chk_limit = None\<rparr>"
  "validateAllChunksSearchRequest args_query_only = Inr \<lparr>all_query = ''notes'', all_limit = None\<rparr>"
  by (simp_all add: args_query_only_def property_def validateChunksSearchRequest_def
      validateAllChunksSearchRequest_def check_client_def check_limit_def check_source_def)

lemma seeded_work_hits:
  "fst (client_search demo_env ''work_chunks'' p seeded_world)
     = Inr (Hits [\<lparr>hit_id = 4, hit_score = Some (1 / 5),
                   hit_payload = Some [(''source'', JStr ''w1.md'')]\<rparr>,
                  \<lparr>hit_id = 9, hit_score = Some (1 / 10),
                   hit_payload = Some [(''source'', JStr ''w3.md'')]\<rparr>])"
  by (simp add: client_search_def seeded_world_def demo_similarity)

theorem query_outcomes_witness:
  "validateChunksSearchRequest (clients demo_env) args_well_formed
     = Inr \<lparr>chk_query = ''notes'', chk_client = Some ''work'',
            chk_source = Some ''a.md'', chk_limit = Some (Fin 5)\<rparr>
   \<and> ''work'' \<in> set (clients demo_env)
   \<and> fst (chunks_search demo_env
            \<lparr>chk_query = ''notes'', chk_client = Some ''work'',
             chk_source = Some ''a.md'', chk_limit = Some (Fin 5)\<rparr> seeded_world)
       = Inr [chunk_result ''work_chunks''
                \<lparr>hit_id = 4, hit_score = Some (1 / 5),
                 hit_payload = Some [(''source'', JStr ''w1.md'')]\<rparr>,
              chunk_result ''work_chunks''
                \<lparr>hit_id = 9, hit_score = Some (1 / 10),
                 hit_payload = Some [(''source'', JStr ''w3.md'')]\<rparr>]
   \<and> validateChunksSearchRequest (clients demo_env) args_query_only
       = Inr \<lparr>chk_query = ''notes'', chk_client = None, chk_source = None, chk_limit = None\<rparr>
   \<and> \<not> truthy None
   \<and> (\<exists>results. fst (chunks_search demo_env
            \<lparr>chk_query = ''notes'', chk_client = None, chk_source = None, chk_limit = None\<rparr>
            seeded_world) = Inr results
        \<and> descending results \<and> length results \<le> 10)
   \<and> validateAllChunksSearchRequest args_query_only
       = Inr \<lparr>all_query = ''notes'', all_limit = None\<rparr>
   \<and> (\<exists>results. fst (all_chunks_search demo_env \<lparr>all_query = ''notes'', all_limit = None\<rparr>
            \<lparr>qdrant = demo_this\<rparr> seeded_world) = Inr results
        \<and> descending results \<and> length results \<le> 10)"
proof -
  let ?rq = "\<lparr>chk_query = ''notes'', chk_client = Some ''work'',
            chk_source = Some ''a.md'', chk_limit = Some (Fin 5)\<rparr>"
  let ?rn = "\<lparr>chk_query = ''notes'', chk_client = None, chk_source = None, chk_limit = None\<rparr>"
  let ?ra = "\<lparr>all_query = ''notes'', all_limit = None\<rparr>"
  have v1: "validateChunksSearchRequest (clients demo_env) args_well_formed = Inr ?rq"
    by (simp add: demo_clients validate_well_formed)
  have v2: "validateChunksSearchRequest (clients demo_env) args_query_only = Inr ?rn"
    by (simp add: demo_clients validate_query_only)
  have v3: "validateAllChunksSearchRequest args_query_only = Inr ?ra"
    by (simp add: validate_query_only)
  have c1: "chk_client ?rq = Some ''work'' \<and> ''work'' \<noteq> []" by simp
  have t: "\<not> truthy None" by (simp add: truthy_def)
  have d: "limit_or_default None = Fin 10" "limit_or_default (Some (Fin 5)) = Fin 5"
    by (simp_all add: limit_or_default_def)
  note T1 = query_outcomes [where env = demo_env and a = args_well_formed and w = seeded_world]
  note T2 = query_outcomes [where env = demo_env and a = args_query_only and w = seeded_world
      and this = "\<lparr>qdrant = demo_this\<rparr>"]
  from T1 v1 c1 have m: "''work'' \<in> set (clients demo_env)" by blast
  from T1 v1 c1 have "fst (chunks_search demo_env ?rq seeded_world) =
       (case freshClient demo_env of
          Inl e \<Rightarrow> Inl e
        | Inr _ \<Rightarrow>
            (case embedding demo_env (chk_query ?rq) of
               Inl e \<Rightarrow> Inl e
             | Inr v \<Rightarrow>
                 chunk_answer (''work'' @ ''_chunks'')
                   (fst (client_search demo_env (''work'' @ ''_chunks'')
                      (search_request v (limit_or_default (chk_limit ?rq))
                         (chk_source ?rq)) seeded_world))))"
    by blast
  then have r1: "fst (chunks_search demo_env ?rq seeded_world)
       = Inr [chunk_result ''work_chunks''
                \<lparr>hit_id = 4, hit_score = Some (1 / 5),
                 hit_payload = Some [(''source'', JStr ''w1.md'')]\<rparr>,
              chunk_result ''work_chunks''
                \<lparr>hit_id = 9, hit_score = Some (1 / 10),
                 hit_payload = Some [(''source'', JStr ''w3.md'')]\<rparr>]"
    by (simp add: freshClient_demo demo_embedding seeded_work_hits chunk_answer_def)
  have t': "\<not> truthy (chk_client ?rn)" by (simp add: truthy_def)
  from T2 v2 t' have "\<exists>results x. fst (chunks_search demo_env ?rn seeded_world) = Inr results
      \<and> descending results
      \<and> limit_or_default (chk_limit ?rn) = Fin x \<and> of_nat (length results) \<le> x"
    by blast
  then have r2: "\<exists>results. fst (chunks_search demo_env ?rn seeded_world) = Inr results
        \<and> descending results \<and> length results \<le> 10"
    by (auto simp: d)
  from T2 v3 have "\<exists>results x. fst (all_chunks_search demo_env ?ra \<lparr>qdrant = demo_this\<rparr>
            seeded_world) = Inr results
      \<and> descending results
      \<and> limit_or_default (all_limit ?ra) = Fin x \<and> of_nat (length results) \<le> x"
    by blast
  then have r3: "\<exists>results. fst (all_chunks_search demo_env ?ra \<lparr>qdrant = demo_this\<rparr>
            seeded_world) = Inr results
        \<and> descending results \<and> length results \<le> 10"
    by (auto simp: d)
  from v1 m r1 v2 t r2 v3 r3 show ?thesis by (intro conjI)
qed

section \<open>Range of the point ids\<close>

lemma stored_catalog_id_bound:
  "\<forall>pid \<in> set (upsert_ids (issued w (snd (snd (storeCatalogEntry env entry client this w))))).
     pid < 2 ^ 32"
proof -
  obtain r this1 w1 where run: "storeCatalogEntry env entry client this w = (r, this1, w1)"
    by (cases "storeCatalogEntry env entry client this w") auto
  from storeCatalogEntry_upserts(1) [OF run]
    be_value_take4_bound [of "digest (sha256 env (source entry))"]
  show ?thesis by (auto simp: run length_digest)
qed

lemma stored_chunk_id_bound:
  "\<forall>pid \<in> set (upsert_ids (issued w (snd (snd (storeDocumentChunk env chunk client this w))))).
     pid < 2 ^ 32"
proof -
  obtain r this1 w1 where run: "storeDocumentChunk env chunk client this w = (r, this1, w1)"
    by (cases "storeDocumentChunk env chunk client this w") auto
  from storeDocumentChunk_upserts(1) [OF run]
    be_value_take4_bound
      [of "digest (sha256 env (source chunk @ ''-'' @ decimal (chunk_index chunk)))"]
  show ?thesis by (auto simp: run length_digest)
qed

text \<open>
  Claim C9. For every string the point id is the unsigned big-endian number of the first
  four of the 32 bytes of its SHA-256 digest, hence below \<open>2^32\<close>, and so is every id
  that the two store operations upsert; and since only 32 bits are kept, two different
  strings with the same id exist, whatever the digest.
\<close>

theorem point_id_is_32_bits_of_digest:
  "hashString env s = Inr (be_value (take 4 (digest (sha256 env s))))
   \<and> length (digest (sha256 env s)) = 32
   \<and> be_value (take 4 (digest (sha256 env s))) < 2 ^ 32
   \<and> (\<forall>pid \<in> set (upsert_ids (issued w
          (snd (snd (storeCatalogEntry env entry client this w))))). pid < 2 ^ 32)
   \<and> (\<forall>pid \<in> set (upsert_ids (issued w
          (snd (snd (storeDocumentChunk env chunk client this w))))). pid < 2 ^ 32)
   \<and> (\<exists>s1 s2. s1 \<noteq> s2 \<and> hashString env s1 = hashString env s2)"
  using hashString_value [of env s] hashString_collision [of env]
    be_value_take4_bound [of "digest (sha256 env s)"]
    stored_catalog_id_bound [of w env entry client this]
    stored_chunk_id_bound [of w env chunk client this]
  by (simp add: length_digest)

theorem point_id_is_32_bits_of_digest_witness:
  "upsert_ids (issued demo_world
       (snd (snd (storeCatalogEntry demo_env demo_entry ''work'' demo_this demo_world))))
     = [be_value (take 4 (digest (sha256 demo_env ''docs/a.md'')))]
   \<and> hashString demo_env ''docs/a.md''
       = Inr (be_value (take 4 (digest (sha256 demo_env ''docs/a.md''))))
   \<and> be_value (take 4 (digest (sha256 demo_env ''docs/a.md''))) < 2 ^ 32"
proof -
  have i: "upsert_ids (issued demo_world
       (snd (snd (storeCatalogEntry demo_env demo_entry ''work'' demo_this demo_world))))
     = [be_value (take 4 (digest (sha256 demo_env ''docs/a.md'')))]"
  proof -
    have l: "log demo_world = []" by (simp add: demo_world_def)
    show ?thesis unfolding store_demo_entry by (simp add: issued_def l)
  qed
  note T = point_id_is_32_bits_of_digest [where env = demo_env and s = "''docs/a.md''"
      and w = demo_world and entry = demo_entry and client = "''work''" and this = demo_this]
  from T i have "be_value (take 4 (digest (sha256 demo_env ''docs/a.md''))) < 2 ^ 32"
    by simp
  moreover from T have "hashString demo_env ''docs/a.md''
       = Inr (be_value (take 4 (digest (sha256 demo_env ''docs/a.md''))))"
    by simp
  ultimately show ?thesis using i by simp
qed

end
